(* ===== verification/Prelude.thy ===== *)
theory Prelude
  imports Main "HOL-Library.Word" "HOL-Library.Char_ord" "HOL-Library.List_Lexorder"
begin

text \<open>
  Shared vocabulary of the development: Go byte strings, the error values of the chain's
  handlers, the error monad every fallible Go function is translated into, the 256-bit
  checked arithmetic of \<open>cosmossdk.io/math.Int\<close>, Go's \<open>int\<close> wrap-around and slicing, and the
  generic list lemmas the components use.
\<close>

unbundle bit_operations_syntax

named_theorems res_elims \<open>inversion of successful monadic computations\<close>
named_theorems chain_defs \<open>definitions unfolded when a handler is evaluated\<close>

section \<open>Bytes\<close>

text \<open>
  A Go \<open>string\<close> and a Go \<open>[]byte\<close> are both byte sequences; the HOL type \<open>char\<close> has exactly the
  256 byte values. \<open>Char_ord\<close> and \<open>List_Lexorder\<close> give the bytewise lexicographic order that
  Go's string comparison and the key-value store's iterators use.
\<close>

type_synonym bytes = string
type_synonym addr = bytes
type_synonym valaddr = bytes

abbreviation byte_val :: "char \<Rightarrow> nat" where
  "byte_val c \<equiv> of_char c"

section \<open>Errors\<close>

text \<open>
  The registered SDK and module errors the handlers return, gRPC status errors of the queries,
  \<open>fmt.Errorf\<close> errors, errors handed on from third-party calls, Go panics (recovered by the
  transaction runner), \<open>LogFatal\<close> for \<open>log.Fatal\<close>, which ends the process, and \<open>NoReturn\<close> for a call that runs forever.
\<close>

datatype grpc_code = InvalidArgument | Internal

datatype go_err =
    ErrInvalidRequest string
  | ErrInvalidAddress
  | ErrInvalidCoins
  | ErrNotFound
  | ErrInsufficientFunds
  | ErrUnauthorized
  | ErrInvalidType
  | ErrInvalidSigner
  | ErrInsufficientDelegations
  | ErrLockupNotFound
  | ErrInvalidDate
  | ErrInvalidAmount
  | ErrUnexpectedEOF
  | ErrLogic string
  | ErrUnknownExtensionOptions
  | ErrUnknownRequest
  | StatusError grpc_code string
  | FmtError string
  | ExtError string
  | GoPanic string
  | LogFatal
  | NoReturn

type_synonym 'a res = "go_err + 'a"

section \<open>The error monad\<close>

definition bnd :: "'e + 'a \<Rightarrow> ('a \<Rightarrow> 'e + 'b) \<Rightarrow> 'e + 'b" where
  "bnd m f = (case m of Inl e \<Rightarrow> Inl e | Inr x \<Rightarrow> f x)"

definition require :: "bool \<Rightarrow> 'e \<Rightarrow> 'e + unit" where
  "require b e = (if b then Inr () else Inl e)"

text \<open>
  \<open>wrap_err e m\<close> replaces the error of \<open>m\<close> by \<open>e\<close>, as \<open>Wrapf\<close> around a failed call does; a panic of
  the call, or its not returning, is no error value and stays.
\<close>

fun stops :: "go_err \<Rightarrow> bool" where
  "stops (GoPanic s) = True"
| "stops LogFatal = True"
| "stops NoReturn = True"
| "stops _ = False"

definition wrap_err :: "go_err \<Rightarrow> 'a res \<Rightarrow> 'a res" where
  "wrap_err e m = (case m of Inl f \<Rightarrow> Inl (if stops f then f else e) | Inr x \<Rightarrow> Inr x)"

lemma bnd_Inr [simp]: "bnd (Inr x) f = f x"
  by (simp add: bnd_def)

lemma bnd_Inl [simp]: "bnd (Inl e) f = Inl e"
  by (simp add: bnd_def)

lemma require_True [simp]: "require True e = Inr ()"
  by (simp add: require_def)

lemma require_False [simp]: "require False e = Inl e"
  by (simp add: require_def)

lemma wrap_err_simps [simp]: "wrap_err e (Inr x) = Inr x"
  "wrap_err e (Inl f) = Inl (if stops f then f else e)"
  by (simp_all add: wrap_err_def)

lemma bnd_eq_Inr: "bnd m f = Inr y \<longleftrightarrow> (\<exists>x. m = Inr x \<and> f x = Inr y)"
  by (cases m) simp_all

lemma bnd_eq_Inl: "bnd m f = Inl e \<longleftrightarrow> m = Inl e \<or> (\<exists>x. m = Inr x \<and> f x = Inl e)"
  by (cases m) simp_all

lemma require_eq_Inr: "require b e = Inr u \<longleftrightarrow> b"
  by (simp add: require_def)

lemma require_eq_Inl: "require b e = Inl f \<longleftrightarrow> \<not> b \<and> f = e"
  by (auto simp: require_def)

lemma wrap_err_eq_Inr: "wrap_err e m = Inr x \<longleftrightarrow> m = Inr x"
  by (cases m) simp_all

lemma bnd_InrE [res_elims, elim!]:
  assumes "bnd m f = Inr y"
  obtains x where "m = Inr x" "f x = Inr y"
  using assms by (cases m) auto

lemma require_InrE [res_elims, elim!]:
  assumes "require b e = Inr u"
  obtains "b"
  using assms by (simp add: require_eq_Inr)

lemma wrap_err_InrE [res_elims, elim!]:
  assumes "wrap_err e m = Inr x"
  obtains "m = Inr x"
  using assms by (simp add: wrap_err_eq_Inr)

lemma not_islE:
  assumes "\<not> isl m"
  obtains x where "m = Inr x"
  using assms by (cases m) auto

lemmas res_iffs = bnd_eq_Inr bnd_eq_Inl require_eq_Inr require_eq_Inl wrap_err_eq_Inr

lemma bnd_assoc: "bnd (bnd m f) g = bnd m (\<lambda>x. bnd (f x) g)"
  by (cases m) simp_all

lemma bnd_cong [fundef_cong]:
  "m = m' \<Longrightarrow> (\<And>x. m' = Inr x \<Longrightarrow> f x = f' x) \<Longrightarrow> bnd m f = bnd m' f'"
  by (cases m') simp_all

text \<open>A Go loop with an early error return, over the elements of a slice.\<close>

fun foldM :: "('s \<Rightarrow> 'a \<Rightarrow> 'e + 's) \<Rightarrow> 's \<Rightarrow> 'a list \<Rightarrow> 'e + 's" where
  "foldM f s [] = Inr s"
| "foldM f s (x # xs) = bnd (f s x) (\<lambda>s'. foldM f s' xs)"

lemma foldM_append: "foldM f s (xs @ ys) = bnd (foldM f s xs) (\<lambda>s'. foldM f s' ys)"
  by (induction xs arbitrary: s) (auto simp: bnd_assoc)

lemma foldM_cong:
  "(\<And>s x. x \<in> set xs \<Longrightarrow> f s x = g s x) \<Longrightarrow> foldM f s xs = foldM g s xs"
  by (induction xs arbitrary: s) (auto intro: bnd_cong)

text \<open>The loop rule: what every successful step keeps, the successful loop keeps.\<close>

lemma foldM_invariant:
  assumes "foldM f s xs = Inr s'" and "P s"
    and step: "\<And>t x t'. P t \<Longrightarrow> x \<in> set xs \<Longrightarrow> f t x = Inr t' \<Longrightarrow> P t'"
  shows "P s'"
  using assms
proof (induction xs arbitrary: s)
  case Nil
  then show ?case by simp
next
  case (Cons x xs)
  from Cons.prems(1) obtain t where t: "f s x = Inr t" "foldM f t xs = Inr s'"
    by auto
  have "P t"
    using Cons.prems(3) [OF Cons.prems(2) _ t(1)] by simp
  with t(2) show ?case
    by (rule Cons.IH) (meson Cons.prems(3) list.set_intros(2))
qed

section \<open>Checked 256-bit integers\<close>

text \<open>
  \<open>math.Int\<close> values are signed integers of at most 256 bits; an addition, subtraction or
  multiplication whose result is longer panics, and so does a division by zero.
\<close>

definition int_fits :: "int \<Rightarrow> bool" where
  "int_fits x \<longleftrightarrow> \<bar>x\<bar> < 2 ^ 256"

text \<open>The bound as a numeral, for evaluation.\<close>

lemma int_fits_code [code]:
  "int_fits x \<longleftrightarrow>
     \<bar>x\<bar> < 115792089237316195423570985008687907853269984665640564039457584007913129639936"
  by (simp add: int_fits_def)

definition int_checked :: "int \<Rightarrow> int res" where
  "int_checked x = (if int_fits x then Inr x else Inl (GoPanic ''integer overflow''))"

definition int_add :: "int \<Rightarrow> int \<Rightarrow> int res" where
  "int_add a b = int_checked (a + b)"

definition int_sub :: "int \<Rightarrow> int \<Rightarrow> int res" where
  "int_sub a b = int_checked (a - b)"

definition int_mul :: "int \<Rightarrow> int \<Rightarrow> int res" where
  "int_mul a b = int_checked (a * b)"

definition trunc_div :: "int \<Rightarrow> int \<Rightarrow> int" where
  "trunc_div a b = sgn a * sgn b * (\<bar>a\<bar> div \<bar>b\<bar>)"

definition int_quo :: "int \<Rightarrow> int \<Rightarrow> int res" where
  "int_quo a b = (if b = 0 then Inl (GoPanic ''division by zero'') else Inr (trunc_div a b))"

lemmas int_op_defs = int_add_def int_sub_def int_mul_def int_checked_def

lemma int_add_Inr: "int_add a b = Inr c \<longleftrightarrow> c = a + b \<and> int_fits (a + b)"
  by (auto simp: int_op_defs)

lemma int_sub_Inr: "int_sub a b = Inr c \<longleftrightarrow> c = a - b \<and> int_fits (a - b)"
  by (auto simp: int_op_defs)

lemma int_mul_Inr: "int_mul a b = Inr c \<longleftrightarrow> c = a * b \<and> int_fits (a * b)"
  by (auto simp: int_op_defs)

lemmas int_op_Inr = int_add_Inr int_sub_Inr int_mul_Inr

lemma int_fits_le: "int_fits b \<Longrightarrow> 0 \<le> a \<Longrightarrow> a \<le> b \<Longrightarrow> int_fits a"
  by (simp add: int_fits_def)

lemma trunc_div_nonneg: "0 \<le> a \<Longrightarrow> 0 \<le> b \<Longrightarrow> trunc_div a b = a div b"
  by (cases "a = 0"; cases "b = 0") (simp_all add: trunc_div_def sgn_if)

section \<open>Go machine integers and slices\<close>

text \<open>Go's \<open>int\<close> on a 64-bit platform: arithmetic wraps into \<open>[-2^63, 2^63)\<close>.\<close>

definition wrap64 :: "int \<Rightarrow> int" where
  "wrap64 x = (x + 2 ^ 63) mod 2 ^ 64 - 2 ^ 63"

lemma wrap64_id: "- (2 ^ 63) \<le> x \<Longrightarrow> x < 2 ^ 63 \<Longrightarrow> wrap64 x = x"
  by (simp add: wrap64_def)

lemma wrap64_range: "- (2 ^ 63) \<le> wrap64 x \<and> wrap64 x < 2 ^ 63"
  by (simp add: wrap64_def)

text \<open>\<open>data[i:]\<close> and \<open>data[i:j]\<close> panic outside the slice.\<close>

definition slice_from :: "'a list \<Rightarrow> int \<Rightarrow> 'a list res" where
  "slice_from xs i =
     (if 0 \<le> i \<and> i \<le> int (length xs) then Inr (drop (nat i) xs)
      else Inl (GoPanic ''slice bounds out of range''))"

definition slice_range :: "'a list \<Rightarrow> int \<Rightarrow> int \<Rightarrow> 'a list res" where
  "slice_range xs i j =
     (if 0 \<le> i \<and> i \<le> j \<and> j \<le> int (length xs) then Inr (take (nat (j - i)) (drop (nat i) xs))
      else Inl (GoPanic ''slice bounds out of range''))"

lemma slice_range_nat:
  "i \<le> j \<Longrightarrow> j \<le> length xs \<Longrightarrow> slice_range xs (int i) (int j) = Inr (take (j - i) (drop i xs))"
  by (simp add: slice_range_def nat_diff_distrib)

section \<open>Generic list lemmas\<close>

lemma sum_list_insert_mid:
  fixes f :: "'a \<Rightarrow> int"
  shows "sum_list (map f (take i xs @ y # drop i xs)) = f y + sum_list (map f xs)"
proof -
  have "sum_list (map f xs) = sum_list (map f (take i xs @ drop i xs))"
    by simp
  also have "\<dots> = sum_list (map f (take i xs)) + sum_list (map f (drop i xs))"
    unfolding map_append sum_list_append ..
  finally show ?thesis by simp
qed

lemma sum_list_remove_nth:
  fixes f :: "'a \<Rightarrow> int"
  assumes "i < length xs"
  shows "sum_list (map f (take i xs @ drop (Suc i) xs)) = sum_list (map f xs) - f (xs ! i)"
proof -
  have "sum_list (map f xs) = sum_list (map f (take i xs @ xs ! i # drop (Suc i) xs))"
    using assms by (simp add: id_take_nth_drop [symmetric])
  then show ?thesis by simp
qed

lemma sum_list_update_nth:
  fixes f :: "'a \<Rightarrow> int"
  assumes "i < length xs"
  shows "sum_list (map f (xs[i := y])) = sum_list (map f xs) - f (xs ! i) + f y"
  using sum_list_remove_nth [OF assms, of f] assms
  by (simp add: upd_conv_take_nth_drop)

lemma sum_list_map_nonneg:
  fixes f :: "'a \<Rightarrow> int"
  shows "(\<And>x. x \<in> set xs \<Longrightarrow> 0 \<le> f x) \<Longrightarrow> 0 \<le> sum_list (map f xs)"
  by (rule sum_list_nonneg) auto

lemma member_le_sum_list_map:
  fixes f :: "'a \<Rightarrow> int"
  assumes "x \<in> set xs" "\<And>x. x \<in> set xs \<Longrightarrow> 0 \<le> f x"
  shows "f x \<le> sum_list (map f xs)"
  using assms
proof (induction xs)
  case Nil
  then show ?case by simp
next
  case (Cons y xs)
  then show ?case
    using sum_list_map_nonneg [of xs f] by fastforce
qed

text \<open>A loop that adds checked amounts: the result on success, and success when nothing overflows.\<close>

lemma foldM_int_add:
  "foldM (\<lambda>total x. int_add total (f x)) a xs = Inr y \<Longrightarrow> y = a + (\<Sum>x \<leftarrow> xs. f x)"
  by (induction xs arbitrary: a) (auto simp: int_op_Inr, metis add.assoc)

lemma foldM_int_add_fits:
  assumes "\<And>x. x \<in> set xs \<Longrightarrow> 0 \<le> f x" "0 \<le> a" "int_fits (a + (\<Sum>x \<leftarrow> xs. f x))"
  shows "foldM (\<lambda>total x. int_add total (f x)) a xs = Inr (a + (\<Sum>x \<leftarrow> xs. f x))"
  using assms
proof (induction xs arbitrary: a)
  case Nil
  then show ?case by simp
next
  case (Cons x xs)
  have "int_fits (a + f x)"
    by (rule int_fits_le [OF Cons.prems(3)])
      (use Cons.prems(1,2) sum_list_map_nonneg [of xs f] in auto)
  with Cons show ?case
    by (auto simp: int_op_defs add.assoc)
qed

end
