(* ===== verification/Go_Time.thy ===== *)
theory Go_Time
  imports Prelude
begin

text \<open>
  The part of Go's \<open>time\<close> package the chain uses: instants (nanoseconds since the Unix epoch,
  UTC), the proleptic Gregorian calendar behind \<open>time.Date\<close>, \<open>Year\<close>, \<open>Month\<close>, \<open>Day\<close> and
  \<open>AddDate\<close>, \<open>Truncate(24h)\<close>, and \<open>Parse\<close> and \<open>Format\<close> for the layout \<open>2006-01-02\<close>. The lemmas
  show that the calendar functions are inverse to each other, that parsing and printing are
  inverse to each other, and that the bytewise order of date strings is the order of dates.
\<close>

type_synonym gotime = int

definition ns_per_day :: int where
  "ns_per_day = 86400000000000"

section \<open>The Gregorian calendar\<close>

definition is_leap :: "int \<Rightarrow> bool" where
  "is_leap y \<longleftrightarrow> y mod 4 = 0 \<and> (y mod 100 \<noteq> 0 \<or> y mod 400 = 0)"

definition leap_day :: "int \<Rightarrow> int" where
  "leap_day y = (if is_leap y then 1 else 0)"

text \<open>Days from 1 January of year 1 to 1 January of year \<open>y\<close>.\<close>

definition leaps_through :: "int \<Rightarrow> int" where
  "leaps_through y = y div 4 - y div 100 + y div 400"

definition days_before_year :: "int \<Rightarrow> int" where
  "days_before_year y = 365 * (y - 1) + leaps_through (y - 1)"

definition days_before_month :: "int \<Rightarrow> int \<Rightarrow> int" where
  "days_before_month y m =
     (if m \<le> 1 then 0
      else if m = 2 then 31
      else leap_day y +
        (if m = 3 then 59 else if m = 4 then 90 else if m = 5 then 120 else if m = 6 then 151
         else if m = 7 then 181 else if m = 8 then 212 else if m = 9 then 243
         else if m = 10 then 273 else if m = 11 then 304 else if m = 12 then 334 else 365))"

definition days_in_month :: "int \<Rightarrow> int \<Rightarrow> int" where
  "days_in_month y m = days_before_month y (m + 1) - days_before_month y m"

text \<open>Day number relative to 1 January 1970.\<close>

definition days_from_civil :: "int \<Rightarrow> int \<Rightarrow> int \<Rightarrow> int" where
  "days_from_civil y m d = days_before_year y + days_before_month y m + d - 1 - 719162"

definition valid_civil :: "int \<Rightarrow> int \<Rightarrow> int \<Rightarrow> bool" where
  "valid_civil y m d \<longleftrightarrow> 1 \<le> m \<and> m \<le> 12 \<and> 1 \<le> d \<and> d \<le> days_in_month y m"

definition year_of_days :: "int \<Rightarrow> int" where
  "year_of_days n =
     (let k = (n + 719162) * 400 div 146097
      in if days_before_year (k + 2) \<le> n + 719162 then k + 2 else k + 1)"

definition month_of_yday :: "int \<Rightarrow> int \<Rightarrow> int" where
  "month_of_yday y r =
     (if r < days_before_month y 2 then 1 else if r < days_before_month y 3 then 2
      else if r < days_before_month y 4 then 3 else if r < days_before_month y 5 then 4
      else if r < days_before_month y 6 then 5 else if r < days_before_month y 7 then 6
      else if r < days_before_month y 8 then 7 else if r < days_before_month y 9 then 8
      else if r < days_before_month y 10 then 9 else if r < days_before_month y 11 then 10
      else if r < days_before_month y 12 then 11 else 12)"

definition civil_from_days :: "int \<Rightarrow> int \<times> int \<times> int" where
  "civil_from_days n =
     (let y = year_of_days n; r = n + 719162 - days_before_year y; m = month_of_yday y r
      in (y, m, r - days_before_month y m + 1))"

lemma leap_day_cases: "leap_day y = 0 \<or> leap_day y = 1"
  by (simp add: leap_day_def)

lemma div_bounds:
  fixes a k :: int
  assumes "0 < k"
  shows "k * (a div k) \<le> a" "a < k * (a div k) + k"
  using assms mult_div_mod_eq [of k a] pos_mod_bound [of k a] pos_mod_sign [of k a]
  by linarith+

lemma div_pred:
  fixes y k :: int
  assumes "0 < k"
  shows "y div k = (y - 1) div k + (if y mod k = 0 then 1 else 0)"
proof -
  let ?q = "(y - 1) div k" and ?r = "(y - 1) mod k"
  have y: "y = k * ?q + (?r + 1)"
    using mult_div_mod_eq [of k "y - 1"] by linarith
  have r: "0 \<le> ?r" "?r < k"
    using assms by simp_all
  show ?thesis
  proof (cases "?r + 1 = k")
    case True
    then have "y = k * (?q + 1)" by (subst y) (simp add: distrib_left)
    then have "y mod k = 0" "y div k = ?q + 1"
      using assms by (metis mod_mult_self1_is_0, metis less_irrefl nonzero_mult_div_cancel_left)
    then show ?thesis by simp
  next
    case False
    with r have "0 \<le> ?r + 1" "?r + 1 < k" by simp_all
    then have "y div k = ?q" "y mod k = ?r + 1"
      using y int_div_pos_eq [of y k ?q "?r + 1"] int_mod_pos_eq [of y k ?q "?r + 1"] by simp_all
    with r show ?thesis by simp
  qed
qed

lemma leaps_through_pred: "leaps_through y = leaps_through (y - 1) + leap_day y"
proof -
  have "y mod 400 = 0 \<Longrightarrow> y mod 100 = 0" "y mod 100 = 0 \<Longrightarrow> y mod 4 = 0"
    using dvd_trans [of 100 400 y] dvd_trans [of 4 100 y] by (simp_all add: dvd_eq_mod_eq_0)
  then show ?thesis
    unfolding leaps_through_def leap_day_def is_leap_def
      div_pred [of 4 y, simplified] div_pred [of 100 y, simplified] div_pred [of 400 y, simplified]
    by (cases "y mod 4 = 0"; cases "y mod 100 = 0"; cases "y mod 400 = 0") simp_all
qed

lemma leaps_linear:
  fixes y a b c :: int
  assumes "4 * a \<le> y" "y < 4 * a + 4" "100 * b \<le> y" "y < 100 * b + 100"
    and "400 * c \<le> y" "y < 400 * c + 400"
  shows "97 * y - 699 \<le> 400 * (a - b + c)" "400 * (a - b + c) \<le> 97 * y + 396"
proof -
  have "y \<le> 4 * a + 3" "y \<le> 100 * b + 99" "y \<le> 400 * c + 399"
    using assms by simp_all
  then show "97 * y - 699 \<le> 400 * (a - b + c)" "400 * (a - b + c) \<le> 97 * y + 396"
    using assms(1,3,5) by simp_all
qed

lemma leaps_through_bounds:
  "97 * y - 699 \<le> 400 * leaps_through y" "400 * leaps_through y \<le> 97 * y + 396"
  unfolding leaps_through_def
  by (rule leaps_linear; simp add: div_bounds)+

lemma days_before_year_Suc: "days_before_year (y + 1) = days_before_year y + 365 + leap_day y"
  using leaps_through_pred [of y] by (simp add: days_before_year_def)

lemma days_before_year_add:
  "days_before_year y + 365 * int n \<le> days_before_year (y + int n)"
proof (induction n)
  case 0
  then show ?case by simp
next
  case (Suc n)
  then show ?case
    using days_before_year_Suc [of "y + int n"] leap_day_cases [of "y + int n"]
    by (auto simp: algebra_simps)
qed

lemma days_before_year_mono: "y \<le> z \<Longrightarrow> days_before_year y + 365 * (z - y) \<le> days_before_year z"
  using days_before_year_add [of y "nat (z - y)"] by simp

lemma days_before_month_simps [simp]:
  "days_before_month y 1 = 0" "days_before_month y 2 = 31"
  "days_before_month y 3 = leap_day y + 59" "days_before_month y 4 = leap_day y + 90"
  "days_before_month y 5 = leap_day y + 120" "days_before_month y 6 = leap_day y + 151"
  "days_before_month y 7 = leap_day y + 181" "days_before_month y 8 = leap_day y + 212"
  "days_before_month y 9 = leap_day y + 243" "days_before_month y 10 = leap_day y + 273"
  "days_before_month y 11 = leap_day y + 304" "days_before_month y 12 = leap_day y + 334"
  "days_before_month y 13 = leap_day y + 365"
  by (simp_all add: days_before_month_def)

lemma month_cases:
  assumes "1 \<le> (m::int)" "m \<le> 12"
  obtains "m = 1" | "m = 2" | "m = 3" | "m = 4" | "m = 5" | "m = 6"
    | "m = 7" | "m = 8" | "m = 9" | "m = 10" | "m = 11" | "m = 12"
proof -
  have "m = 1 \<or> m = 2 \<or> m = 3 \<or> m = 4 \<or> m = 5 \<or> m = 6 \<or> m = 7 \<or> m = 8 \<or> m = 9 \<or>
      m = 10 \<or> m = 11 \<or> m = 12"
    using assms by presburger
  then show thesis using that by blast
qed

lemma month_of_yday_cases:
  assumes "0 \<le> r" "r < 365 + leap_day y"
  shows "1 \<le> month_of_yday y r" "month_of_yday y r \<le> 12"
    and "days_before_month y (month_of_yday y r) \<le> r"
    and "r < days_before_month y (month_of_yday y r + 1)"
  using assms leap_day_cases [of y] by (auto simp: month_of_yday_def)

lemma days_before_month_le:
  assumes "1 \<le> m" "m \<le> 12"
  shows "0 \<le> days_before_month y m" "days_before_month y (m + 1) \<le> 365 + leap_day y"
    and "28 \<le> days_in_month y m" "days_in_month y m \<le> 31"
proof -
  have "0 \<le> days_before_month y m \<and> days_before_month y (m + 1) \<le> 365 + leap_day y \<and>
      28 \<le> days_in_month y m \<and> days_in_month y m \<le> 31"
    using assms
    by (rule month_cases) (use leap_day_cases [of y] in \<open>auto simp: days_in_month_def\<close>)
  then show "0 \<le> days_before_month y m" "days_before_month y (m + 1) \<le> 365 + leap_day y"
    "28 \<le> days_in_month y m" "days_in_month y m \<le> 31"
    by auto
qed

lemma month_of_yday_eq:
  assumes "1 \<le> m" "m \<le> 12" "days_before_month y m \<le> r" "r < days_before_month y (m + 1)"
  shows "month_of_yday y r = m"
  using assms(1,2)
  by (rule month_cases)
    (use leap_day_cases [of y] assms(3,4) in \<open>auto simp: month_of_yday_def\<close>)

lemma year_of_days_bounds:
  "days_before_year (year_of_days n) \<le> n + 719162"
  "n + 719162 < days_before_year (year_of_days n + 1)"
proof -
  define N where "N = n + 719162"
  define k where "k = N * 400 div 146097"
  have k: "146097 * k \<le> N * 400" "N * 400 < 146097 * k + 146097"
    unfolding k_def using div_bounds [of 146097 "N * 400"] by simp_all
  have lo: "days_before_year (k + 1) \<le> N"
    using k leaps_through_bounds [of k] by (simp add: days_before_year_def)
  have hi: "N < days_before_year (k + 3)"
    using k leaps_through_bounds [of "2 + k"] by (simp add: days_before_year_def algebra_simps)
  have "k + 1 + 1 = k + 2" "k + 2 + 1 = k + 3" by simp_all
  then show "days_before_year (year_of_days n) \<le> n + 719162"
    "n + 719162 < days_before_year (year_of_days n + 1)"
    unfolding year_of_days_def Let_def N_def [symmetric] k_def [symmetric]
    using lo hi by (simp_all add: add.commute)
qed

lemma year_of_days_unique:
  assumes "days_before_year y \<le> n + 719162" "n + 719162 < days_before_year (y + 1)"
  shows "year_of_days n = y"
proof -
  consider "year_of_days n < y" | "year_of_days n = y" | "y < year_of_days n" by linarith
  then show ?thesis
  proof cases
    case 1
    then show ?thesis
      using days_before_year_mono [of "year_of_days n + 1" y] year_of_days_bounds [of n] assms
      by simp
  next
    case 3
    then show ?thesis
      using days_before_year_mono [of "y + 1" "year_of_days n"] year_of_days_bounds [of n] assms
      by simp
  qed simp
qed

lemma civil_from_days_from_civil:
  assumes "valid_civil y m d"
  shows "civil_from_days (days_from_civil y m d) = (y, m, d)"
proof -
  from assms have m: "1 \<le> m" "m \<le> 12" and d: "1 \<le> d" "d \<le> days_in_month y m"
    by (auto simp: valid_civil_def)
  let ?n = "days_from_civil y m d"
  have y: "year_of_days ?n = y"
    using days_before_month_le [OF m, of y] d days_before_year_Suc [of y]
    by (intro year_of_days_unique) (auto simp: days_from_civil_def days_in_month_def)
  have r: "?n + 719162 - days_before_year y = days_before_month y m + d - 1"
    by (simp add: days_from_civil_def)
  have "month_of_yday y (days_before_month y m + d - 1) = m"
    using m d by (intro month_of_yday_eq) (auto simp: days_in_month_def)
  then show ?thesis
    unfolding civil_from_days_def y Let_def r by simp
qed

lemma civil_from_days_valid:
  assumes "civil_from_days n = (y, m, d)"
  shows "valid_civil y m d" "days_from_civil y m d = n"
proof -
  let ?y = "year_of_days n"
  let ?r = "n + 719162 - days_before_year ?y"
  have r: "0 \<le> ?r" "?r < 365 + leap_day ?y"
    using year_of_days_bounds [of n] days_before_year_Suc [of ?y] by auto
  show "valid_civil y m d" "days_from_civil y m d = n"
    using assms month_of_yday_cases [OF r]
    by (auto simp: civil_from_days_def Let_def valid_civil_def days_in_month_def days_from_civil_def)
qed

lemma days_before_month_mono:
  assumes "1 \<le> b" "b < b'" "b' \<le> 12"
  shows "days_before_month a (b + 1) \<le> days_before_month a b'"
proof -
  have "1 \<le> b" "b \<le> 12" using assms by simp_all
  then show ?thesis
    by (rule month_cases)
      (use assms leap_day_cases [of a] in \<open>auto simp: days_before_month_def\<close>)
qed

lemma days_from_civil_less:
  assumes "valid_civil y m d" "valid_civil y' m' d'"
  shows "days_from_civil y m d < days_from_civil y' m' d' \<longleftrightarrow>
    y < y' \<or> y = y' \<and> (m < m' \<or> m = m' \<and> d < d')"
proof -
  have lt_year: "days_from_civil a b c < days_from_civil a' b' c'"
    if "valid_civil a b c" "valid_civil a' b' c'" "a < a'" for a b c a' b' c'
    using that days_before_month_le [of b a] days_before_month_le [of b' a']
      days_before_year_Suc [of a] days_before_year_mono [of "a + 1" a']
    by (auto simp: days_from_civil_def valid_civil_def days_in_month_def)
  have month_step: "days_before_month a (b + 1) \<le> days_before_month a b'"
    if "1 \<le> b" "b < b'" "b' \<le> 12" for a b b'
    using that by (rule days_before_month_mono)
  have lt_month: "days_from_civil a b c < days_from_civil a b' c'"
    if "valid_civil a b c" "valid_civil a b' c'" "b < b'" for a b c b' c'
    using that month_step [of b b' a]
    by (auto simp: days_from_civil_def valid_civil_def days_in_month_def)
  consider "y < y'" | "y' < y" | "y = y'" "m < m'" | "y = y'" "m' < m" | "y = y'" "m = m'"
    by linarith
  then show ?thesis
  proof cases
    case 1
    with lt_year [OF assms] show ?thesis by simp
  next
    case 2
    with lt_year [OF assms(2,1)] show ?thesis by simp
  next
    case 3
    with lt_month [of y m d m' d'] assms show ?thesis by simp
  next
    case 4
    with lt_month [of y m' d' m d] assms show ?thesis by simp
  next
    case 5
    then show ?thesis by (simp add: days_from_civil_def)
  qed
qed

section \<open>Instants\<close>

definition midnight :: "int \<Rightarrow> gotime" where
  "midnight n = n * ns_per_day"

definition day_number :: "gotime \<Rightarrow> int" where
  "day_number t = t div ns_per_day"

text \<open>
  \<open>time.Date\<close> carries months over into years; a day outside its month is added as it is, so
  the result is linear in the day argument.
\<close>

definition date_days :: "int \<Rightarrow> int \<Rightarrow> int \<Rightarrow> int" where
  "date_days y m d = days_from_civil (y + (m - 1) div 12) ((m - 1) mod 12 + 1) d"

definition go_Date :: "int \<Rightarrow> int \<Rightarrow> int \<Rightarrow> gotime" where
  "go_Date y m d = midnight (date_days y m d)"

definition AddDate :: "gotime \<Rightarrow> int \<Rightarrow> int \<Rightarrow> int \<Rightarrow> gotime" where
  "AddDate t dy dm dd =
     (case civil_from_days (day_number t) of
        (y, m, d) \<Rightarrow> go_Date (y + dy) (m + dm) (d + dd) + t mod ns_per_day)"

text \<open>The expression \<open>time.Date(t.Year(), t.Month(), t.Day(), 0, 0, 0, 0, time.UTC)\<close>.\<close>

definition blockDay :: "gotime \<Rightarrow> gotime" where
  "blockDay t = (case civil_from_days (day_number t) of (y, m, d) \<Rightarrow> go_Date y m d)"

definition Truncate_day :: "gotime \<Rightarrow> gotime" where
  "Truncate_day t = t - t mod ns_per_day"

definition Unix :: "gotime \<Rightarrow> int" where
  "Unix t = t div 1000000000"

definition from_Unix :: "int \<Rightarrow> gotime" where
  "from_Unix s = s * 1000000000"

lemma ns_per_day_pos [simp]: "0 < ns_per_day" "ns_per_day \<noteq> 0"
  by (simp_all add: ns_per_day_def)

lemma day_number_midnight [simp]: "day_number (midnight n) = n"
  by (simp add: day_number_def midnight_def)

lemma midnight_mod [simp]: "midnight n mod ns_per_day = 0"
  by (simp add: midnight_def)

lemma midnight_less [simp]: "midnight a < midnight b \<longleftrightarrow> a < b"
  by (simp add: midnight_def)

lemma midnight_le [simp]: "midnight a \<le> midnight b \<longleftrightarrow> a \<le> b"
  by (simp add: midnight_def)

lemma midnight_eq [simp]: "midnight a = midnight b \<longleftrightarrow> a = b"
  by (simp add: midnight_def)

lemma date_days_valid [simp]: "1 \<le> m \<Longrightarrow> m \<le> 12 \<Longrightarrow> date_days y m d = days_from_civil y m d"
  by (simp add: date_days_def)

lemma date_days_add_day: "date_days y m (d + k) = date_days y m d + k"
  by (simp add: date_days_def days_from_civil_def)

text \<open>Advancing by a month advances by the length of a month.\<close>

lemma date_days_Suc_month:
  "date_days y m d + 28 \<le> date_days y (m + 1) d" "date_days y (m + 1) d \<le> date_days y m d + 31"
proof -
  define Y r where "Y = y + (m - 1) div 12" and "r = (m - 1) mod 12"
  have r: "0 \<le> r" "r < 12" by (simp_all add: r_def)
  have qr: "m - 1 = 12 * ((m - 1) div 12) + r" by (simp add: r_def)
  have before: "date_days y m d = days_before_year Y + days_before_month Y (r + 1) + d - 1 - 719162"
    by (simp add: date_days_def days_from_civil_def Y_def r_def)
  have after: "date_days y (m + 1) d = days_before_year Y + days_before_month Y (r + 2) + d - 1 - 719162"
  proof (cases "r = 11")
    case True
    with qr have m: "m = 12 * ((m - 1) div 12 + 1)" by simp
    then have "m div 12 = (m - 1) div 12 + 1" "m mod 12 = 0"
      by (metis nonzero_mult_div_cancel_left zero_neq_numeral, metis mod_mult_self1_is_0)
    with True days_before_year_Suc [of Y] show ?thesis
      by (simp add: date_days_def days_from_civil_def Y_def add.assoc)
  next
    case False
    with r qr have m: "m = 12 * ((m - 1) div 12) + (r + 1)" and r1: "0 \<le> r + 1" "r + 1 < 12" by simp_all
    have "m div 12 = (m - 1) div 12" "m mod 12 = r + 1"
      using int_div_pos_eq [OF m r1] int_mod_pos_eq [OF m r1] by simp_all
    then show ?thesis by (simp add: date_days_def days_from_civil_def Y_def add.assoc)
  qed
  have "28 \<le> days_in_month Y (r + 1)" "days_in_month Y (r + 1) \<le> 31"
    using r by (intro days_before_month_le; simp)+
  then show "date_days y m d + 28 \<le> date_days y (m + 1) d" "date_days y (m + 1) d \<le> date_days y m d + 31"
    unfolding before after by (simp_all add: days_in_month_def add.assoc)
qed

lemma date_days_add_months:
  "date_days y m d + 28 * int k \<le> date_days y (m + int k) d \<and>
   date_days y (m + int k) d \<le> date_days y m d + 31 * int k"
proof (induction k)
  case 0
  then show ?case by simp
next
  case (Suc k)
  then show ?case
    using date_days_Suc_month [of y "m + int k" d] by (simp add: algebra_simps)
qed

lemma blockDay_eq: "blockDay t = midnight (day_number t)"
proof -
  obtain y m d where ymd: "civil_from_days (day_number t) = (y, m, d)"
    by (cases "civil_from_days (day_number t)") auto
  from civil_from_days_valid [OF ymd] show ?thesis
    by (simp add: blockDay_def ymd go_Date_def valid_civil_def)
qed

lemma Truncate_day_eq: "Truncate_day t = midnight (day_number t)"
  by (simp add: Truncate_day_def midnight_def day_number_def minus_mod_eq_div_mult)

lemma day_number_le: "midnight (day_number t) \<le> t"
  using div_bounds [of ns_per_day t] by (simp add: midnight_def day_number_def mult.commute)

lemma Unix_midnight: "Unix (midnight n) = n * 86400"
  by (simp add: Unix_def midnight_def ns_per_day_def)

lemma Unix_from_Unix [simp]: "Unix (from_Unix s) = s"
  by (simp add: Unix_def from_Unix_def)

lemma from_Unix_midnight: "from_Unix (n * 86400) = midnight n"
  by (simp add: from_Unix_def midnight_def ns_per_day_def)

section \<open>Decimal digits\<close>

definition is_digit :: "char \<Rightarrow> bool" where
  "is_digit c \<longleftrightarrow> 48 \<le> byte_val c \<and> byte_val c \<le> 57"

definition dval :: "char \<Rightarrow> int" where
  "dval c = int (byte_val c) - 48"

definition digit_char :: "int \<Rightarrow> char" where
  "digit_char n = char_of (48 + nat n)"

definition num :: "string \<Rightarrow> int" where
  "num s = foldl (\<lambda>a c. 10 * a + dval c) 0 s"

fun fixed_digits :: "nat \<Rightarrow> int \<Rightarrow> string" where
  "fixed_digits 0 x = []"
| "fixed_digits (Suc w) x = fixed_digits w (x div 10) @ [digit_char (x mod 10)]"

function ndigits :: "int \<Rightarrow> nat" where
  "ndigits x = (if x < 10 then 1 else Suc (ndigits (x div 10)))"
  by pat_completeness auto
termination
  by (relation "measure nat") auto

declare ndigits.simps [simp del]

text \<open>\<open>appendInt\<close> of the \<open>time\<close> package: sign, zero padding to the width, digits.\<close>

definition append_int :: "int \<Rightarrow> nat \<Rightarrow> string" where
  "append_int x w =
     (if x < 0 then ''-'' else []) @ fixed_digits (max w (ndigits \<bar>x\<bar>)) \<bar>x\<bar>"

lemma num_Nil [simp]: "num [] = 0"
  by (simp add: num_def)

lemma num_snoc [simp]: "num (s @ [c]) = 10 * num s + dval c"
  by (simp add: num_def)

lemma digit_char_props:
  assumes "0 \<le> n" "n < 10"
  shows "is_digit (digit_char n)" "dval (digit_char n) = n"
proof -
  have "48 + nat n < 256" using assms by simp
  then have "byte_val (digit_char n) = 48 + nat n"
    by (simp add: digit_char_def)
  with assms show "is_digit (digit_char n)" "dval (digit_char n) = n"
    by (simp_all add: is_digit_def dval_def)
qed

lemma dval_range: "is_digit c \<Longrightarrow> 0 \<le> dval c \<and> dval c < 10"
  by (auto simp: is_digit_def dval_def)

lemma digit_char_dval: "is_digit c \<Longrightarrow> digit_char (dval c) = c"
  by (simp add: is_digit_def dval_def digit_char_def nat_diff_distrib)

lemma length_fixed_digits [simp]: "length (fixed_digits w x) = w"
  by (induction w arbitrary: x) auto

lemma fixed_digits_digits: "list_all is_digit (fixed_digits w x)"
  by (induction w arbitrary: x) (auto simp: digit_char_props)

lemma num_fixed_digits: "0 \<le> x \<Longrightarrow> x < 10 ^ w \<Longrightarrow> num (fixed_digits w x) = x"
proof (induction w arbitrary: x)
  case 0
  then show ?case by simp
next
  case (Suc w)
  then have "0 \<le> x div 10" "x div 10 < 10 ^ w" by simp_all
  then have "num (fixed_digits w (x div 10)) = x div 10" by (rule Suc.IH)
  then show ?case by (simp add: digit_char_props)
qed

lemma num_range: "list_all is_digit s \<Longrightarrow> 0 \<le> num s \<and> num s < 10 ^ length s"
proof (induction s rule: rev_induct)
  case Nil
  then show ?case by simp
next
  case (snoc c s)
  then show ?case using dval_range [of c] by simp
qed

lemma fixed_digits_num: "list_all is_digit s \<Longrightarrow> fixed_digits (length s) (num s) = s"
proof (induction s rule: rev_induct)
  case Nil
  then show ?case by simp
next
  case (snoc c s)
  then have c: "0 \<le> dval c" "dval c < 10" and dig: "digit_char (dval c) = c"
    by (simp_all add: dval_range digit_char_dval)
  then have "(10 * num s + dval c) div 10 = num s" "(10 * num s + dval c) mod 10 = dval c"
    by simp_all
  with snoc dig show ?case by simp
qed

lemma ndigits_le: "0 \<le> x \<Longrightarrow> x < 10 ^ w \<Longrightarrow> 1 \<le> w \<Longrightarrow> ndigits x \<le> w"
proof (induction w arbitrary: x)
  case 0
  then show ?case by simp
next
  case (Suc w)
  show ?case
  proof (cases "x < 10")
    case True
    then show ?thesis by (simp add: ndigits.simps)
  next
    case False
    with Suc.prems have w: "1 \<le> w" by (cases w) auto
    have "ndigits (x div 10) \<le> w"
      using Suc.prems w by (intro Suc.IH) auto
    with False show ?thesis by (simp add: ndigits.simps [of x])
  qed
qed

lemma append_int_fixed:
  assumes "0 \<le> x" "x < 10 ^ w" "1 \<le> w"
  shows "append_int x w = fixed_digits w x"
  using assms ndigits_le [OF assms] by (simp add: append_int_def max_absorb1)

section \<open>The layout \<open>2006-01-02\<close>\<close>

text \<open>
  \<open>time.Parse(time.DateOnly, s)\<close>: four digits, a dash, two digits, a dash, two digits and
  nothing more; the month must be 1 to 12 and the day must exist in that month.
\<close>

definition Parse_DateOnly :: "string \<Rightarrow> gotime res" where
  "Parse_DateOnly s =
     (let y = take 4 s; m = take 2 (drop 5 s); d = take 2 (drop 8 s)
      in if length s = 10 \<and> list_all is_digit y \<and> s ! 4 = CHR ''-'' \<and> list_all is_digit m
           \<and> s ! 7 = CHR ''-'' \<and> list_all is_digit d \<and> valid_civil (num y) (num m) (num d)
         then Inr (go_Date (num y) (num m) (num d))
         else Inl (FmtError ''parsing time''))"

definition format_civil :: "int \<Rightarrow> int \<Rightarrow> int \<Rightarrow> string" where
  "format_civil y m d = append_int y 4 @ ''-'' @ append_int m 2 @ ''-'' @ append_int d 2"

definition Format_DateOnly :: "gotime \<Rightarrow> string" where
  "Format_DateOnly t =
     (case civil_from_days (day_number t) of (y, m, d) \<Rightarrow> format_civil y m d)"

lemma valid_civil_range: "valid_civil y m d \<Longrightarrow> 1 \<le> m \<and> m \<le> 12 \<and> 1 \<le> d \<and> d \<le> 31"
  using days_before_month_le(4) [of m y] by (auto simp: valid_civil_def)

lemma format_civil_fixed:
  assumes "valid_civil y m d" "0 \<le> y" "y \<le> 9999"
  shows "format_civil y m d =
    fixed_digits 4 y @ ''-'' @ fixed_digits 2 m @ ''-'' @ fixed_digits 2 d"
  using valid_civil_range [OF assms(1)] assms(2,3)
  by (simp add: format_civil_def append_int_fixed)

lemma Parse_format_civil:
  assumes "valid_civil y m d" "0 \<le> y" "y \<le> 9999"
  shows "Parse_DateOnly (format_civil y m d) = Inr (go_Date y m d)"
proof -
  let ?Y = "fixed_digits 4 y" and ?M = "fixed_digits 2 m" and ?D = "fixed_digits 2 d"
  let ?s = "?Y @ ''-'' @ ?M @ ''-'' @ ?D"
  have nums: "num ?Y = y" "num ?M = m" "num ?D = d"
    using valid_civil_range [OF assms(1)] assms(2,3) by (simp_all add: num_fixed_digits)
  have parts: "length ?s = 10" "take 4 ?s = ?Y" "take 2 (drop 5 ?s) = ?M" "take 2 (drop 8 ?s) = ?D"
    "?s ! 4 = CHR ''-''" "?s ! 7 = CHR ''-''"
    by (simp_all add: nth_append del: fixed_digits.simps)
  show ?thesis
    unfolding format_civil_fixed [OF assms] Parse_DateOnly_def Let_def parts nums
    using assms(1) by (simp add: fixed_digits_digits del: fixed_digits.simps)
qed

lemma Parse_DateOnlyE:
  assumes "Parse_DateOnly s = Inr t"
  obtains y m d where "valid_civil y m d" "0 \<le> y" "y \<le> 9999"
    "s = format_civil y m d" "t = go_Date y m d"
proof -
  let ?Y = "take 4 s" and ?M = "take 2 (drop 5 s)" and ?D = "take 2 (drop 8 s)"
  from assms have len: "length s = 10" and Y: "list_all is_digit ?Y" and M: "list_all is_digit ?M"
    and D: "list_all is_digit ?D" and dash: "s ! 4 = CHR ''-''" "s ! 7 = CHR ''-''"
    and v: "valid_civil (num ?Y) (num ?M) (num ?D)"
    and t: "t = go_Date (num ?Y) (num ?M) (num ?D)"
    by (auto simp: Parse_DateOnly_def Let_def split: if_splits)
  have y: "0 \<le> num ?Y" "num ?Y \<le> 9999"
    using num_range [OF Y] len by simp_all
  have "s = ?Y @ drop 4 s" by simp
  also have "drop 4 s = CHR ''-'' # drop 5 s"
    using len dash(1) Cons_nth_drop_Suc [of 4 s] by simp
  also have "drop 5 s = ?M @ drop 7 s"
    using append_take_drop_id [of 2 "drop 5 s"] by simp
  also have "drop 7 s = CHR ''-'' # drop 8 s"
    using len dash(2) Cons_nth_drop_Suc [of 7 s] by simp
  also have "drop 8 s = ?D" using len by simp
  finally have s: "s = ?Y @ ''-'' @ ?M @ ''-'' @ ?D" by simp
  have "fixed_digits 4 (num ?Y) = ?Y" "fixed_digits 2 (num ?M) = ?M" "fixed_digits 2 (num ?D) = ?D"
    using fixed_digits_num [OF Y] fixed_digits_num [OF M] fixed_digits_num [OF D] len by simp_all
  then have "s = format_civil (num ?Y) (num ?M) (num ?D)"
    using s format_civil_fixed [OF v y] by simp
  with v y t that show thesis by blast
qed

text \<open>The parsed instants are midnights, and printing one gives back the string.\<close>

lemma Parse_DateOnly_midnight:
  assumes "Parse_DateOnly s = Inr t"
  shows "t = midnight (day_number t)"
  using assms by (auto elim!: Parse_DateOnlyE simp: go_Date_def)

lemma Format_go_Date: "valid_civil y m d \<Longrightarrow> Format_DateOnly (go_Date y m d) = format_civil y m d"
  by (simp add: Format_DateOnly_def go_Date_def valid_civil_def civil_from_days_from_civil)

lemma Format_Parse: "Parse_DateOnly s = Inr t \<Longrightarrow> Format_DateOnly t = s"
  by (auto elim!: Parse_DateOnlyE simp: Format_go_Date)

lemma Parse_DateOnly_inj: "Parse_DateOnly s = Inr t \<Longrightarrow> Parse_DateOnly s' = Inr t \<Longrightarrow> s = s'"
  using Format_Parse by metis

lemma Parse_DateOnly_day_bounds:
  assumes "Parse_DateOnly s = Inr t"
  shows "- 719528 \<le> day_number t" "day_number t \<le> 2932896"
proof -
  from assms obtain y m d where v: "valid_civil y m d" "0 \<le> y" "y \<le> 9999" "t = go_Date y m d"
    by (auto elim!: Parse_DateOnlyE)
  have n: "day_number t = days_from_civil y m d"
    using v(1,4) by (simp add: go_Date_def valid_civil_def)
  have lo: "valid_civil 0 1 1" and hi: "valid_civil 9999 12 31"
    by (simp_all add: valid_civil_def days_in_month_def leap_day_def is_leap_def)
  have "\<not> days_from_civil y m d < days_from_civil 0 1 1"
    using v(2) valid_civil_range [OF v(1)] by (simp add: days_from_civil_less [OF v(1) lo])
  moreover have "\<not> days_from_civil 9999 12 31 < days_from_civil y m d"
    using v(3) valid_civil_range [OF v(1)] by (simp add: days_from_civil_less [OF hi v(1)])
  ultimately show "- 719528 \<le> day_number t" "day_number t \<le> 2932896"
    by (simp_all add: n days_from_civil_def days_before_year_def leaps_through_def leap_day_def
        is_leap_def)
qed

text \<open>Printing a day of the years 0 to 9999 and parsing it again gives the day's midnight.\<close>

lemma Parse_Format:
  assumes "- 719528 \<le> day_number t" "day_number t \<le> 2932896"
  shows "Parse_DateOnly (Format_DateOnly t) = Inr (midnight (day_number t))"
proof -
  obtain y m d where ymd: "civil_from_days (day_number t) = (y, m, d)"
    by (cases "civil_from_days (day_number t)") auto
  note v = civil_from_days_valid [OF ymd]
  have lo: "valid_civil 0 1 1" and hi: "valid_civil 9999 12 31"
    by (simp_all add: valid_civil_def days_in_month_def leap_day_def is_leap_def)
  have "\<not> days_from_civil y m d < days_from_civil 0 1 1"
    using assms(1) v(2) by (simp add: days_from_civil_def [of 0] days_before_year_def
        leaps_through_def leap_day_def is_leap_def)
  then have "0 \<le> y" by (simp add: days_from_civil_less [OF v(1) lo])
  moreover have "\<not> days_from_civil 9999 12 31 < days_from_civil y m d"
    using assms(2) v(2) by (simp add: days_from_civil_def [of 9999] days_before_year_def
        leaps_through_def leap_day_def is_leap_def)
  then have "y \<le> 9999" by (simp add: days_from_civil_less [OF hi v(1)])
  ultimately show ?thesis
    using Parse_format_civil [OF v(1)] v
    by (simp add: Format_DateOnly_def ymd go_Date_def valid_civil_def)
qed

section \<open>Date strings are ordered as dates\<close>

lemma lex_append:
  fixes xs ys us vs :: "'a::linorder list"
  assumes "length xs = length ys"
  shows "xs @ us < ys @ vs \<longleftrightarrow> xs < ys \<or> xs = ys \<and> us < vs"
  using assms by (induction xs ys rule: list_induct2) auto

lemma dval_less: "dval a < dval b \<longleftrightarrow> a < b"
  by (simp add: dval_def less_char_def)

lemma digits_less_num:
  assumes "length s = length t" "list_all is_digit s" "list_all is_digit t"
  shows "s < t \<longleftrightarrow> num s < num t"
  using assms
proof (induction s arbitrary: t rule: rev_induct)
  case Nil
  then show ?case by simp
next
  case (snoc a s)
  then obtain u b where t: "t = u @ [b]" by (cases t rule: rev_cases) auto
  with snoc.prems have len: "length s = length u" and dig: "list_all is_digit s" "list_all is_digit u"
    and ab: "0 \<le> dval a" "dval a < 10" "0 \<le> dval b" "dval b < 10"
    using dval_range by auto
  have IH: "s < u \<longleftrightarrow> num s < num u" using len dig by (rule snoc.IH)
  have eq: "s = u \<longleftrightarrow> num s = num u"
    using fixed_digits_num [OF dig(1)] fixed_digits_num [OF dig(2)] len by metis
  have "s @ [a] < u @ [b] \<longleftrightarrow> s < u \<or> s = u \<and> a < b"
    by (simp add: lex_append [OF len])
  also have "\<dots> \<longleftrightarrow> num s < num u \<or> num s = num u \<and> dval a < dval b"
    by (simp add: IH eq dval_less)
  also have "\<dots> \<longleftrightarrow> num (s @ [a]) < num (t)"
    using ab t by auto
  finally show ?case by (simp add: t)
qed

lemma format_civil_less:
  assumes "valid_civil y m d" "0 \<le> y" "y \<le> 9999"
    and "valid_civil y' m' d'" "0 \<le> y'" "y' \<le> 9999"
  shows "format_civil y m d < format_civil y' m' d' \<longleftrightarrow>
    days_from_civil y m d < days_from_civil y' m' d'"
proof -
  have r: "0 \<le> m" "m < 100" "0 \<le> d" "d < 100" "0 \<le> m'" "m' < 100" "0 \<le> d'" "d' < 100"
    using valid_civil_range [OF assms(1)] valid_civil_range [OF assms(4)] by auto
  have less: "fixed_digits w a < fixed_digits w b \<longleftrightarrow> a < b"
    and eq: "fixed_digits w a = fixed_digits w b \<longleftrightarrow> a = b"
    if "0 \<le> a" "a < 10 ^ w" "0 \<le> b" "b < 10 ^ w" for w a b
    using that digits_less_num [of "fixed_digits w a" "fixed_digits w b"] num_fixed_digits
    by (simp_all add: fixed_digits_digits) metis
  show ?thesis
    unfolding format_civil_fixed [OF assms(1-3)] format_civil_fixed [OF assms(4-6)]
      days_from_civil_less [OF assms(1,4)]
    using r assms by (simp add: lex_append less eq del: fixed_digits.simps)
qed

lemma Parse_DateOnly_less:
  assumes "Parse_DateOnly s = Inr t" "Parse_DateOnly s' = Inr t'"
  shows "s < s' \<longleftrightarrow> t < t'"
proof -
  from assms obtain y m d y' m' d' where
    "valid_civil y m d" "0 \<le> y" "y \<le> 9999" "s = format_civil y m d" "t = go_Date y m d"
    "valid_civil y' m' d'" "0 \<le> y'" "y' \<le> 9999" "s' = format_civil y' m' d'" "t' = go_Date y' m' d'"
    by (metis Parse_DateOnlyE)
  then show ?thesis
    by (simp add: format_civil_less go_Date_def valid_civil_def)
qed

end
