(* ===== verification/Proto_Wire.thy ===== *)
theory Proto_Wire
  imports Prelude
begin

text \<open>
  The protobuf wire format as the generated gogoproto code reads and writes it: varints, the
  backward writes into a buffer of exactly the right size, the skipping of unknown fields and
  the field loop of every generated \<open>Unmarshal\<close>. The generated code of one message differs from
  another only in its table of known fields, which is the parameter \<open>h\<close> of \<open>pb_loop\<close>. The lemmas
  show that the size computation is exact, that reading undoes writing, and that the loop
  consumes at least one byte per field, so it ends on every input.
\<close>

section \<open>Writing\<close>

text \<open>\<open>math_bits.Len64\<close> and \<open>sov...\<close>, the encoded length of a varint.\<close>

function bit_len :: "nat \<Rightarrow> nat" where
  "bit_len n = (if n = 0 then 0 else Suc (bit_len (n div 2)))"
  by pat_completeness auto
termination by (relation "measure id") auto

declare bit_len.simps [simp del]

definition sov :: "64 word \<Rightarrow> nat" where
  "sov x = (bit_len (unat (x OR 1)) + 6) div 7"

lemma unat_drop_7: "unat (drop_bit 7 (v :: 64 word)) = unat v div 128"
  by (subst unat_drop_bit_eq) (simp add: drop_bit_eq_div)

text \<open>The bytes the loop of \<open>encodeVarint...\<close> emits.\<close>

function varint :: "64 word \<Rightarrow> bytes" where
  "varint v = (if unat v < 128 then [char_of (unat v)]
               else char_of (unat v mod 128 + 128) # varint (drop_bit 7 v))"
  by pat_completeness auto
termination
  by (relation "measure unat") (auto simp: unat_drop_7)

declare varint.simps [simp del]

text \<open>The same loop on binary numerals, for evaluation.\<close>

lemma varint_code [code]:
  "varint v = (if v < 128 then [char_of (uint v)]
     else char_of (uint v mod 128 + 128) # varint (drop_bit 7 v))"
proof -
  have c: "char_of (int n) = (char_of n :: char)" for n by (simp add: char_of_def bit_simps)
  have "uint v mod 128 + 128 = int (unat v mod 128 + 128)" by (simp add: zmod_int)
  then have "char_of (uint v) = (char_of (unat v) :: char)"
    "char_of (uint v mod 128 + 128) = (char_of (unat v mod 128 + 128) :: char)"
    using c [of "unat v"] c [of "unat v mod 128 + 128"] by (simp_all only: of_nat_unat)
  then show ?thesis by (subst varint.simps) (simp add: word_less_nat_alt)
qed

text \<open>A write of \<open>bs\<close> at index \<open>i\<close> of the buffer; an index outside it panics.\<close>

definition put_at :: "bytes \<Rightarrow> int \<Rightarrow> bytes \<Rightarrow> bytes res" where
  "put_at buf i bs =
     (if 0 \<le> i \<and> i + int (length bs) \<le> int (length buf)
      then Inr (take (nat i) buf @ bs @ drop (nat i + length bs) buf)
      else Inl (GoPanic ''index out of range''))"

definition encodeVarint :: "bytes \<Rightarrow> int \<Rightarrow> 64 word \<Rightarrow> (bytes \<times> int) res" where
  "encodeVarint buf offset v =
     (let base = offset - int (sov v) in bnd (put_at buf base (varint v)) (\<lambda>b. Inr (b, base)))"

lemma bit_len_less: "n < 2 ^ bit_len n"
proof (induction n rule: bit_len.induct)
  case (1 n)
  then show ?case by (cases "n = 0") (auto simp: bit_len.simps [of n])
qed

lemma bit_len_le: "n < 2 ^ k \<Longrightarrow> bit_len n \<le> k"
proof (induction n arbitrary: k rule: bit_len.induct)
  case (1 n)
  show ?case
  proof (cases "n = 0")
    case True
    then show ?thesis by (simp add: bit_len.simps)
  next
    case False
    with "1.prems" obtain j where k: "k = Suc j" by (cases k) auto
    have "n div 2 < 2 ^ j" using "1.prems" k by simp
    then have "bit_len (n div 2) \<le> j" using "1.IH" [OF False] by blast
    with False k show ?thesis by (simp add: bit_len.simps [of n])
  qed
qed

lemma bit_len_div:
  assumes "128 \<le> n"
  shows "bit_len n = bit_len (n div 128) + 7"
proof -
  have half: "bit_len k = Suc (bit_len (k div 2))" if "1 \<le> k" for k
    using that by (simp add: bit_len.simps [of k])
  have d: "n div 2 div 2 = n div 4" "n div 4 div 2 = n div 8" "n div 8 div 2 = n div 16"
    "n div 16 div 2 = n div 32" "n div 32 div 2 = n div 64" "n div 64 div 2 = n div 128"
    by (simp_all add: div_mult2_eq [symmetric])
  have "1 \<le> n div 2" "1 \<le> n div 4" "1 \<le> n div 8" "1 \<le> n div 16" "1 \<le> n div 32" "1 \<le> n div 64"
    using assms by (simp_all add: Suc_le_eq div_greater_zero_iff)
  then show ?thesis
    using half [of n] half [of "n div 2"] half [of "n div 4"] half [of "n div 8"]
      half [of "n div 16"] half [of "n div 32"] half [of "n div 64"] assms d
    by simp
qed

lemma unat_or_1: "unat (v OR 1) = (if even (unat v) then unat v + 1 else unat (v :: 64 word))"
  using or_one_eq [of "unat v"] by (simp add: unsigned_or_eq)

lemma length_varint: "length (varint v) = sov v"
proof (induction v rule: varint.induct)
  case (1 v)
  show ?case
  proof (cases "unat v < 128")
    case True
    have "1 \<le> unat (v OR 1)" "unat (v OR 1) < 2 ^ 7"
      using True by (auto simp: unat_or_1 odd_pos Suc_le_eq)
    then have "bit_len (unat (v OR 1)) \<le> 7" "0 < bit_len (unat (v OR 1))"
      using bit_len_le [of "unat (v OR 1)" 7] by (auto simp: bit_len.simps [of "unat (v OR 1)"])
    then show ?thesis using True by (simp add: varint.simps sov_def)
  next
    case False
    have "unat (v OR 1) div 128 = unat v div 128"
      unfolding unat_or_1 by (auto; presburger)
    moreover have "bit_len (unat (drop_bit 7 v OR 1)) = bit_len (unat v div 128)"
    proof -
      have "bit_len (n + 1) = bit_len n" if "even n" "0 < n" for n
        using that by (simp add: bit_len.simps [of "Suc n"] bit_len.simps [of n])
      then show ?thesis
        using False by (simp add: unat_or_1 unat_drop_7)
    qed
    moreover have "128 \<le> unat (v OR 1)" using False by (simp add: unat_or_1)
    ultimately have "sov v = Suc (sov (drop_bit 7 v))"
      by (simp add: sov_def bit_len_div [of "unat (v OR 1)"])
    with False "1.IH" show ?thesis by (simp add: varint.simps [of v])
  qed
qed

lemma sov_pos: "0 < sov v"
  by (subst length_varint [symmetric]) (simp add: varint.simps)

text \<open>A write that ends where the written suffix starts extends the suffix.\<close>

lemma put_at_back:
  assumes "length p = length bs + k"
  shows "put_at (p @ q) (int k) bs = Inr (take k p @ bs @ q)"
  using assms by (simp add: put_at_def)

lemma encodeVarint_back:
  assumes "length p = sov v + k"
  shows "encodeVarint (p @ q) (int (length p)) v = Inr (take k p @ varint v @ q, int k)"
  using assms put_at_back [of p "varint v" k q]
  by (simp add: encodeVarint_def length_varint Let_def)

section \<open>Reading\<close>

abbreviation ErrIntOverflow :: go_err where
  "ErrIntOverflow \<equiv> FmtError ''proto: integer overflow''"

abbreviation ErrInvalidLength :: go_err where
  "ErrInvalidLength \<equiv> FmtError ''proto: negative length found during unmarshaling''"

text \<open>The inlined varint loop of the generated code.\<close>

function rd_varint :: "bytes \<Rightarrow> int \<Rightarrow> nat \<Rightarrow> 64 word \<Rightarrow> (64 word \<times> int) res" where
  "rd_varint dAtA i shift acc =
     (if 64 \<le> shift then Inl ErrIntOverflow
      else if int (length dAtA) \<le> i then Inl ErrUnexpectedEOF
      else let b = byte_val (dAtA ! nat i); acc' = acc OR push_bit shift (of_nat (b mod 128))
           in if b < 128 then Inr (acc', i + 1) else rd_varint dAtA (i + 1) (shift + 7) acc')"
  by pat_completeness auto
termination by (relation "measure (\<lambda>(d, i, s, a). 64 - s)") auto

declare rd_varint.simps [simp del]

lemma rd_varint_progress:
  "rd_varint dAtA i shift acc = Inr (w, j) \<Longrightarrow> i < j \<and> j \<le> max (int (length dAtA)) i"
proof (induction dAtA i shift acc rule: rd_varint.induct)
  case (1 dAtA i shift acc)
  show ?case
    using "1.prems" "1.IH"
    by (subst (asm) rd_varint.simps) (fastforce simp: Let_def split: if_splits)
qed

lemma word_split_7: "take_bit 7 v OR push_bit 7 (drop_bit 7 v) = (v :: 64 word)"
proof (rule bit_eqI)
  fix n
  show "bit (take_bit 7 v OR push_bit 7 (drop_bit 7 v)) n = bit v n"
    using bit_imp_le_length [of v n] by (cases "n < 7") (auto simp: bit_simps)
qed

lemma low_bits_7: "(of_nat (unat v mod 128) :: 64 word) = take_bit 7 v"
proof -
  have "unat (take_bit 7 v) = unat v mod 128"
    by (subst unsigned_take_bit_eq) (simp add: take_bit_eq_mod)
  then have "(of_nat (unat v mod 128) :: 64 word) = of_nat (unat (take_bit 7 v))"
    by (simp only:)
  then show ?thesis by simp
qed

text \<open>A value of more than seven bits leaves room for the shift of the next byte.\<close>

lemma room_for_next:
  assumes "\<not> unat v < 128" and "unat (v :: 64 word) < 2 ^ (64 - shift)"
  shows "shift + 7 < 64" and "unat (drop_bit 7 v) < 2 ^ (64 - (shift + 7))"
proof -
  show shift: "shift + 7 < 64"
  proof (rule ccontr)
    assume "\<not> shift + 7 < 64"
    then have "(2::nat) ^ (64 - shift) \<le> 2 ^ 7" by (intro power_increasing) auto
    with assms show False by simp
  qed
  then have "64 - shift = (64 - (shift + 7)) + 7" by simp
  then have "(2::nat) ^ (64 - shift) = 2 ^ (64 - (shift + 7)) * 128"
    by (simp only: power_add) simp
  then show "unat (drop_bit 7 v) < 2 ^ (64 - (shift + 7))"
    using assms(2) by (simp add: unat_drop_7 less_mult_imp_div_less)
qed

lemma rd_varint_encoded:
  assumes "unat v < 2 ^ (64 - shift)" "shift < 64"
  shows "rd_varint (p @ varint v @ q) (int (length p)) shift acc =
    Inr (acc OR push_bit shift v, int (length p) + int (sov v))"
  using assms
proof (induction v arbitrary: p shift acc rule: varint.induct)
  case (1 v)
  show ?case
  proof (cases "unat v < 128")
    case True
    then have "varint v = [char_of (unat v)]" and "sov v = 1"
      using length_varint [of v] by (simp_all add: varint.simps)
    with True "1.prems" show ?thesis
      by (subst rd_varint.simps) (simp add: Let_def nth_append)
  next
    case False
    let ?w = "drop_bit 7 v" and ?b = "char_of (unat v mod 128 + 128)"
    note room = room_for_next [OF False "1.prems"(1)]
    have bytes: "varint v = ?b # varint ?w"
      using False by (simp add: varint.simps [of v])
    have IH: "rd_varint ((p @ [?b]) @ varint ?w @ q) (int (length (p @ [?b]))) (shift + 7) a =
      Inr (a OR push_bit (shift + 7) ?w, int (length (p @ [?b])) + int (sov ?w))" for a
      using False room(2,1) by (rule "1.IH")
    have "rd_varint (p @ varint v @ q) (int (length p)) shift acc =
      rd_varint (p @ varint v @ q) (int (length p) + 1) (shift + 7)
        (acc OR push_bit shift (take_bit 7 v))"
      using room(1) low_bits_7 [of v] by (subst rd_varint.simps) (simp add: bytes Let_def nth_append)
    also have "\<dots> = Inr ((acc OR push_bit shift (take_bit 7 v)) OR push_bit (shift + 7) ?w,
        int (length p) + 1 + int (sov ?w))"
      using IH [of "acc OR push_bit shift (take_bit 7 v)"]
      by (simp add: bytes add.commute [of "1::int"])
    also have "push_bit (shift + 7) ?w = push_bit shift (push_bit 7 ?w)"
      by (simp add: add.commute)
    also have "(acc OR push_bit shift (take_bit 7 v)) OR push_bit shift (push_bit 7 ?w) =
        acc OR push_bit shift v"
      by (simp only: or.assoc push_bit_or [symmetric] word_split_7)
    also have "int (length p) + 1 + int (sov ?w) = int (length p) + int (sov v)"
      using length_varint [of v] length_varint [of ?w] by (simp add: bytes)
    finally show ?thesis .
  qed
qed

corollary rd_varint_varint:
  "rd_varint (p @ varint v @ q) (int (length p)) 0 0 = Inr (v, int (length p) + int (sov v))"
  using rd_varint_encoded [of v 0 p q 0] unsigned_less [of v, where ?'a = nat] by simp

text \<open>
  A sum of an index and a length is negative in Go exactly when it overflows; every generated
  caller turns that into \<open>ErrInvalidLength\<close>.
\<close>

definition add_index :: "int \<Rightarrow> int \<Rightarrow> int res" where
  "add_index i n = (if i + n < 2 ^ 63 then Inr (i + n) else Inl ErrInvalidLength)"

lemma add_index_code [code]:
  "add_index i n = (if i + n < 9223372036854775808 then Inr (i + n) else Inl ErrInvalidLength)"
  by (simp add: add_index_def)

text \<open>A length prefix at \<open>i\<close>: the bounds of the bytes it announces.\<close>

definition rd_len :: "bytes \<Rightarrow> int \<Rightarrow> (int \<times> int) res" where
  "rd_len dAtA i =
     bnd (rd_varint dAtA i 0 0) (\<lambda>(w, j).
       let n = sint w
       in bnd (require (0 \<le> n) ErrInvalidLength) (\<lambda>_.
          bnd (add_index j n) (\<lambda>post.
          bnd (require (post \<le> int (length dAtA)) ErrUnexpectedEOF) (\<lambda>_.
          Inr (j, post)))))"

definition sub_bytes :: "bytes \<Rightarrow> int \<Rightarrow> int \<Rightarrow> bytes" where
  "sub_bytes dAtA a b = take (nat (b - a)) (drop (nat a) dAtA)"

text \<open>One field of \<open>skip...\<close>: the position and the group depth after it.\<close>

definition skip_field :: "bytes \<Rightarrow> int \<Rightarrow> nat \<Rightarrow> (int \<times> nat) res" where
  "skip_field dAtA i depth =
     bnd (rd_varint dAtA i 0 0) (\<lambda>(wire, j).
       let wireType = unat (wire AND 7)
       in if wireType = 0 then bnd (rd_varint dAtA j 0 0) (\<lambda>(_, k). Inr (k, depth))
          else if wireType = 1 then bnd (add_index j 8) (\<lambda>k. Inr (k, depth))
          else if wireType = 2 then
            bnd (rd_varint dAtA j 0 0) (\<lambda>(w, k).
            bnd (require (0 \<le> sint w) ErrInvalidLength) (\<lambda>_.
            bnd (add_index k (sint w)) (\<lambda>e. Inr (e, depth))))
          else if wireType = 3 then Inr (j, depth + 1)
          else if wireType = 4 then
            (if depth = 0 then Inl (FmtError ''proto: unexpected end of group'')
             else Inr (j, depth - 1))
          else if wireType = 5 then bnd (add_index j 4) (\<lambda>k. Inr (k, depth))
          else Inl (FmtError ''proto: illegal wireType''))"

lemma rd_varint_gt: "rd_varint dAtA i shift acc = Inr (w, j) \<Longrightarrow> i < j"
  using rd_varint_progress by blast

lemma add_index_Inr: "add_index i n = Inr j \<longleftrightarrow> j = i + n \<and> i + n < 2 ^ 63"
  by (auto simp: add_index_def)

lemma skip_field_gt: "skip_field dAtA i depth = Inr (j, d) \<Longrightarrow> i < j"
  by (auto simp: skip_field_def add_index_Inr Let_def split: if_splits dest!: rd_varint_gt)

lemma rd_len_gt: "rd_len dAtA i = Inr (a, b) \<Longrightarrow> i < a \<and> a \<le> b \<and> b \<le> int (length dAtA)"
  by (auto simp: rd_len_def add_index_Inr Let_def dest!: rd_varint_gt)

function skip_loop :: "bytes \<Rightarrow> int \<Rightarrow> nat \<Rightarrow> int res" where
  "skip_loop dAtA i depth =
     (if i < int (length dAtA) then
        bnd (skip_field dAtA i depth) (\<lambda>(j, d). if d = 0 then Inr j else skip_loop dAtA j d)
      else Inl ErrUnexpectedEOF)"
  by pat_completeness auto
termination
  by (relation "measure (\<lambda>(dAtA, i, d). nat (int (length dAtA) - i))")
    (auto dest: skip_field_gt)

declare skip_loop.simps [simp del]

definition skip_pb :: "bytes \<Rightarrow> int res" where
  "skip_pb dAtA = skip_loop dAtA 0 0"

lemma skip_loop_gt: "skip_loop dAtA i depth = Inr n \<Longrightarrow> i < n"
proof (induction dAtA i depth rule: skip_loop.induct)
  case (1 dAtA i depth)
  from "1.prems" obtain j d where j: "i < int (length dAtA)" "skip_field dAtA i depth = Inr (j, d)"
    "(if d = 0 then Inr j else skip_loop dAtA j d) = Inr n"
    by (subst (asm) skip_loop.simps) (auto split: if_splits)
  then show ?case
    using skip_field_gt [OF j(2)] "1.IH" [OF j(1,2) refl] by (cases "d = 0") auto
qed

datatype 'm pb_field =
    PbLen "bytes \<Rightarrow> 'm \<Rightarrow> 'm res"
  | PbVar "64 word \<Rightarrow> 'm \<Rightarrow> 'm"
  | PbSkip

text \<open>\<open>int32(wire >> 3)\<close>\<close>

definition field_num :: "64 word \<Rightarrow> int" where
  "field_num wire = sint (ucast (drop_bit 3 wire) :: 32 word)"

function pb_loop :: "(int \<Rightarrow> 'm pb_field) \<Rightarrow> bytes \<Rightarrow> int \<Rightarrow> 'm \<Rightarrow> 'm res" where
  "pb_loop h dAtA i m =
     (if i < int (length dAtA) then
        bnd (rd_varint dAtA i 0 0) (\<lambda>(wire, j).
          if unat (wire AND 7) = 4 then Inl (FmtError ''proto: wiretype end group for non-group'')
          else if field_num wire \<le> 0 then Inl (FmtError ''proto: illegal tag'')
          else case h (field_num wire) of
            PbLen g \<Rightarrow>
              (if unat (wire AND 7) \<noteq> 2 then Inl (FmtError ''proto: wrong wireType'')
               else bnd (rd_len dAtA j) (\<lambda>(a, b).
                    bnd (g (sub_bytes dAtA a b) m) (\<lambda>m'. pb_loop h dAtA b m')))
          | PbVar g \<Rightarrow>
              (if unat (wire AND 7) \<noteq> 0 then Inl (FmtError ''proto: wrong wireType'')
               else bnd (rd_varint dAtA j 0 0) (\<lambda>(v, b). pb_loop h dAtA b (g v m)))
          | PbSkip \<Rightarrow>
              bnd (skip_pb (drop (nat i) dAtA)) (\<lambda>n.
              bnd (add_index i n) (\<lambda>b.
                if int (length dAtA) < b then Inl ErrUnexpectedEOF else pb_loop h dAtA b m)))
      else if int (length dAtA) < i then Inl ErrUnexpectedEOF
      else Inr m)"
  by pat_completeness auto
termination
  by (relation "measure (\<lambda>(h, dAtA, i, m). nat (int (length dAtA) - i))")
    (auto simp: add_index_Inr skip_pb_def dest!: rd_varint_gt rd_len_gt skip_loop_gt)

declare pb_loop.simps [simp del]

definition pb_unmarshal :: "(int \<Rightarrow> 'm pb_field) \<Rightarrow> bytes \<Rightarrow> 'm \<Rightarrow> 'm res" where
  "pb_unmarshal h dAtA m = pb_loop h dAtA 0 m"

section \<open>Reading back what was written\<close>

definition mk_tag :: "nat \<Rightarrow> nat \<Rightarrow> 64 word" where
  "mk_tag fnum wt = of_nat (8 * fnum + wt)"

text \<open>A length-delimited field on the wire: tag, length, payload.\<close>

definition len_field :: "nat \<Rightarrow> bytes \<Rightarrow> bytes" where
  "len_field fnum bs = varint (mk_tag fnum 2) @ varint (of_nat (length bs)) @ bs"

lemma rd_len_written:
  assumes "length bs < 2 ^ 63" "length p + sov (of_nat (length bs)) + length bs < 2 ^ 63"
  shows "rd_len (p @ varint (of_nat (length bs)) @ bs @ q) (int (length p)) =
    Inr (int (length p) + int (sov (of_nat (length bs))),
         int (length p) + int (sov (of_nat (length bs))) + int (length bs))"
proof -
  have "sint (of_nat (length bs) :: 64 word) = int (length bs)"
    using assms(1) by (simp add: signed_of_nat signed_take_bit_int_eq_self)
  moreover have "int (length p) + int (sov (of_nat (length bs))) + int (length bs) < 2 ^ 63"
    using assms(2) by simp
  ultimately show ?thesis
    using rd_varint_varint [of p "of_nat (length bs)" "bs @ q"]
    by (simp add: rd_len_def add_index_def length_varint)
qed

lemma unat_and_7: "unat (w AND 7 :: 64 word) = unat w mod 8"
proof -
  have "w AND 7 = take_bit 3 w"
    by (simp add: take_bit_eq_mask mask_eq_exp_minus_1)
  then show ?thesis
    by (simp only: unsigned_take_bit_eq) (simp add: take_bit_eq_mod)
qed

lemma tag_word:
  assumes "fnum < 2 ^ 28" "wt < 8"
  shows "unat (mk_tag fnum wt AND 7) = wt"
    and "field_num (mk_tag fnum wt) = int fnum"
proof -
  have u: "unat (mk_tag fnum wt) = 8 * fnum + wt"
    unfolding mk_tag_def unsigned_of_nat of_nat_id
    using assms by (intro take_bit_nat_eq_self) simp
  then show "unat (mk_tag fnum wt AND 7) = wt"
    using assms by (simp add: unat_and_7)
  have "unat (drop_bit 3 (mk_tag fnum wt)) = fnum"
    using assms by (subst unat_drop_bit_eq, subst u) (simp add: drop_bit_eq_div)
  then have "drop_bit 3 (mk_tag fnum wt) = of_nat fnum"
    by (metis of_nat_unat ucast_id)
  moreover have "take_bit 64 fnum = fnum"
    using assms by (intro take_bit_nat_eq_self) simp
  then have "ucast (of_nat fnum :: 64 word) = (of_nat fnum :: 32 word)"
    by (simp add: unsigned_of_nat)
  ultimately have "field_num (mk_tag fnum wt) = sint (of_nat fnum :: 32 word)"
    by (simp add: field_num_def)
  then show "field_num (mk_tag fnum wt) = int fnum"
    using assms by (simp add: signed_of_nat signed_take_bit_int_eq_self)
qed

lemma pb_loop_len_field:
  assumes f: "0 < fnum" "fnum < 2 ^ 28" "h (int fnum) = PbLen g"
    and len: "length p + length (len_field fnum bs) < 2 ^ 63"
  shows "pb_loop h (p @ len_field fnum bs @ q) (int (length p)) m =
    bnd (g bs m) (\<lambda>m'. pb_loop h (p @ len_field fnum bs @ q)
      (int (length (p @ len_field fnum bs))) m')"
proof -
  let ?t = "mk_tag fnum 2" and ?n = "of_nat (length bs) :: 64 word"
  let ?d = "p @ len_field fnum bs @ q"
  have tag: "rd_varint ?d (int (length p)) 0 0 = Inr (?t, int (length (p @ varint ?t)))"
    using rd_varint_varint [of p ?t "varint ?n @ bs @ q"] by (simp add: len_field_def length_varint)
  have ln: "rd_len ?d (int (length (p @ varint ?t))) =
    Inr (int (length (p @ varint ?t @ varint ?n)), int (length (p @ varint ?t @ varint ?n @ bs)))"
    using rd_len_written [of bs "p @ varint ?t" q] len
    by (simp add: len_field_def length_varint add.assoc)
  have sub: "sub_bytes ?d (int (length (p @ varint ?t @ varint ?n)))
      (int (length (p @ varint ?t @ varint ?n @ bs))) = bs"
    by (simp add: sub_bytes_def len_field_def)
  have pos: "int (length p) < int (length ?d)"
    using sov_pos [of ?t] by (simp add: len_field_def length_varint)
  have w: "unat (?t AND 7) = 2" "field_num ?t = int fnum"
    using tag_word [OF f(2), of 2] by simp_all
  show ?thesis
    unfolding pb_loop.simps [of h ?d "int (length p)" m] tag
    using pos f(1,3) w ln sub by (simp add: len_field_def)
qed

lemma pb_loop_end: "pb_loop h dAtA (int (length dAtA)) m = Inr m"
  by (simp add: pb_loop.simps)

text \<open>Tags of the field numbers up to 15 take one byte.\<close>

lemma varint_mk_tag:
  assumes "8 * fnum + wt < 128"
  shows "varint (mk_tag fnum wt) = [char_of (8 * fnum + wt)]" "sov (mk_tag fnum wt) = 1"
proof -
  have "unat (mk_tag fnum wt) = 8 * fnum + wt"
    unfolding mk_tag_def unsigned_of_nat of_nat_id
    using assms by (intro take_bit_nat_eq_self) simp
  then show "varint (mk_tag fnum wt) = [char_of (8 * fnum + wt)]"
    using assms by (simp add: varint.simps)
  then show "sov (mk_tag fnum wt) = 1"
    using length_varint [of "mk_tag fnum wt"] by simp
qed

lemma length_len_field:
  "fnum < 16 \<Longrightarrow> length (len_field fnum bs) = 1 + sov (of_nat (length bs)) + length bs"
  by (simp add: len_field_def length_varint varint_mk_tag)

end
