(* ===== verification/Proto_Message.thy ===== *)
theory Proto_Message
  imports Proto_Wire
begin

text \<open>
  The building blocks of the generated message codecs: the blocks by which a
  \<open>MarshalToSizedBuffer\<close> writes one field in front of the fields after it, the terms of a \<open>Size\<close>,
  and \<open>Marshal\<close>. The predicate \<open>writes\<close> says that a block puts a given image in front of what is
  already written, without an index out of range, and \<open>reads\<close> that the field loop of an \<open>Unmarshal\<close>
  takes an image in as a given update; both have one rule per block, collected in \<open>wire_intros\<close>, so
  that the codec of a message is proved by applying rules. The locale \<open>pb_message\<close> is the contract
  of a message type, which every codec of the development fulfils.
\<close>

named_theorems wire_intros

type_synonym pb_buf = "bytes \<times> int"

section \<open>Blocks of a \<open>MarshalToSizedBuffer\<close>\<close>

text \<open>The state is the buffer and the index \<open>i\<close> where its written part starts.\<close>

definition put_tag :: "nat \<Rightarrow> pb_buf \<Rightarrow> pb_buf res" where
  "put_tag tag = (\<lambda>(dAtA, i). bnd (put_at dAtA (i - 1) [char_of tag]) (\<lambda>dAtA. Inr (dAtA, i - 1)))"

definition put_len :: "nat \<Rightarrow> bytes \<Rightarrow> pb_buf \<Rightarrow> pb_buf res" where
  "put_len tag bs = (\<lambda>(dAtA, i).
     let i = i - int (length bs)
     in bnd (put_at dAtA i bs) (\<lambda>dAtA. bnd (encodeVarint dAtA i (of_nat (length bs))) (put_tag tag)))"

text \<open>A string or bytes field, left out when empty.\<close>

definition put_str :: "nat \<Rightarrow> bytes \<Rightarrow> pb_buf \<Rightarrow> pb_buf res" where
  "put_str tag bs st = (if 0 < length bs then put_len tag bs st else Inr st)"

text \<open>An unsigned field, left out when zero.\<close>

definition put_uint :: "nat \<Rightarrow> 64 word \<Rightarrow> pb_buf \<Rightarrow> pb_buf res" where
  "put_uint tag v = (\<lambda>(dAtA, i). if v \<noteq> 0 then bnd (encodeVarint dAtA i v) (put_tag tag) else Inr (dAtA, i))"

text \<open>A field of a foreign type, whose bytes \<open>enc\<close> or its error its own marshaller gives.\<close>

definition put_foreign :: "nat \<Rightarrow> bytes res \<Rightarrow> pb_buf \<Rightarrow> pb_buf res" where
  "put_foreign tag enc st = bnd enc (\<lambda>bs. put_len tag bs st)"

text \<open>A nested message, marshalled into \<open>dAtA[:i]\<close>.\<close>

definition put_msg :: "nat \<Rightarrow> (bytes \<Rightarrow> pb_buf res) \<Rightarrow> pb_buf \<Rightarrow> pb_buf res" where
  "put_msg tag marshal = (\<lambda>(dAtA, i).
     bnd (marshal (take (nat i) dAtA)) (\<lambda>(d, n).
     bnd (encodeVarint (d @ drop (nat i) dAtA) (i - n) (of_int n)) (put_tag tag)))"

text \<open>A repeated message, from its last element to its first.\<close>

definition put_msgs :: "nat \<Rightarrow> ('e \<Rightarrow> bytes \<Rightarrow> pb_buf res) \<Rightarrow> 'e list \<Rightarrow> pb_buf \<Rightarrow> pb_buf res" where
  "put_msgs tag marshal es st = foldM (\<lambda>st e. put_msg tag (marshal e) st) st (rev es)"

text \<open>A field behind a pointer, left out when the pointer is nil.\<close>

definition put_opt :: "('c \<Rightarrow> pb_buf \<Rightarrow> pb_buf res) \<Rightarrow> 'c option \<Rightarrow> pb_buf \<Rightarrow> pb_buf res" where
  "put_opt put x st = (case x of None \<Rightarrow> Inr st | Some c \<Rightarrow> put c st)"

text \<open>The frame of a \<open>MarshalToSizedBuffer\<close>, and \<open>Marshal\<close>.\<close>

definition sized_buffer :: "(pb_buf \<Rightarrow> pb_buf res) \<Rightarrow> bytes \<Rightarrow> pb_buf res" where
  "sized_buffer body dAtA =
     bnd (body (dAtA, int (length dAtA))) (\<lambda>(dAtA, i). Inr (dAtA, int (length dAtA) - i))"

definition pb_Marshal :: "nat \<Rightarrow> (bytes \<Rightarrow> pb_buf res) \<Rightarrow> bytes res" where
  "pb_Marshal n marshal =
     bnd (marshal (replicate n (char_of (0::nat)))) (\<lambda>(dAtA, k). Inr (take (nat k) dAtA))"

section \<open>Terms of a \<open>Size\<close>\<close>

definition size_len :: "nat \<Rightarrow> nat" where
  "size_len l = 1 + l + sov (of_nat l)"

definition size_str :: "bytes \<Rightarrow> nat" where
  "size_str bs = (if 0 < length bs then size_len (length bs) else 0)"

definition size_uint :: "64 word \<Rightarrow> nat" where
  "size_uint v = (if v \<noteq> 0 then 1 + sov v else 0)"

definition size_opt :: "('c \<Rightarrow> nat) \<Rightarrow> 'c option \<Rightarrow> nat" where
  "size_opt sz x = (case x of None \<Rightarrow> 0 | Some c \<Rightarrow> size_len (sz c))"

definition size_msgs :: "('e \<Rightarrow> nat) \<Rightarrow> 'e list \<Rightarrow> nat" where
  "size_msgs sz es = sum_list (map (\<lambda>e. size_len (sz e)) es)"

lemma size_msgs_cong [cong]:
  "es = es' \<Longrightarrow> (\<And>e. e \<in> set es' \<Longrightarrow> f e = g e) \<Longrightarrow> size_msgs f es = size_msgs g es'"
  by (simp add: size_msgs_def cong: map_cong)

lemma size_opt_cong [cong]:
  "x = x' \<Longrightarrow> (\<And>c. x' = Some c \<Longrightarrow> f c = g c) \<Longrightarrow> size_opt f x = size_opt g x'"
  by (cases x') (simp_all add: size_opt_def)

text \<open>The \<open>Size\<close> of a foreign type: the length of its bytes, 0 if it cannot be marshalled.\<close>

definition foreign_Size :: "bytes res \<Rightarrow> nat" where
  "foreign_Size enc = (case enc of Inl _ \<Rightarrow> 0 | Inr bz \<Rightarrow> length bz)"

section \<open>Images\<close>

definition str_field :: "nat \<Rightarrow> bytes \<Rightarrow> bytes" where
  "str_field n bs = (if bs = [] then [] else len_field n bs)"

definition uint_field :: "nat \<Rightarrow> 64 word \<Rightarrow> bytes" where
  "uint_field n v = (if v = 0 then [] else varint (mk_tag n 0) @ varint v)"

definition opt_field :: "nat \<Rightarrow> ('c \<Rightarrow> bytes) \<Rightarrow> 'c option \<Rightarrow> bytes" where
  "opt_field n wire x = (case x of None \<Rightarrow> [] | Some c \<Rightarrow> len_field n (wire c))"

definition msgs_field :: "nat \<Rightarrow> ('e \<Rightarrow> bytes) \<Rightarrow> 'e list \<Rightarrow> bytes" where
  "msgs_field n wire es = concat (map (\<lambda>e. len_field n (wire e)) es)"

lemma length_fields [simp]:
  "n < 16 \<Longrightarrow> length (len_field n bs) = size_len (length bs)"
  "n < 16 \<Longrightarrow> length (str_field n bs) = size_str bs"
  "n < 16 \<Longrightarrow> length (uint_field n v) = size_uint v"
  "n < 16 \<Longrightarrow> length (opt_field n wire x) = size_opt (\<lambda>c. length (wire c)) x"
  "n < 16 \<Longrightarrow> length (msgs_field n wire es) = size_msgs (\<lambda>e. length (wire e)) es"
  by (simp_all add: length_len_field size_len_def str_field_def size_str_def uint_field_def size_uint_def
      length_varint varint_mk_tag msgs_field_def size_msgs_def length_concat comp_def add_ac opt_field_def size_opt_def split: option.split)

section \<open>Writing a message\<close>

definition writes :: "(pb_buf \<Rightarrow> pb_buf res) \<Rightarrow> bytes \<Rightarrow> bool" where
  "writes f w \<longleftrightarrow> (\<forall>p q k. length p = length w + k \<longrightarrow>
     f (p @ q, int (length p)) = Inr (take k p @ w @ q, int k))"

lemma writesD:
  "writes f w \<Longrightarrow> length p = length w + k \<Longrightarrow> f (p @ q, int (length p)) = Inr (take k p @ w @ q, int k)"
  by (simp add: writes_def)

lemma writes_nothing [wire_intros]: "writes Inr []"
  by (simp add: writes_def)

text \<open>The code writes the last field first.\<close>

lemma writes_then [wire_intros]:
  assumes "writes f v" and "writes g w"
  shows "writes (\<lambda>st. bnd (g st) f) (v @ w)"
  unfolding writes_def
proof (intro allI impI)
  fix p q :: bytes and k
  assume p: "length p = length (v @ w) + k"
  have "g (p @ q, int (length p)) = Inr (take (length v + k) p @ w @ q, int (length v + k))"
    by (rule writesD [OF assms(2)]) (simp add: p)
  moreover have "f (take (length v + k) p @ w @ q, int (length (take (length v + k) p))) =
      Inr (take k (take (length v + k) p) @ v @ w @ q, int k)"
    by (rule writesD [OF assms(1)]) (simp add: p)
  ultimately show "bnd (g (p @ q, int (length p))) f = Inr (take k p @ (v @ w) @ q, int k)"
    using p by simp
qed

lemma writes_tag [wire_intros]:
  assumes "n < 16" and "t < 8" and "tag = 8 * n + t"
  shows "writes (put_tag tag) (varint (mk_tag n t))"
  using assms by (auto simp: writes_def put_tag_def varint_mk_tag put_at_back [where bs = "[_]", simplified]
      of_nat_diff)

lemma writes_varint: "writes (\<lambda>(dAtA, i). encodeVarint dAtA i v) (varint v)"
  using encodeVarint_back by (simp add: writes_def length_varint)

lemma writes_len [wire_intros]:
  assumes "n < 16" and "tag = 8 * n + 2"
  shows "writes (put_len tag bs) (len_field n bs)"
  unfolding writes_def
proof (intro allI impI)
  fix p q :: bytes and k
  let ?v = "varint (of_nat (length bs))" and ?l = "length (varint (mk_tag n 2) @ varint (of_nat (length bs)))"
  assume p: "length p = length (len_field n bs) + k"
  then have l: "length p = length bs + (?l + k)" by (simp add: len_field_def)
  have "writes (\<lambda>st. bnd ((\<lambda>(dAtA, i). encodeVarint dAtA i (of_nat (length bs))) st) (put_tag tag))
      (varint (mk_tag n 2) @ ?v)"
    using assms by (intro writes_then writes_tag writes_varint) auto
  from writesD [OF this, of "take (?l + k) p" k "bs @ q"] l
  show "put_len tag bs (p @ q, int (length p)) = Inr (take k p @ len_field n bs @ q, int k)"
    using put_at_back [OF l, of q] by (simp add: put_len_def Let_def len_field_def)
qed

lemma writes_str [wire_intros]:
  "n < 16 \<Longrightarrow> tag = 8 * n + 2 \<Longrightarrow> writes (put_str tag bs) (str_field n bs)"
  using writes_len [of n tag bs] by (auto simp: writes_def put_str_def str_field_def)

lemma writes_uint [wire_intros]:
  assumes "n < 16" and "tag = 8 * n"
  shows "writes (put_uint tag v) (uint_field n v)"
proof -
  have "writes (\<lambda>st. bnd ((\<lambda>(dAtA, i). encodeVarint dAtA i v) st) (put_tag tag)) (varint (mk_tag n 0) @ varint v)"
    using assms by (intro writes_then writes_tag writes_varint) auto
  then show ?thesis by (auto simp: writes_def put_uint_def uint_field_def)
qed

lemma writes_foreign [wire_intros]:
  "n < 16 \<Longrightarrow> tag = 8 * n + 2 \<Longrightarrow> enc = Inr bs \<Longrightarrow> writes (put_foreign tag enc) (len_field n bs)"
  using writes_len by (simp add: writes_def put_foreign_def)

definition writes_buf :: "(bytes \<Rightarrow> pb_buf res) \<Rightarrow> bytes \<Rightarrow> bool" where
  "writes_buf f w \<longleftrightarrow> (\<forall>p k. length p = length w + k \<longrightarrow> f p = Inr (take k p @ w, int (length w)))"

lemma writes_sized [wire_intros]:
  assumes "writes body w"
  shows "writes_buf (sized_buffer body) w"
  using writesD [OF assms, where q = "[]"] by (auto simp: writes_buf_def sized_buffer_def)

lemma writes_msg [wire_intros]:
  assumes "n < 16" and "tag = 8 * n + 2" and "writes_buf marshal w"
  shows "writes (put_msg tag marshal) (len_field n w)"
  unfolding writes_def
proof (intro allI impI)
  fix p q :: bytes and k
  let ?l = "length (varint (mk_tag n 2) @ varint (of_nat (length w)))"
  assume p: "length p = length (len_field n w) + k"
  then have l: "length p = length w + (?l + k)" by (simp add: len_field_def)
  then have m: "marshal p = Inr (take (?l + k) p @ w, int (length w))"
    using assms(3) by (simp add: writes_buf_def)
  have "writes (\<lambda>st. bnd ((\<lambda>(dAtA, i). encodeVarint dAtA i (of_nat (length w))) st) (put_tag tag))
      (varint (mk_tag n 2) @ varint (of_nat (length w)))"
    using assms by (intro writes_then writes_tag writes_varint) auto
  from writesD [OF this, of "take (?l + k) p" k "w @ q"] l m
  show "put_msg tag marshal (p @ q, int (length p)) = Inr (take k p @ len_field n w @ q, int k)"
    by (simp add: put_msg_def Let_def len_field_def)
qed

lemma writes_msgs [wire_intros]:
  assumes "n < 16" and "tag = 8 * n + 2" and "\<And>e. e \<in> set es \<Longrightarrow> writes_buf (marshal e) (wire e)"
  shows "writes (put_msgs tag marshal es) (msgs_field n wire es)"
  using assms(3)
proof (induction es rule: rev_induct)
  case Nil
  then show ?case by (simp add: put_msgs_def msgs_field_def writes_def)
next
  case (snoc e es)
  have "put_msgs tag marshal (es @ [e]) = (\<lambda>st. bnd (put_msg tag (marshal e) st) (put_msgs tag marshal es))"
    by (rule ext) (simp add: put_msgs_def [abs_def])
  moreover have "msgs_field n wire (es @ [e]) = msgs_field n wire es @ len_field n (wire e)"
    by (simp add: msgs_field_def)
  ultimately show ?case using snoc assms(1,2) by (simp add: writes_then writes_msg)
qed

lemma writes_opt [wire_intros]:
  "(\<And>c. x = Some c \<Longrightarrow> writes (put c) (len_field n (wire c))) \<Longrightarrow> writes (put_opt put x) (opt_field n wire x)"
  by (cases x) (simp_all add: writes_def put_opt_def opt_field_def)

lemma put_msgs_each:
  assumes "put_msgs tag marshal es st = Inr r" and "e \<in> set es"
  shows "\<exists>p r. marshal e p = Inr r"
  using assms
proof (induction es arbitrary: st rule: rev_induct)
  case Nil
  then show ?case by simp
next
  case (snoc x es)
  then show ?case by (auto simp: put_msgs_def put_msg_def case_prod_beta)
qed

section \<open>Reading a message\<close>

definition reads :: "(int \<Rightarrow> 'm pb_field) \<Rightarrow> bytes \<Rightarrow> ('m \<Rightarrow> 'm res) \<Rightarrow> bool" where
  "reads h w f \<longleftrightarrow> (\<forall>p q m. length (p @ w) < 2 ^ 63 \<longrightarrow>
     pb_loop h (p @ w @ q) (int (length p)) m =
       bnd (f m) (\<lambda>m'. pb_loop h (p @ w @ q) (int (length (p @ w))) m'))"

lemma readsD:
  "reads h w f \<Longrightarrow> length (p @ w) < 2 ^ 63 \<Longrightarrow> pb_loop h (p @ w @ q) (int (length p)) m =
     bnd (f m) (\<lambda>m'. pb_loop h (p @ w @ q) (int (length (p @ w))) m')"
  by (simp add: reads_def)

lemma reads_nothing [wire_intros]: "reads h [] Inr"
  by (simp add: reads_def)

lemma reads_then [wire_intros]:
  assumes "reads h v f" and "reads h w g"
  shows "reads h (v @ w) (\<lambda>m. bnd (f m) g)"
  unfolding reads_def
proof (intro allI impI)
  fix p q m
  assume len: "length (p @ v @ w) < 2 ^ 63"
  have "pb_loop h (p @ v @ (w @ q)) (int (length p)) m =
      bnd (f m) (\<lambda>m'. pb_loop h (p @ v @ (w @ q)) (int (length (p @ v))) m')"
    by (rule readsD [OF assms(1)]) (use len in simp)
  moreover have "pb_loop h ((p @ v) @ w @ q) (int (length (p @ v))) m' =
      bnd (g m') (\<lambda>m'. pb_loop h ((p @ v) @ w @ q) (int (length ((p @ v) @ w))) m')" for m'
    by (rule readsD [OF assms(2)]) (use len in simp)
  ultimately show "pb_loop h (p @ (v @ w) @ q) (int (length p)) m =
      bnd (bnd (f m) g) (\<lambda>m'. pb_loop h (p @ (v @ w) @ q) (int (length (p @ v @ w))) m')"
    by (simp add: bnd_assoc)
qed

lemma reads_len [wire_intros]:
  "0 < n \<Longrightarrow> n < 16 \<Longrightarrow> h (int n) = PbLen g \<Longrightarrow> reads h (len_field n bs) (g bs)"
  using pb_loop_len_field [of n h g] by (simp add: reads_def del: length_fields)

lemma reads_str [wire_intros]:
  assumes "0 < n" and "n < 16" and "h (int n) = PbLen g"
  shows "reads h (str_field n bs) (\<lambda>m. if bs = [] then Inr m else g bs m)"
  using reads_len [of n h g bs] assms by (auto simp: reads_def str_field_def)

lemma reads_uint [wire_intros]:
  assumes f: "0 < n" "n < 16" "h (int n) = PbVar g"
  shows "reads h (uint_field n v) (\<lambda>m. Inr (if v = 0 then m else g v m))"
proof (cases "v = 0")
  case True
  then show ?thesis by (simp add: reads_def uint_field_def)
next
  case False
  let ?t = "mk_tag n 0"
  have tag: "rd_varint (p @ (varint ?t @ varint v) @ q) (int (length p)) 0 0 = Inr (?t, int (length (p @ varint ?t)))"
    for p q using rd_varint_varint [of p ?t "varint v @ q"] by (simp add: length_varint)
  have val: "rd_varint (p @ (varint ?t @ varint v) @ q) (int (length (p @ varint ?t))) 0 0 =
      Inr (v, int (length (p @ varint ?t @ varint v)))" for p q
    using rd_varint_varint [of "p @ varint ?t" v q] by (simp add: length_varint add.assoc)
  have w: "unat (?t AND 7) = 0" "field_num ?t = int n"
    using f tag_word [of n 0] by simp_all
  have pos: "int (length p) < int (length (p @ (varint ?t @ varint v) @ q))" for p q :: bytes
    using sov_pos [of ?t] by (simp add: length_varint)
  show ?thesis
    using False f w tag val pos unfolding reads_def uint_field_def
    by (subst pb_loop.simps) simp
qed

lemma reads_opt [wire_intros]:
  assumes "0 < n" and "n < 16" and "h (int n) = PbLen g"
  shows "reads h (opt_field n wire x) (\<lambda>m. case x of None \<Rightarrow> Inr m | Some c \<Rightarrow> g (wire c) m)"
  using reads_len [of n h g] assms by (cases x) (simp_all add: reads_def opt_field_def)

text \<open>Only images that fit into a buffer matter.\<close>

lemma readsI_small: "(length w < 2 ^ 63 \<Longrightarrow> reads h w f) \<Longrightarrow> reads h w f"
  by (cases "length w < 2 ^ 63") (simp_all add: reads_def)

lemma reads_msgs [wire_intros]:
  assumes "0 < n" and "n < 16" and "h (int n) = PbLen (\<lambda>bs m. bnd (un bs) (\<lambda>e. Inr (app e m)))"
    and "\<And>e. e \<in> set es \<Longrightarrow> length (wire e) < 2 ^ 63 \<Longrightarrow> un (wire e) = Inr e"
  shows "reads h (msgs_field n wire es) (\<lambda>m. Inr (fold app es m))"
  using assms(4)
proof (induction es)
  case Nil
  then show ?case by (simp add: reads_def msgs_field_def)
next
  case (Cons e es)
  have split: "msgs_field n wire (e # es) = len_field n (wire e) @ msgs_field n wire es"
    by (simp add: msgs_field_def)
  show ?case
  proof (rule readsI_small)
    assume "length (msgs_field n wire (e # es)) < 2 ^ 63"
    then have e: "un (wire e) = Inr e"
      using Cons.prems assms(2) by (simp add: size_msgs_def size_len_def)
    have "reads h (msgs_field n wire (e # es))
        (\<lambda>m. bnd (bnd (un (wire e)) (\<lambda>e. Inr (app e m))) (\<lambda>m. Inr (fold app es m)))"
      unfolding split using assms Cons by (intro reads_then reads_len) auto
    then show "reads h (msgs_field n wire (e # es)) (\<lambda>m. Inr (fold app (e # es) m))" by (simp add: e)
  qed
qed

lemma reads_unmarshal:
  "reads h w f \<Longrightarrow> length w < 2 ^ 63 \<Longrightarrow> pb_unmarshal h w m = f m"
  using readsD [of h w f "[]" "[]" m] pb_loop_end [of h w]
  by (cases "f m") (simp_all add: pb_unmarshal_def)

lemmas reads_rules = reads_then reads_str reads_len reads_uint reads_opt reads_msgs

lemma unmarshalI:
  "length w < 2 ^ 63 \<Longrightarrow> reads h w f \<Longrightarrow> f m = Inr m' \<Longrightarrow> pb_unmarshal h w m = Inr m'"
  by (simp add: reads_unmarshal)

section \<open>Foreign types\<close>

text \<open>
  A type of a package outside the repository has a marshaller \<open>fm\<close> and an \<open>Unmarshal\<close> \<open>fu\<close>, which
  merges bytes into a value; its contract is that bytes are read back into the zero value as what
  was marshalled.
\<close>

definition enc_of :: "('c \<Rightarrow> bytes res) \<Rightarrow> 'c \<Rightarrow> bytes" where
  "enc_of fm c = (case fm c of Inl _ \<Rightarrow> [] | Inr bz \<Rightarrow> bz)"

abbreviation codable :: "('c \<Rightarrow> bytes res) \<Rightarrow> 'c \<Rightarrow> bool" where
  "codable fm c \<equiv> \<not> isl (fm c)"

lemma codable_enc: "codable fm c \<Longrightarrow> fm c = Inr (enc_of fm c)"
  by (auto simp: enc_of_def split: sum.splits)

lemma foreign_Size_enc [simp]: "foreign_Size (fm c) = length (enc_of fm c)"
  by (simp add: foreign_Size_def enc_of_def split: sum.split)

locale foreign_codec =
  fixes fm :: "'c \<Rightarrow> bytes res" and fu :: "bytes \<Rightarrow> 'c \<Rightarrow> 'c res" and zero_value :: 'c
  assumes foreign_roundtrip: "fm c = Inr bz \<Longrightarrow> fu bz zero_value = Inr c"
begin

lemma decode_enc [simp]: "codable fm c \<Longrightarrow> fu (enc_of fm c) zero_value = Inr c"
  by (rule foreign_roundtrip, rule codable_enc)

end

section \<open>The contract of a message type\<close>

text \<open>
  \<open>ok\<close> are the values whose foreign fields can be marshalled; \<open>wire\<close> is their image.
\<close>

locale pb_message =
  fixes sz :: "'m \<Rightarrow> nat" and marshal :: "'m \<Rightarrow> bytes \<Rightarrow> pb_buf res" and unmarshal :: "bytes \<Rightarrow> 'm res"
    and wire :: "'m \<Rightarrow> bytes" and ok :: "'m \<Rightarrow> bool"
  assumes size_wire: "ok m \<Longrightarrow> sz m = length (wire m)"
    and marshal_wire: "ok m \<Longrightarrow> writes_buf (marshal m) (wire m)"
    and unmarshal_wire: "ok m \<Longrightarrow> length (wire m) < 2 ^ 63 \<Longrightarrow> unmarshal (wire m) = Inr m"
begin

lemma Marshal_wire: "ok m \<Longrightarrow> pb_Marshal (sz m) (marshal m) = Inr (wire m)"
  using marshal_wire [of m] size_wire [of m] by (simp add: writes_buf_def pb_Marshal_def)

lemma codec_roundtrip:
  assumes "ok m" and "sz m < 2 ^ 63"
  shows "\<exists>bz. pb_Marshal (sz m) (marshal m) = Inr bz \<and> length bz = sz m \<and> unmarshal bz = Inr m"
  using Marshal_wire size_wire unmarshal_wire assms by auto

lemma codec_injective:
  assumes "ok m" and "ok m'" and "sz m < 2 ^ 63"
    and "pb_Marshal (sz m) (marshal m) = pb_Marshal (sz m') (marshal m')"
  shows "m = m'"
proof -
  have "wire m = wire m'" using assms by (simp add: Marshal_wire)
  then show ?thesis using unmarshal_wire [of m] unmarshal_wire [of m'] assms size_wire [of m] by simp
qed

end

end
