(* ===== verification/Lock_Codec.thy ===== *)
theory Lock_Codec
  imports Proto_Message
begin

text \<open>
  The stored representation of locks: \<open>x/lockup/types/lock.pb.go\<close>. \<open>Lock\<close> and \<open>Locks\<close> are the
  generated message types with their \<open>Size\<close>, \<open>Marshal\<close>, \<open>MarshalToSizedBuffer\<close> and \<open>Unmarshal\<close>.
  The encoding of the amount is the \<open>Marshal\<close>/\<open>Unmarshal\<close> of \<open>cosmossdk.io/math.Int\<close>, the
  parameters \<open>im\<close> and \<open>iu\<close>; the locale \<open>int_codec\<close> states what is used of them. Under it both
  types fulfil \<open>pb_message\<close>: the buffer computed by \<open>Size\<close> is filled exactly, without an index out
  of range, and unmarshalling gives back the marshalled locks. A stored lock always carries its amount field,
  so the missing-amount value of the Go type does not occur.
\<close>

record lock =
  UnlockDate :: string
  Amount :: int

section \<open>Marshalling\<close>

definition lock_Size :: "(int \<Rightarrow> bytes res) \<Rightarrow> lock \<Rightarrow> nat" where
  "lock_Size im m = size_str (UnlockDate m) + size_len (foreign_Size (im (Amount m)))"

definition lock_MarshalToSizedBuffer :: "(int \<Rightarrow> bytes res) \<Rightarrow> lock \<Rightarrow> bytes \<Rightarrow> pb_buf res" where
  "lock_MarshalToSizedBuffer im m = sized_buffer (\<lambda>st.
     bnd (put_foreign 18 (im (Amount m)) st)
         (put_str 10 (UnlockDate m)))"

definition lock_Marshal :: "(int \<Rightarrow> bytes res) \<Rightarrow> lock \<Rightarrow> bytes res" where
  "lock_Marshal im m = pb_Marshal (lock_Size im m) (lock_MarshalToSizedBuffer im m)"

definition locks_Size :: "(int \<Rightarrow> bytes res) \<Rightarrow> lock list \<Rightarrow> nat" where
  "locks_Size im ls = size_msgs (lock_Size im) ls"

definition locks_MarshalToSizedBuffer :: "(int \<Rightarrow> bytes res) \<Rightarrow> lock list \<Rightarrow> bytes \<Rightarrow> pb_buf res" where
  "locks_MarshalToSizedBuffer im ls = sized_buffer (put_msgs 10 (lock_MarshalToSizedBuffer im) ls)"

definition locks_Marshal :: "(int \<Rightarrow> bytes res) \<Rightarrow> lock list \<Rightarrow> bytes res" where
  "locks_Marshal im ls = pb_Marshal (locks_Size im ls) (locks_MarshalToSizedBuffer im ls)"

section \<open>Unmarshalling\<close>

definition lock_fields :: "(bytes \<Rightarrow> int res) \<Rightarrow> int \<Rightarrow> lock pb_field" where
  "lock_fields iu fieldNum =
     (if fieldNum = 1 then PbLen (\<lambda>bs m. Inr (m\<lparr>UnlockDate := bs\<rparr>))
      else if fieldNum = 2 then PbLen (\<lambda>bs m. bnd (iu bs) (\<lambda>x. Inr (m\<lparr>Amount := x\<rparr>)))
      else PbSkip)"

definition lock_Unmarshal :: "(bytes \<Rightarrow> int res) \<Rightarrow> bytes \<Rightarrow> lock res" where
  "lock_Unmarshal iu dAtA = pb_unmarshal (lock_fields iu) dAtA \<lparr>UnlockDate = [], Amount = 0\<rparr>"

definition locks_fields :: "(bytes \<Rightarrow> int res) \<Rightarrow> int \<Rightarrow> lock list pb_field" where
  "locks_fields iu fieldNum =
     (if fieldNum = 1 then PbLen (\<lambda>bs ls. bnd (lock_Unmarshal iu bs) (\<lambda>x. Inr (ls @ [x])))
      else PbSkip)"

definition locks_Unmarshal :: "(bytes \<Rightarrow> int res) \<Rightarrow> bytes \<Rightarrow> lock list res" where
  "locks_Unmarshal iu dAtA = pb_unmarshal (locks_fields iu) dAtA []"

lemma lock_fields_simps [simp]:
  "lock_fields iu 1 = PbLen (\<lambda>bs m. Inr (m\<lparr>UnlockDate := bs\<rparr>))"
  "lock_fields iu 2 = PbLen (\<lambda>bs m. bnd (iu bs) (\<lambda>x. Inr (m\<lparr>Amount := x\<rparr>)))"
  "locks_fields iu 1 = PbLen (\<lambda>bs ls. bnd (lock_Unmarshal iu bs) (\<lambda>x. Inr (ls @ [x])))"
  by (simp_all add: lock_fields_def locks_fields_def)

section \<open>The image of locks\<close>

definition lock_wire :: "(int \<Rightarrow> bytes) \<Rightarrow> lock \<Rightarrow> bytes" where
  "lock_wire enc m = str_field 1 (UnlockDate m) @ len_field 2 (enc (Amount m))"

definition locks_wire :: "(int \<Rightarrow> bytes) \<Rightarrow> lock list \<Rightarrow> bytes" where
  "locks_wire enc ls = msgs_field 1 (lock_wire enc) ls"

abbreviation amount_enc :: "(int \<Rightarrow> bytes res) \<Rightarrow> int \<Rightarrow> bytes" where
  "amount_enc \<equiv> enc_of"

text \<open>The locks whose amount can be marshalled.\<close>

definition lock_ok :: "(int \<Rightarrow> bytes res) \<Rightarrow> lock \<Rightarrow> bool" where
  "lock_ok im m \<longleftrightarrow> \<not> isl (im (Amount m))"

lemma lock_ok_enc: "lock_ok im m \<longleftrightarrow> im (Amount m) = Inr (amount_enc im (Amount m))"
  by (auto simp: lock_ok_def enc_of_def split: sum.splits)

lemma lock_Size_wire: "lock_ok im m \<Longrightarrow> lock_Size im m = length (lock_wire (amount_enc im) m)"
  by (simp add: lock_Size_def lock_wire_def)

lemma lock_writes: "lock_ok im m \<Longrightarrow> writes_buf (lock_MarshalToSizedBuffer im m) (lock_wire (amount_enc im) m)"
  unfolding lock_MarshalToSizedBuffer_def lock_wire_def
  by (intro wire_intros) (simp_all add: lock_ok_enc)

lemma locks_Size_wire:
  assumes "list_all (lock_ok im) ls"
  shows "locks_Size im ls = length (locks_wire (amount_enc im) ls)"
  using assms
  by (induction ls) (simp_all add: locks_Size_def locks_wire_def lock_Size_wire size_msgs_def)

lemma locks_writes:
  assumes "list_all (lock_ok im) ls"
  shows "writes_buf (locks_MarshalToSizedBuffer im ls) (locks_wire (amount_enc im) ls)"
  unfolding locks_MarshalToSizedBuffer_def locks_wire_def
  using assms by (intro wire_intros lock_writes) (simp_all add: list_all_iff)

lemma locks_Marshal_wire:
  "list_all (lock_ok im) ls \<Longrightarrow> locks_Marshal im ls = Inr (locks_wire (amount_enc im) ls)"
  using locks_writes [of im ls] locks_Size_wire [of im ls]
  by (simp add: writes_buf_def locks_Marshal_def pb_Marshal_def)

text \<open>Marshalling succeeds only if every amount can be marshalled.\<close>

lemma lock_Marshal_ok: "lock_MarshalToSizedBuffer im m p = Inr r \<Longrightarrow> lock_ok im m"
  by (auto simp: lock_MarshalToSizedBuffer_def sized_buffer_def put_foreign_def lock_ok_def)

lemma locks_Marshal_Inr:
  assumes "locks_Marshal im ls = Inr bz"
  shows "list_all (lock_ok im) ls" and "bz = locks_wire (amount_enc im) ls"
proof -
  from assms obtain r where "put_msgs 10 (lock_MarshalToSizedBuffer im) ls
      (replicate (locks_Size im ls) (char_of (0::nat)), int (locks_Size im ls)) = Inr r"
    by (auto simp: locks_Marshal_def pb_Marshal_def locks_MarshalToSizedBuffer_def sized_buffer_def)
  then show "list_all (lock_ok im) ls"
    using put_msgs_each lock_Marshal_ok by (metis list_all_iff)
  then show "bz = locks_wire (amount_enc im) ls"
    using assms locks_Marshal_wire by simp
qed

text \<open>For evaluation, the result without the buffer.\<close>

lemma locks_Marshal_code [code]:
  "locks_Marshal im ls =
     (if list_all (lock_ok im) ls then Inr (locks_wire (amount_enc im) ls)
      else pb_Marshal (locks_Size im ls) (locks_MarshalToSizedBuffer im ls))"
  by (simp add: locks_Marshal_wire) (simp add: locks_Marshal_def)

section \<open>Round trip\<close>

text \<open>The contract of \<open>math.Int\<close>'s binary codec.\<close>

locale int_codec =
  fixes im :: "int \<Rightarrow> bytes res" and iu :: "bytes \<Rightarrow> int res"
  assumes int_roundtrip: "im x = Inr bz \<Longrightarrow> iu bz = Inr x"
begin

lemma lock_Unmarshal_wire:
  assumes "lock_ok im m" and "length (lock_wire (amount_enc im) m) < 2 ^ 63"
  shows "lock_Unmarshal iu (lock_wire (amount_enc im) m) = Inr m"
proof -
  have "reads (lock_fields iu) (lock_wire (amount_enc im) m)
      (\<lambda>x. bnd (if UnlockDate m = [] then Inr x else Inr (x\<lparr>UnlockDate := UnlockDate m\<rparr>))
        (\<lambda>x. bnd (iu (amount_enc im (Amount m))) (\<lambda>y. Inr (x\<lparr>Amount := y\<rparr>))))"
    unfolding lock_wire_def by (intro reads_then reads_str reads_len) simp_all
  from reads_unmarshal [OF this assms(2)] show ?thesis
    using assms(1) int_roundtrip by (simp add: lock_Unmarshal_def lock_ok_enc)
qed

lemma locks_Unmarshal_wire:
  assumes "list_all (lock_ok im) ls" and "length (locks_wire (amount_enc im) ls) < 2 ^ 63"
  shows "locks_Unmarshal iu (locks_wire (amount_enc im) ls) = Inr ls"
proof -
  have app: "fold (\<lambda>x ls. ls @ [x]) es ls = ls @ es" for es ls :: "lock list"
    by (induction es arbitrary: ls) simp_all
  have "reads (locks_fields iu) (locks_wire (amount_enc im) ls) (\<lambda>m. Inr (fold (\<lambda>x ls. ls @ [x]) ls m))"
    unfolding locks_wire_def
    using assms by (intro reads_msgs [where un = "lock_Unmarshal iu"] lock_Unmarshal_wire) (simp_all add: list_all_iff)
  from reads_unmarshal [OF this assms(2)] show ?thesis by (simp add: locks_Unmarshal_def app)
qed

end

sublocale int_codec \<subseteq> stored_lock: pb_message "lock_Size im" "lock_MarshalToSizedBuffer im"
  "lock_Unmarshal iu" "lock_wire (amount_enc im)" "lock_ok im"
  by unfold_locales (simp_all add: lock_Size_wire lock_writes lock_Unmarshal_wire)

sublocale int_codec \<subseteq> stored_locks: pb_message "locks_Size im" "locks_MarshalToSizedBuffer im"
  "locks_Unmarshal iu" "locks_wire (amount_enc im)" "list_all (lock_ok im)"
  by unfold_locales (simp_all add: locks_Size_wire locks_writes locks_Unmarshal_wire)

context int_codec
begin

theorem locks_codec_roundtrip:
  assumes "locks_Marshal im ls = Inr bz" and "length bz < 2 ^ 63"
  shows "locks_Unmarshal iu bz = Inr ls"
  using locks_Marshal_Inr [OF assms(1)] locks_Unmarshal_wire assms(2) by simp

end

end
