(* ===== verification/Sdk.thy ===== *)
theory Sdk
  imports Go_Time Lock_Codec
begin

text \<open>
  The third-party code the chain's modules call: the module's key-value store, the bank, staking
  and account keepers (\<open>x/lockup/types/expected_keepers.go\<close>), the address codecs, the coin
  constructors and the \<open>math.Int\<close> codec. They are the fields of the record \<open>sdk\<close>, an argument of
  every definition that uses them; \<open>'w\<close> is the state they work on (the multistore of a block) and
  \<open>'v\<close> the staking module's validator type. The locales \<open>kv_store\<close> and \<open>lockup_env\<close> state the
  documented behaviour the lockup module relies on.
\<close>

record coin =
  Denom :: string
  CoinAmount :: int

abbreviation coin_IsPositive :: "coin \<Rightarrow> bool" where
  "coin_IsPositive c \<equiv> 0 < CoinAmount c"

text \<open>A \<open>LegacyDec\<close> is an integer scaled by \<open>10^18\<close>.\<close>

type_synonym dec = int

definition dec_unit :: int where
  "dec_unit = 1000000000000000000"

definition dec_Ceil :: "dec \<Rightarrow> dec" where
  "dec_Ceil d = - ((- d) div dec_unit) * dec_unit"

definition dec_TruncateInt :: "dec \<Rightarrow> int" where
  "dec_TruncateInt d = trunc_div d dec_unit"

lemma trunc_div_mult: "0 < k \<Longrightarrow> trunc_div (a * k) k = a"
  by (simp add: trunc_div_def abs_mult sgn_mult sgn_mult_abs)

lemma dec_ceil_truncate: "dec_TruncateInt (dec_Ceil d) = - ((- d) div dec_unit)"
  unfolding dec_TruncateInt_def dec_Ceil_def by (rule trunc_div_mult) (simp add: dec_unit_def)

record delegation =
  GetValidatorAddr :: string
  GetShares :: dec

record ('w, 'v) sdk =
  kvGet :: "'w \<Rightarrow> bytes \<Rightarrow> bytes option res"
  kvSet :: "'w \<Rightarrow> bytes \<Rightarrow> bytes \<Rightarrow> 'w res"
  kvDelete :: "'w \<Rightarrow> bytes \<Rightarrow> 'w res"
  kvIterator :: "'w \<Rightarrow> bytes \<Rightarrow> bytes option \<Rightarrow> (bytes \<times> bytes) list res"
  IntMarshal :: "int \<Rightarrow> bytes res"
  IntUnmarshal :: "bytes \<Rightarrow> int res"
  AccAddressFromBech32 :: "string \<Rightarrow> addr res"
  ValAddressFromBech32 :: "string \<Rightarrow> valaddr res"
  AccAddressString :: "addr \<Rightarrow> string"
  NewCoin :: "string \<Rightarrow> int \<Rightarrow> coin res"
  NewCoins :: "coin \<Rightarrow> coin list res"
  AmountOf :: "coin list \<Rightarrow> string \<Rightarrow> int"
  BondDenom :: "'w \<Rightarrow> string res"
  GetValidator :: "'w \<Rightarrow> valaddr \<Rightarrow> 'v res"
  GetDelegation :: "'w \<Rightarrow> addr \<Rightarrow> valaddr \<Rightarrow> delegation res"
  GetDelegatorDelegations :: "'w \<Rightarrow> addr \<Rightarrow> nat \<Rightarrow> delegation list res"
  TokensFromShares :: "'v \<Rightarrow> dec \<Rightarrow> dec res"
  Delegate :: "'w \<Rightarrow> addr \<Rightarrow> int \<Rightarrow> 'v \<Rightarrow> ('w \<times> dec) res"
  HasAccount :: "'w \<Rightarrow> addr \<Rightarrow> bool"
  GetBalance :: "'w \<Rightarrow> addr \<Rightarrow> string \<Rightarrow> int"
  SendCoins :: "'w \<Rightarrow> addr \<Rightarrow> addr \<Rightarrow> coin list \<Rightarrow> 'w res"

text \<open>
  What the code reads of an \<open>sdk.Context\<close>: the block time and height, and the set of
  \<open>delegator+validator\<close> keys stored under \<open>redelegatingKey\<close>.
\<close>

record sdk_ctx =
  BlockTime :: gotime
  BlockHeight :: int
  redelegatingSet :: "string set"

text \<open>An emitted event: its type and its attributes.\<close>

type_synonym event = "string \<times> (string \<times> string) list"

section \<open>The key-value store\<close>

definition key_in_range :: "bytes \<Rightarrow> bytes option \<Rightarrow> bytes \<Rightarrow> bool" where
  "key_in_range s e k \<longleftrightarrow> s \<le> k \<and> (case e of None \<Rightarrow> True | Some u \<Rightarrow> k < u)"

text \<open>
  The store of the module, seen as a map from keys to values. A successful write is seen by
  later reads and touches no other key; an iterator delivers the entries of its range in
  ascending key order; values longer than \<open>2^31 - 1\<close> bytes are refused.
\<close>

locale kv_store =
  fixes K :: "('w, 'v) sdk" and view :: "'w \<Rightarrow> bytes \<Rightarrow> bytes option"
  assumes get_view: "kvGet K w k = Inr r \<Longrightarrow> r = view w k"
    and set_view: "kvSet K w k v = Inr w' \<Longrightarrow> view w' = (view w)(k := Some v)"
    and set_length: "kvSet K w k v = Inr w' \<Longrightarrow> length v < 2 ^ 31"
    and delete_view: "kvDelete K w k = Inr w' \<Longrightarrow> view w' = (view w)(k := None)"
    and iterator_sorted: "kvIterator K w s e = Inr kvs \<Longrightarrow> sorted_wrt (<) (map fst kvs)"
    and iterator_entries: "kvIterator K w s e = Inr kvs \<Longrightarrow>
      (k, v) \<in> set kvs \<longleftrightarrow> view w k = Some v \<and> key_in_range s e k"
begin

lemma iterator_distinct:
  assumes "kvIterator K w s e = Inr kvs"
  shows "distinct (map fst kvs)"
  using iterator_sorted [OF assms] by (simp add: strict_sorted_iff)

lemma iterator_values:
  assumes "kvIterator K w s e = Inr kvs"
  shows "kvs = map (\<lambda>k. (k, the (view w k))) (map fst kvs)"
proof -
  have "map (\<lambda>kv. (fst kv, the (view w (fst kv)))) kvs = kvs"
    by (rule map_idI) (use iterator_entries [OF assms] in auto)
  then show ?thesis by (simp add: comp_def)
qed

text \<open>An iterator opened at a key of another one's range delivers the rest of it.\<close>

lemma iterator_suffix:
  assumes kvs: "kvIterator K w s e = Inr kvs" and n: "n < length kvs"
    and kvs': "kvIterator K w (fst (kvs ! n)) e = Inr kvs'"
  shows "kvs' = drop n kvs"
proof -
  have split: "map fst kvs = map fst (take n kvs) @ fst (kvs ! n) # map fst (drop (Suc n) kvs)"
    using n by (metis id_take_nth_drop list.simps(9) map_append)
  have sorted: "sorted_wrt (<) (map fst (drop n kvs))"
    using iterator_sorted [OF kvs] by (simp add: drop_map [symmetric] sorted_wrt_drop)
  have "set (map fst kvs') = set (map fst (drop n kvs))"
  proof (intro set_eqI iffI)
    fix k assume "k \<in> set (map fst kvs')"
    then obtain v where "(k, v) \<in> set kvs'" by auto
    then have v: "view w k = Some v" "fst (kvs ! n) \<le> k" "key_in_range (fst (kvs ! n)) e k"
      using iterator_entries [OF kvs'] by (simp_all add: key_in_range_def)
    have "s \<le> fst (kvs ! n)"
      using iterator_entries [OF kvs, of "fst (kvs ! n)" "snd (kvs ! n)"] n by (simp add: key_in_range_def)
    with v have "(k, v) \<in> set kvs" using iterator_entries [OF kvs] by (auto simp: key_in_range_def)
    moreover have "k \<notin> set (map fst (take n kvs))"
      using iterator_sorted [OF kvs] v(2) unfolding split by (auto simp: sorted_wrt_append)
    ultimately show "k \<in> set (map fst (drop n kvs))"
      by (metis append_take_drop_id fst_conv image_eqI list.set_map map_append set_append Un_iff)
  next
    fix k assume "k \<in> set (map fst (drop n kvs))"
    then obtain v where kv: "(k, v) \<in> set (drop n kvs)" by auto
    have "fst (kvs ! n) \<le> k"
      using kv sorted n by (cases "drop n kvs") (auto simp: Cons_nth_drop_Suc [symmetric] less_imp_le)
    then have "(k, v) \<in> set kvs'"
      using iterator_entries [OF kvs'] iterator_entries [OF kvs] in_set_dropD [OF kv]
      by (auto simp: key_in_range_def)
    then show "k \<in> set (map fst kvs')" by force
  qed
  then have keys: "map fst kvs' = map fst (drop n kvs)"
    using iterator_sorted [OF kvs'] sorted by (metis strict_sorted_equal)
  have "drop n kvs = map (\<lambda>k. (k, the (view w k))) (map fst (drop n kvs))"
    using iterator_values [OF kvs] by (metis drop_map)
  with iterator_values [OF kvs'] keys show ?thesis by metis
qed

lemma iterator_map_of:
  assumes "kvIterator K w s e = Inr kvs"
  shows "map_of kvs k = (if key_in_range s e k then view w k else None)"
proof (cases "map_of kvs k")
  case None
  then have "(k, v) \<notin> set kvs" for v
    by (metis map_of_eq_None_iff image_eqI fst_conv)
  with None show ?thesis
    using iterator_entries [OF assms] by (cases "view w k") auto
next
  case (Some v)
  then have "(k, v) \<in> set kvs" by (rule map_of_SomeD)
  with Some show ?thesis
    using iterator_entries [OF assms] by auto
qed

end

text \<open>
  The environment of the lockup module: its own store, the amount codec, and the fact that the
  bank and staking keepers hold no key to the module's store and leave it as it is. A new coin has
  the denom and amount it was made from.
\<close>

locale lockup_env = kv_store K view + int_codec "IntMarshal K" "IntUnmarshal K"
  for K :: "('w, 'v) sdk" and view :: "'w \<Rightarrow> bytes \<Rightarrow> bytes option" +
  assumes send_view: "SendCoins K w a b cs = Inr w' \<Longrightarrow> view w' = view w"
    and delegate_view: "Delegate K w a x v = Inr (w', s) \<Longrightarrow> view w' = view w"
    and new_coin: "NewCoin K d x = Inr c \<Longrightarrow> c = \<lparr>Denom = d, CoinAmount = x\<rparr>"

end
