(* ===== verification/Lock_Store.thy ===== *)
theory Lock_Store
  imports Sdk "HOL-Library.Multiset"
begin

text \<open>
  The locks of an address: \<open>x/lockup/keeper/locks_by_address_store.go\<close>, \<open>x/lockup/types/keys.go\<close>
  and \<open>x/lockup/types/helpers.go\<close>. One store key per address holds the list of its locks in the
  order of their unlock dates. The lemmas abstract the byte store to a function from addresses to
  lock lists and show what each operation does to it.
\<close>

section \<open>Keys\<close>

definition LocksByDateKey :: bytes where
  "LocksByDateKey = ''locks_by_date''"

definition LocksByAddressKey :: bytes where
  "LocksByAddressKey = ''locks_by_address''"

definition TotalLockedKey :: bytes where
  "TotalLockedKey = ''total_locked''"

definition GetLocksByAddressKey :: "addr \<Rightarrow> bytes" where
  "GetLocksByAddressKey addr = LocksByAddressKey @ addr"

section \<open>Operations\<close>

definition IsLocked :: "gotime \<Rightarrow> string \<Rightarrow> bool" where
  "IsLocked currentDate unlockDate =
     (case Parse_DateOnly unlockDate of
        Inl _ \<Rightarrow> False
      | Inr unlockTime \<Rightarrow> currentDate < unlockTime)"

definition GetLocksByAddress :: "('w, 'v) sdk \<Rightarrow> 'w \<Rightarrow> addr \<Rightarrow> lock list res" where
  "GetLocksByAddress K w addr =
     bnd (kvGet K w (GetLocksByAddressKey addr)) (\<lambda>bz.
     case bz of None \<Rightarrow> Inr [] | Some bz \<Rightarrow> locks_Unmarshal (IntUnmarshal K) bz)"

definition GetLockedAmountByAddress :: "('w, 'v) sdk \<Rightarrow> sdk_ctx \<Rightarrow> 'w \<Rightarrow> addr \<Rightarrow> int res" where
  "GetLockedAmountByAddress K ctx w addr =
     bnd (GetLocksByAddress K w addr) (\<lambda>locks.
     foldM (\<lambda>total lock.
         if IsLocked (blockDay (BlockTime ctx)) (UnlockDate lock) then int_add total (Amount lock)
         else Inr total) 0 locks)"

text \<open>The insertion loop of \<open>SetLockByAddress\<close>.\<close>

fun insert_lock :: "lock \<Rightarrow> lock list \<Rightarrow> lock list" where
  "insert_lock lock [] = [lock]"
| "insert_lock lock (existing # rest) =
     (if UnlockDate lock < UnlockDate existing then lock # existing # rest
      else existing # insert_lock lock rest)"

definition SetLockByAddress :: "('w, 'v) sdk \<Rightarrow> 'w \<Rightarrow> addr \<Rightarrow> lock \<Rightarrow> 'w res" where
  "SetLockByAddress K w addr lock =
     (let key = GetLocksByAddressKey addr
      in bnd (kvGet K w key) (\<lambda>bz.
         bnd (case bz of None \<Rightarrow> Inr [] | Some bz \<Rightarrow> locks_Unmarshal (IntUnmarshal K) bz) (\<lambda>locksList.
         bnd (locks_Marshal (IntMarshal K) (insert_lock lock locksList)) (\<lambda>bz.
         kvSet K w key bz))))"

definition SetLocksByAddress :: "('w, 'v) sdk \<Rightarrow> 'w \<Rightarrow> addr \<Rightarrow> lock list \<Rightarrow> 'w res" where
  "SetLocksByAddress K w addr locks =
     (let key = GetLocksByAddressKey addr
      in if length locks = 0 then kvDelete K w key
         else bnd (locks_Marshal (IntMarshal K) locks) (\<lambda>bz. kvSet K w key bz))"

text \<open>The search loop of \<open>GetLockByAddressAndDate\<close>: first lock with the date and its index.\<close>

fun find_lock :: "string \<Rightarrow> nat \<Rightarrow> lock list \<Rightarrow> (lock \<times> nat) option" where
  "find_lock date idx [] = None"
| "find_lock date idx (lock # rest) =
     (if UnlockDate lock = date then Some (lock, idx) else find_lock date (Suc idx) rest)"

definition GetLockByAddressAndDate ::
    "('w, 'v) sdk \<Rightarrow> 'w \<Rightarrow> addr \<Rightarrow> string \<Rightarrow> (lock \<times> nat) option res" where
  "GetLockByAddressAndDate K w addr unlockDate =
     (case GetLocksByAddress K w addr of
        Inl err \<Rightarrow> if stops err then Inl err else Inr None
      | Inr locks \<Rightarrow> Inr (find_lock unlockDate 0 locks))"

definition DeleteLocksByAddress :: "('w, 'v) sdk \<Rightarrow> 'w \<Rightarrow> addr \<Rightarrow> 'w res" where
  "DeleteLocksByAddress K w addr = kvDelete K w (GetLocksByAddressKey addr)"

definition DeleteLockByAddressAndIndex :: "('w, 'v) sdk \<Rightarrow> 'w \<Rightarrow> addr \<Rightarrow> int \<Rightarrow> 'w res" where
  "DeleteLockByAddressAndIndex K w addr index =
     bnd (GetLocksByAddress K w addr) (\<lambda>locks.
     if index < 0 \<or> int (length locks) \<le> index
     then Inl (ErrInvalidRequest ''lock doesn't exist at index'')
     else SetLocksByAddress K w addr (take (nat index) locks @ drop (nat index + 1) locks))"

definition UpdateLockByAddressAndIndex ::
    "('w, 'v) sdk \<Rightarrow> 'w \<Rightarrow> addr \<Rightarrow> int \<Rightarrow> lock \<Rightarrow> 'w res" where
  "UpdateLockByAddressAndIndex K w addr index lock =
     bnd (GetLocksByAddress K w addr) (\<lambda>locks.
     if index < 0 \<or> int (length locks) \<le> index
     then Inl (ErrInvalidRequest ''lock doesn't exist at index'')
     else SetLocksByAddress K w addr (locks[nat index := lock]))"

section \<open>Lists of locks\<close>

text \<open>A list of locks in the order of its dates, with no date twice.\<close>

definition date_sorted :: "lock list \<Rightarrow> bool" where
  "date_sorted ls = sorted_wrt (<) (map UnlockDate ls)"

text \<open>The amount an address may not touch on a given day.\<close>

definition locked_sum :: "gotime \<Rightarrow> lock list \<Rightarrow> int" where
  "locked_sum day ls = (\<Sum>l \<leftarrow> ls. if IsLocked day (UnlockDate l) then Amount l else 0)"

text \<open>A well-formed list: sorted, every date a calendar date from 1970 on, every
  amount positive.\<close>

definition locks_wf :: "lock list \<Rightarrow> bool" where
  "locks_wf ls \<longleftrightarrow> date_sorted ls \<and>
     (\<forall>l \<in> set ls. (\<exists>t. Parse_DateOnly (UnlockDate l) = Inr t \<and> 0 \<le> t) \<and> 0 < Amount l)"

lemma IsLocked_iff: "IsLocked day d \<longleftrightarrow> (\<exists>t. Parse_DateOnly d = Inr t \<and> day < t)"
  by (simp add: IsLocked_def split: sum.split)

lemma IsLocked_parsed: "Parse_DateOnly d = Inr t \<Longrightarrow> IsLocked day d \<longleftrightarrow> day < t"
  by (simp add: IsLocked_def)

lemma IsLocked_mono: "IsLocked day d \<Longrightarrow> day' \<le> day \<Longrightarrow> IsLocked day' d"
  by (auto simp: IsLocked_iff)

lemma insert_lock_split:
  "\<exists>i \<le> length ls. insert_lock l ls = take i ls @ l # drop i ls"
proof (induction ls)
  case Nil
  then show ?case by simp
next
  case (Cons x ls)
  then obtain i where "i \<le> length ls" "insert_lock l ls = take i ls @ l # drop i ls" by blast
  then show ?case
    by (cases "UnlockDate l < UnlockDate x")
      (force intro: exI [of _ 0], force intro: exI [of _ "Suc i"])
qed

lemma set_insert_lock [simp]: "set (insert_lock l ls) = insert l (set ls)"
  by (induction ls) auto

lemma mset_insert_lock [simp]: "mset (insert_lock l ls) = add_mset l (mset ls)"
  by (induction ls) auto

lemma sum_insert_lock: "sum_list (map f (insert_lock l ls)) = f l + (\<Sum>x \<leftarrow> ls. f x :: int)"
  by (induction ls) auto

lemma insert_lock_sorted:
  "date_sorted ls \<Longrightarrow> UnlockDate l \<notin> UnlockDate ` set ls \<Longrightarrow> date_sorted (insert_lock l ls)"
  unfolding date_sorted_def by (induction ls) (auto intro: less_trans)

lemma find_lock_Some:
  "find_lock d n ls = Some (l, i) \<Longrightarrow>
     n \<le> i \<and> i - n < length ls \<and> ls ! (i - n) = l \<and> UnlockDate l = d"
proof (induction ls arbitrary: n)
  case Nil
  then show ?case by simp
next
  case (Cons x ls)
  show ?case
  proof (cases "UnlockDate x = d")
    case True
    with Cons.prems show ?thesis by simp
  next
    case False
    with Cons.prems have "find_lock d (Suc n) ls = Some (l, i)" by simp
    from Cons.IH [OF this] have "Suc n \<le> i" "i - Suc n < length ls" "ls ! (i - Suc n) = l"
      "UnlockDate l = d" by simp_all
    then show ?thesis by (simp add: nth_Cons' less_Suc_eq_le)
  qed
qed

lemma find_lock_None: "find_lock d n ls = None \<longleftrightarrow> d \<notin> UnlockDate ` set ls"
  by (induction ls arbitrary: n) auto

lemma date_sorted_distinct: "date_sorted ls \<Longrightarrow> distinct (map UnlockDate ls)"
  by (simp add: date_sorted_def strict_sorted_iff)

lemma date_sorted_update:
  assumes "date_sorted ls" "i < length ls" "UnlockDate l = UnlockDate (ls ! i)"
  shows "date_sorted (ls[i := l])"
proof -
  have "map UnlockDate (ls[i := l]) = map UnlockDate ls"
    using assms(2,3) by (simp add: map_update list_update_same_conv)
  with assms(1) show ?thesis by (simp add: date_sorted_def)
qed

lemma date_sorted_remove: "date_sorted ls \<Longrightarrow> date_sorted (take i ls @ drop (Suc i) ls)"
  unfolding date_sorted_def
proof (induction ls arbitrary: i)
  case Nil
  then show ?case by simp
next
  case (Cons x ls)
  then show ?case
    by (cases i) (auto dest: in_set_takeD in_set_dropD)
qed

section \<open>The abstract book\<close>

text \<open>
  The book of a state: for every address, the list of locks its key decodes to. An absent key is
  an empty list.
\<close>

definition book :: "('w, 'v) sdk \<Rightarrow> ('w \<Rightarrow> bytes \<Rightarrow> bytes option) \<Rightarrow> 'w \<Rightarrow> addr \<Rightarrow> lock list" where
  "book K view w addr =
     (case view w (GetLocksByAddressKey addr) of
        None \<Rightarrow> []
      | Some bz \<Rightarrow> (case locks_Unmarshal (IntUnmarshal K) bz of Inl _ \<Rightarrow> [] | Inr ls \<Rightarrow> ls))"

lemma GetLocksByAddressKey_inj [simp]: "GetLocksByAddressKey a = GetLocksByAddressKey b \<longleftrightarrow> a = b"
  by (simp add: GetLocksByAddressKey_def)

lemma book_cong: "view w' = view w \<Longrightarrow> book K view w' = book K view w"
  by (intro ext) (simp add: book_def)

lemma GetLockedAmount_loop:
  "foldM (\<lambda>total l. if IsLocked day (UnlockDate l) then int_add total (Amount l) else Inr total) x ls = Inr y
     \<Longrightarrow> y = x + locked_sum day ls"
proof (induction ls arbitrary: x)
  case Nil
  then show ?case by (simp add: locked_sum_def)
next
  case (Cons l ls)
  show ?case
  proof (cases "IsLocked day (UnlockDate l)")
    case True
    with Cons.prems have "y = (x + Amount l) + locked_sum day ls"
      by (intro Cons.IH) (auto simp: int_op_Inr)
    with True show ?thesis by (simp add: locked_sum_def)
  next
    case False
    with Cons.prems have "y = x + locked_sum day ls" by (intro Cons.IH) simp
    with False show ?thesis by (simp add: locked_sum_def)
  qed
qed

lemma GetLockedAmount_loop_fits:
  assumes "\<forall>l \<in> set ls. 0 \<le> Amount l" "0 \<le> x" "int_fits (x + locked_sum day ls)"
  shows "foldM (\<lambda>total l. if IsLocked day (UnlockDate l) then int_add total (Amount l) else Inr total) x ls
    = Inr (x + locked_sum day ls)"
  using assms
proof (induction ls arbitrary: x)
  case Nil
  then show ?case by (simp add: locked_sum_def)
next
  case (Cons l ls)
  have "0 \<le> locked_sum day ls"
    using Cons.prems(1) by (auto simp: locked_sum_def intro!: sum_list_map_nonneg)
  moreover have "int_fits (x + Amount l)" if "IsLocked day (UnlockDate l)"
    by (rule int_fits_le [OF Cons.prems(3)]) (use that Cons.prems calculation in \<open>auto simp: locked_sum_def\<close>)
  ultimately show ?case
    using Cons by (auto simp: locked_sum_def int_op_defs add.assoc)
qed

context lockup_env
begin

lemma locks_stored:
  assumes "locks_Marshal (IntMarshal K) ls = Inr bz" "kvSet K w (GetLocksByAddressKey a) bz = Inr w'"
  shows "book K view w' = (book K view w)(a := ls)"
proof -
  have "length bz < 2 ^ 63" using set_length [OF assms(2)] by simp
  with assms(1) have "locks_Unmarshal (IntUnmarshal K) bz = Inr ls"
    by (rule locks_codec_roundtrip)
  then show ?thesis
    using set_view [OF assms(2)] by (auto simp: book_def)
qed

lemma GetLocksByAddress_book: "GetLocksByAddress K w a = Inr ls \<Longrightarrow> book K view w a = ls"
  by (auto simp: GetLocksByAddress_def book_def dest!: get_view split: option.splits)

lemma SetLocksByAddress_book:
  assumes "SetLocksByAddress K w a ls = Inr w'"
  shows "book K view w' = (book K view w)(a := ls)"
proof (cases "ls = []")
  case True
  with assms show ?thesis
    by (auto simp: SetLocksByAddress_def Let_def book_def dest!: delete_view)
next
  case False
  with assms show ?thesis
    by (auto simp: SetLocksByAddress_def Let_def intro: locks_stored)
qed

lemma SetLockByAddress_book:
  assumes "SetLockByAddress K w a l = Inr w'"
  shows "book K view w' = (book K view w)(a := insert_lock l (book K view w a))"
proof -
  from assms obtain ls bz where ls: "GetLocksByAddress K w a = Inr ls"
    and bz: "locks_Marshal (IntMarshal K) (insert_lock l ls) = Inr bz"
      "kvSet K w (GetLocksByAddressKey a) bz = Inr w'"
    by (auto simp: SetLockByAddress_def GetLocksByAddress_def Let_def)
  show ?thesis
    using locks_stored [OF bz] GetLocksByAddress_book [OF ls] by simp
qed

lemma UpdateLockByAddressAndIndex_book:
  assumes "UpdateLockByAddressAndIndex K w a i l = Inr w'"
  shows "0 \<le> i \<and> nat i < length (book K view w a)"
    and "book K view w' = (book K view w)(a := (book K view w a)[nat i := l])"
  using assms
  by (auto simp: UpdateLockByAddressAndIndex_def split: if_splits
      dest!: GetLocksByAddress_book SetLocksByAddress_book)

lemma DeleteLockByAddressAndIndex_book:
  assumes "DeleteLockByAddressAndIndex K w a i = Inr w'"
  shows "0 \<le> i \<and> nat i < length (book K view w a)"
    and "book K view w' =
      (book K view w)(a := take (nat i) (book K view w a) @ drop (Suc (nat i)) (book K view w a))"
  using assms
  by (auto simp: DeleteLockByAddressAndIndex_def split: if_splits
      dest!: GetLocksByAddress_book SetLocksByAddress_book)

lemma DeleteLocksByAddress_book:
  "DeleteLocksByAddress K w a = Inr w' \<Longrightarrow> book K view w' = (book K view w)(a := [])"
  by (auto simp: DeleteLocksByAddress_def book_def dest!: delete_view)

lemma GetLockByAddressAndDate_Some:
  assumes "GetLockByAddressAndDate K w a d = Inr (Some (l, i))"
  shows "i < length (book K view w a) \<and> book K view w a ! i = l \<and> UnlockDate l = d"
  using assms
  by (auto simp: GetLockByAddressAndDate_def split: sum.splits if_splits
      dest!: find_lock_Some GetLocksByAddress_book)

lemma GetLockByAddressAndDate_None:
  assumes "GetLockByAddressAndDate K w a d = Inr None" "GetLocksByAddress K w a = Inr ls"
  shows "d \<notin> UnlockDate ` set (book K view w a)"
  using assms by (simp add: GetLockByAddressAndDate_def find_lock_None GetLocksByAddress_book)

lemma GetLockedAmountByAddress_Inr:
  "GetLockedAmountByAddress K ctx w a = Inr n \<Longrightarrow>
     n = locked_sum (blockDay (BlockTime ctx)) (book K view w a)"
  by (auto simp: GetLockedAmountByAddress_def dest!: GetLocksByAddress_book GetLockedAmount_loop)

end

end
