(* ===== verification/Expiry_Queue.thy ===== *)
theory Expiry_Queue
  imports Lock_Store
begin

text \<open>
  The queue of locks by unlock time: \<open>x/lockup/keeper/locks_by_date_store.go\<close>. One store key per
  unlock time and address, the time in big-endian order so that the store's iterators visit the
  entries by time. The lemmas abstract it to a function from (time, address) to amounts, show
  what adding and removing do to it and to the book, and which entries the iterations visit.
\<close>

section \<open>Big-endian integers\<close>

text \<open>\<open>binary.BigEndian.PutUint64\<close> and \<open>binary.BigEndian.Uint64\<close>.\<close>

fun be_bytes :: "nat \<Rightarrow> int \<Rightarrow> bytes" where
  "be_bytes 0 x = []"
| "be_bytes (Suc k) x = be_bytes k (x div 256) @ [char_of (nat (x mod 256))]"

definition be_val :: "bytes \<Rightarrow> int" where
  "be_val s = foldl (\<lambda>a c. 256 * a + int (byte_val c)) 0 s"

definition PutUint64 :: "64 word \<Rightarrow> bytes" where
  "PutUint64 v = be_bytes 8 (uint v)"

definition Uint64 :: "bytes \<Rightarrow> 64 word" where
  "Uint64 bz = of_int (be_val bz)"

section \<open>Operations\<close>

definition GetTotalLocked :: "('w, 'v) sdk \<Rightarrow> 'w \<Rightarrow> int res" where
  "GetTotalLocked K w =
     bnd (kvGet K w TotalLockedKey) (\<lambda>bz.
     case bz of None \<Rightarrow> Inr 0 | Some bz \<Rightarrow> IntUnmarshal K bz)"

definition GetLockExpirationKey :: "gotime \<Rightarrow> addr \<Rightarrow> bytes" where
  "GetLockExpirationKey unlockTime addr =
     LocksByDateKey @ PutUint64 (of_int (Unix unlockTime)) @ addr"

definition AddToExpirationQueue ::
    "('w, 'v) sdk \<Rightarrow> 'w \<Rightarrow> gotime \<Rightarrow> addr \<Rightarrow> int \<Rightarrow> 'w res" where
  "AddToExpirationQueue K w unlockTime addr amount =
     (let key = GetLockExpirationKey unlockTime addr
      in bnd (kvGet K w key) (\<lambda>bz.
         bnd (case bz of None \<Rightarrow> Inr 0 | Some bz \<Rightarrow> IntUnmarshal K bz) (\<lambda>currentAmount.
         bnd (int_add currentAmount amount) (\<lambda>newAmount.
         bnd (IntMarshal K newAmount) (\<lambda>bz.
         kvSet K w key bz)))))"

definition RemoveFromExpirationQueue ::
    "('w, 'v) sdk \<Rightarrow> 'w \<Rightarrow> gotime \<Rightarrow> addr \<Rightarrow> int \<Rightarrow> 'w res" where
  "RemoveFromExpirationQueue K w unlockTime addr amount =
     (let key = GetLockExpirationKey unlockTime addr
      in bnd (kvGet K w key) (\<lambda>bz.
         case bz of
           None \<Rightarrow> Inr w
         | Some bz \<Rightarrow>
             bnd (IntUnmarshal K bz) (\<lambda>currentAmount.
             if currentAmount < amount then Inl ErrInvalidAmount
             else bnd (int_sub currentAmount amount) (\<lambda>newAmount.
               if newAmount = 0 then kvDelete K w key
               else bnd (IntMarshal K newAmount) (\<lambda>bz. kvSet K w key bz)))))"

text \<open>The time and the address in a key of the queue.\<close>

definition key_time :: "bytes \<Rightarrow> gotime" where
  "key_time key = from_Unix (sint (Uint64 (take 8 (drop (length LocksByDateKey) key))))"

definition key_addr :: "bytes \<Rightarrow> addr" where
  "key_addr key = drop (length LocksByDateKey + 8) key"

text \<open>
  The callback is a function on the caller's own state: \<open>TotalLockedAmount\<close> accumulates into a
  local variable.
\<close>

definition IterateActiveLocks ::
    "('w, 'v) sdk \<Rightarrow> 'w \<Rightarrow> gotime \<Rightarrow> ('s \<Rightarrow> addr \<Rightarrow> gotime \<Rightarrow> int \<Rightarrow> 's res) \<Rightarrow> 's \<Rightarrow> 's res" where
  "IterateActiveLocks K w currentTime cb s =
     bnd (kvIterator K w (LocksByDateKey @ PutUint64 (of_int (Unix currentTime + 1))) None) (\<lambda>iter.
     foldM (\<lambda>s (key, val).
         if length key < length LocksByDateKey + 8 then Inr s
         else bnd (IntUnmarshal K val) (\<lambda>amount. cb s (key_addr key) (key_time key) amount)) s iter)"

text \<open>
  Here the loop deletes each visited entry; the callback works on the store's state. The iterator
  delivers the entries that were in its range when it was opened.
\<close>

definition IterateAndDeleteExpiredLocks ::
    "('w, 'v) sdk \<Rightarrow> 'w \<Rightarrow> gotime \<Rightarrow> ('w \<Rightarrow> addr \<Rightarrow> gotime \<Rightarrow> int \<Rightarrow> 'w res) \<Rightarrow> 'w res" where
  "IterateAndDeleteExpiredLocks K w cutoffTime cb =
     bnd (kvIterator K w LocksByDateKey
            (Some (LocksByDateKey @ PutUint64 (of_int (Unix cutoffTime + 1))))) (\<lambda>iter.
     foldM (\<lambda>w (key, val).
         if length key < length LocksByDateKey + 8 then Inl (GoPanic ''slice bounds out of range'')
         else bnd (IntUnmarshal K val) (\<lambda>amount.
              bnd (cb w (key_addr key) (key_time key) amount) (\<lambda>w.
              kvDelete K w key))) w iter)"

section \<open>Order of the keys\<close>

lemma be_val_Nil [simp]: "be_val [] = 0"
  by (simp add: be_val_def)

lemma be_val_snoc [simp]: "be_val (s @ [c]) = 256 * be_val s + int (byte_val c)"
  by (simp add: be_val_def)

lemma length_be_bytes [simp]: "length (be_bytes k x) = k"
  by (induction k arbitrary: x) auto

lemma byte_val_char_of_mod [simp]: "int (byte_val (char_of (nat (x mod 256)))) = x mod 256"
proof -
  have "nat (x mod 256) < 256" by (simp add: nat_less_iff)
  then show ?thesis by simp
qed

lemma be_val_be_bytes: "0 \<le> x \<Longrightarrow> x < 256 ^ k \<Longrightarrow> be_val (be_bytes k x) = x"
proof (induction k arbitrary: x)
  case 0
  then show ?case by simp
next
  case (Suc k)
  then have "0 \<le> x div 256" "x div 256 < 256 ^ k" by simp_all
  then have "be_val (be_bytes k (x div 256)) = x div 256" by (rule Suc.IH)
  then show ?case by simp
qed

lemma less_div_mod:
  fixes x y :: int
  assumes "0 < k"
  shows "x < y \<longleftrightarrow> x div k < y div k \<or> x div k = y div k \<and> x mod k < y mod k"
proof -
  have "x div k \<le> y div k" if "x < y" using that assms by (simp add: zdiv_mono1)
  moreover have "x < y" if "x div k < y div k"
    using that zdiv_mono1 [of y x k] assms by linarith
  moreover have "x < y \<longleftrightarrow> x mod k < y mod k" if "x div k = y div k"
    using div_mult_mod_eq [of x k] div_mult_mod_eq [of y k]
    unfolding that by (metis add_less_cancel_left)
  ultimately show ?thesis by fastforce
qed

lemma be_bytes_eq:
  assumes "0 \<le> x" "x < 256 ^ k" "0 \<le> y" "y < 256 ^ k"
  shows "be_bytes k x = be_bytes k y \<longleftrightarrow> x = y"
  using be_val_be_bytes [OF assms(1,2)] be_val_be_bytes [OF assms(3,4)] by metis

lemma be_bytes_less:
  "0 \<le> x \<Longrightarrow> x < 256 ^ k \<Longrightarrow> 0 \<le> y \<Longrightarrow> y < 256 ^ k \<Longrightarrow> be_bytes k x < be_bytes k y \<longleftrightarrow> x < y"
proof (induction k arbitrary: x y)
  case 0
  then show ?case by simp
next
  case (Suc k)
  then have r: "0 \<le> x div 256" "x div 256 < 256 ^ k" "0 \<le> y div 256" "y div 256 < 256 ^ k"
    by simp_all
  note IH = Suc.IH [OF r] and inj = be_bytes_eq [OF r]
  have last: "char_of (nat (x mod 256)) < (char_of (nat (y mod 256)) :: char) \<longleftrightarrow> x mod 256 < y mod 256"
    using pos_mod_sign [of 256 x] by (simp add: less_char_def nat_less_iff) linarith
  have split: "x < y \<longleftrightarrow> x div 256 < y div 256 \<or> x div 256 = y div 256 \<and> x mod 256 < y mod 256"
    by (rule less_div_mod) simp
  show ?case
    unfolding split using IH inj last by (simp add: lex_append)
qed

lemma Uint64_PutUint64 [simp]: "Uint64 (PutUint64 v) = v"
proof -
  have "uint v < 256 ^ 8" using uint_lt2p [of v] by simp
  then show ?thesis by (simp add: Uint64_def PutUint64_def be_val_be_bytes)
qed

lemma PutUint64_inj [simp]: "PutUint64 u = PutUint64 v \<longleftrightarrow> u = v"
  by (metis Uint64_PutUint64)

lemma length_PutUint64 [simp]: "length (PutUint64 v) = 8"
  by (simp add: PutUint64_def)

lemma be_bytes_be_val: "be_bytes (length s) (be_val s) = s"
proof (induction s rule: rev_induct)
  case Nil
  then show ?case by simp
next
  case (snoc c s)
  have c: "int (byte_val c) < 256" by simp
  then have "(256 * be_val s + int (byte_val c)) div 256 = be_val s"
    "(256 * be_val s + int (byte_val c)) mod 256 = int (byte_val c)" by simp_all
  with snoc show ?case by simp
qed

lemma be_val_range: "0 \<le> be_val s \<and> be_val s < 256 ^ length s"
proof (induction s rule: rev_induct)
  case Nil
  then show ?case by simp
next
  case (snoc c s)
  have "int (byte_val c) < 256" by simp
  then have "256 * be_val s + int (byte_val c) < 256 * (be_val s + 1)" by simp
  also have "\<dots> \<le> 256 * 256 ^ length s"
    using snoc by (intro mult_left_mono) simp_all
  finally have "256 * be_val s + int (byte_val c) < 256 * 256 ^ length s" .
  with snoc show ?case by simp
qed

lemma PutUint64_Uint64: "length s = 8 \<Longrightarrow> PutUint64 (Uint64 s) = s"
  using be_val_range [of s] be_bytes_be_val [of s]
  by (simp add: PutUint64_def Uint64_def uint_word_of_int_eq take_bit_int_eq_self)

lemma PutUint64_less: "PutUint64 u < PutUint64 v \<longleftrightarrow> u < v"
proof -
  have "uint u < 256 ^ 8" "uint v < 256 ^ 8" using uint_lt2p [of u] uint_lt2p [of v] by simp_all
  then show ?thesis by (simp add: PutUint64_def be_bytes_less word_less_def)
qed

section \<open>The abstract queue\<close>

text \<open>
  The queue of a state: the amount stored for a time (as the 64-bit word in the key) and an
  address; \<open>queued\<close> tells whether there is an entry.
\<close>

definition queue_key :: "64 word \<Rightarrow> addr \<Rightarrow> bytes" where
  "queue_key u addr = LocksByDateKey @ PutUint64 u @ addr"

definition queue ::
    "('w, 'v) sdk \<Rightarrow> ('w \<Rightarrow> bytes \<Rightarrow> bytes option) \<Rightarrow> 'w \<Rightarrow> 64 word \<Rightarrow> addr \<Rightarrow> int" where
  "queue K view w u addr =
     (case view w (queue_key u addr) of
        None \<Rightarrow> 0
      | Some bz \<Rightarrow> (case IntUnmarshal K bz of Inl _ \<Rightarrow> 0 | Inr x \<Rightarrow> x))"

definition queued :: "('w \<Rightarrow> bytes \<Rightarrow> bytes option) \<Rightarrow> 'w \<Rightarrow> 64 word \<Rightarrow> addr \<Rightarrow> bool" where
  "queued view w u addr \<longleftrightarrow> view w (queue_key u addr) \<noteq> None"

text \<open>The module's store holds nothing but the book and the queue.\<close>

definition lockup_keys :: "('w \<Rightarrow> bytes \<Rightarrow> bytes option) \<Rightarrow> 'w \<Rightarrow> bool" where
  "lockup_keys view w \<longleftrightarrow>
     (\<forall>k. view w k \<noteq> None \<longrightarrow> (\<exists>a. k = GetLocksByAddressKey a) \<or> (\<exists>u a. k = queue_key u a))"

abbreviation unix_word :: "gotime \<Rightarrow> 64 word" where
  "unix_word t \<equiv> of_int (Unix t)"

lemma GetLockExpirationKey_eq: "GetLockExpirationKey t a = queue_key (unix_word t) a"
  by (simp add: GetLockExpirationKey_def queue_key_def)

lemma queue_key_inj [simp]: "queue_key u a = queue_key v b \<longleftrightarrow> u = v \<and> a = b"
  by (simp add: queue_key_def)

lemma queue_key_neq_book_key [simp]:
  "queue_key u a \<noteq> GetLocksByAddressKey b" "GetLocksByAddressKey b \<noteq> queue_key u a"
  by (simp_all add: queue_key_def GetLocksByAddressKey_def LocksByDateKey_def LocksByAddressKey_def)

lemma queue_cong: "view w' = view w \<Longrightarrow> queue K view w' = queue K view w \<and> queued view w' = queued view w"
  by (intro conjI ext) (simp_all add: queue_def queued_def)

lemma key_decode [simp]:
  "key_time (queue_key u a) = from_Unix (sint u)" "key_addr (queue_key u a) = a"
  "length (queue_key u a) = length LocksByDateKey + 8 + length a"
  by (simp_all add: key_time_def key_addr_def queue_key_def)

text \<open>Queue times compare as the keys do.\<close>

lemma queue_key_less:
  "queue_key u a < queue_key v b \<longleftrightarrow> u < v \<or> u = v \<and> a < b"
  by (simp add: queue_key_def lex_append PutUint64_less)

lemma bound_le_queue_key: "LocksByDateKey @ PutUint64 v \<le> queue_key u a \<longleftrightarrow> v \<le> u"
proof -
  have "LocksByDateKey @ PutUint64 v = queue_key v []" by (simp add: queue_key_def)
  then show ?thesis
    by (auto simp: less_le_not_le [symmetric] not_less [symmetric] queue_key_less)
qed

text \<open>Every key of at least the time's length between the bounds of the queue is a queue key.\<close>

lemma queue_key_surj:
  assumes "length LocksByDateKey + 8 \<le> length k" "take (length LocksByDateKey) k = LocksByDateKey"
  shows "k = queue_key (Uint64 (take 8 (drop (length LocksByDateKey) k))) (key_addr k)"
proof -
  let ?t = "take 8 (drop (length LocksByDateKey) k)"
  have "PutUint64 (Uint64 ?t) = ?t" using assms(1) by (intro PutUint64_Uint64) simp
  moreover have "k = take (length LocksByDateKey) k @ ?t @ key_addr k"
    by (metis append_take_drop_id drop_drop key_addr_def add.commute)
  ultimately show ?thesis using assms(2) by (simp add: queue_key_def)
qed

text \<open>The time and address of a queue key, and their order.\<close>

definition key_entry :: "bytes \<Rightarrow> 64 word \<times> addr" where
  "key_entry k = (Uint64 (take 8 (drop (length LocksByDateKey) k)), key_addr k)"

definition entry_less :: "64 word \<times> addr \<Rightarrow> 64 word \<times> addr \<Rightarrow> bool" where
  "entry_less e f \<longleftrightarrow> fst e < fst f \<or> fst e = fst f \<and> snd e < snd f"

lemma key_entry_queue_key [simp]: "key_entry (queue_key u a) = (u, a)"
  by (simp add: key_entry_def queue_key_def key_addr_def)

context lockup_env
begin

lemma amount_stored:
  assumes "IntMarshal K x = Inr bz" "kvSet K w (GetLockExpirationKey t a) bz = Inr w'"
  shows "queue K view w' = (queue K view w)(unix_word t := (queue K view w (unix_word t))(a := x))"
    and "queued view w' = (queued view w)(unix_word t := (queued view w (unix_word t))(a := True))"
    and "book K view w' = book K view w"
  using set_view [OF assms(2)] int_roundtrip [OF assms(1)]
  by (auto simp: fun_eq_iff queue_def queued_def book_def GetLockExpirationKey_eq)

lemma entry_deleted:
  assumes "kvDelete K w (GetLockExpirationKey t a) = Inr w'"
  shows "queue K view w' = (queue K view w)(unix_word t := (queue K view w (unix_word t))(a := 0))"
    and "queued view w' = (queued view w)(unix_word t := (queued view w (unix_word t))(a := False))"
    and "book K view w' = book K view w"
  using delete_view [OF assms]
  by (auto simp: fun_eq_iff queue_def queued_def book_def GetLockExpirationKey_eq)

lemma book_write_queue:
  assumes "view w' = (view w)(GetLocksByAddressKey a := r)"
  shows "queue K view w' = queue K view w" "queued view w' = queued view w"
  using assms by (auto simp: fun_eq_iff queue_def queued_def)

lemma AddToExpirationQueue_queue:
  assumes "AddToExpirationQueue K w t a x = Inr w'"
  defines "u \<equiv> unix_word t"
  shows "queue K view w' = (queue K view w)(u := (queue K view w u)(a := queue K view w u a + x))"
    and "queued view w' = (queued view w)(u := (queued view w u)(a := True))"
    and "book K view w' = book K view w"
proof -
  from assms(1) obtain r c bz where r: "kvGet K w (GetLockExpirationKey t a) = Inr r"
    and c: "(case r of None \<Rightarrow> Inr 0 | Some bz \<Rightarrow> IntUnmarshal K bz) = Inr c"
    and bz: "IntMarshal K (c + x) = Inr bz" "kvSet K w (GetLockExpirationKey t a) bz = Inr w'"
    by (auto simp: AddToExpirationQueue_def Let_def int_op_Inr)
  have "queue K view w u a = c"
    using get_view [OF r] c by (auto simp: queue_def u_def GetLockExpirationKey_eq split: option.splits)
  then show "queue K view w' = (queue K view w)(u := (queue K view w u)(a := queue K view w u a + x))"
    "queued view w' = (queued view w)(u := (queued view w u)(a := True))"
    "book K view w' = book K view w"
    using amount_stored [OF bz] by (simp_all add: u_def)
qed

lemma RemoveFromExpirationQueue_absent:
  assumes "RemoveFromExpirationQueue K w t a x = Inr w'" "\<not> queued view w (unix_word t) a"
  shows "w' = w"
  using assms
  by (auto simp: RemoveFromExpirationQueue_def Let_def queued_def GetLockExpirationKey_eq
      split: option.splits dest!: get_view)

lemma RemoveFromExpirationQueue_queue:
  assumes "RemoveFromExpirationQueue K w t a x = Inr w'"
  defines "u \<equiv> unix_word t"
  assumes q: "queued view w u a"
  shows "x \<le> queue K view w u a"
    and "queue K view w' = (queue K view w)(u := (queue K view w u)(a := queue K view w u a - x))"
    and "queued view w' = (queued view w)(u := (queued view w u)(a := queue K view w u a \<noteq> x))"
    and "book K view w' = book K view w"
proof -
  from assms(1) obtain r where r: "kvGet K w (GetLockExpirationKey t a) = Inr r"
    by (auto simp: RemoveFromExpirationQueue_def Let_def)
  from get_view [OF r] q obtain bz where bz: "r = Some bz"
    by (auto simp: queued_def u_def GetLockExpirationKey_eq)
  from assms(1) r bz obtain c where c: "IntUnmarshal K bz = Inr c" "x \<le> c"
    and res: "c = x \<and> kvDelete K w (GetLockExpirationKey t a) = Inr w' \<or>
      c \<noteq> x \<and> (\<exists>b. IntMarshal K (c - x) = Inr b \<and> kvSet K w (GetLockExpirationKey t a) b = Inr w')"
    by (fastforce simp: RemoveFromExpirationQueue_def Let_def int_op_Inr split: if_splits)
  have qc: "queue K view w u a = c"
    using get_view [OF r] bz c by (auto simp: queue_def u_def GetLockExpirationKey_eq split: option.split)
  then show "x \<le> queue K view w u a" using c by simp
  show "queue K view w' = (queue K view w)(u := (queue K view w u)(a := queue K view w u a - x))"
    "queued view w' = (queued view w)(u := (queued view w u)(a := queue K view w u a \<noteq> x))"
    "book K view w' = book K view w"
    using res qc by (auto simp: u_def amount_stored entry_deleted)
qed

lemma lockup_keys_set:
  "kvSet K w k v = Inr w' \<Longrightarrow> lockup_keys view w \<Longrightarrow>
     (\<exists>a. k = GetLocksByAddressKey a) \<or> (\<exists>u a. k = queue_key u a) \<Longrightarrow> lockup_keys view w'"
  unfolding lockup_keys_def by (metis fun_upd_apply set_view)

lemma lockup_keys_delete: "kvDelete K w k = Inr w' \<Longrightarrow> lockup_keys view w \<Longrightarrow> lockup_keys view w'"
  unfolding lockup_keys_def by (metis fun_upd_apply delete_view)

lemma SetLocksByAddress_keys:
  "SetLocksByAddress K w a ls = Inr w' \<Longrightarrow> lockup_keys view w \<Longrightarrow> lockup_keys view w'"
  by (auto simp: SetLocksByAddress_def Let_def split: if_splits
      intro: lockup_keys_delete lockup_keys_set)

lemma SetLockByAddress_keys:
  "SetLockByAddress K w a l = Inr w' \<Longrightarrow> lockup_keys view w \<Longrightarrow> lockup_keys view w'"
  by (auto simp: SetLockByAddress_def Let_def intro: lockup_keys_set)

lemma AddToExpirationQueue_keys:
  "AddToExpirationQueue K w t a x = Inr w' \<Longrightarrow> lockup_keys view w \<Longrightarrow> lockup_keys view w'"
  by (auto simp: AddToExpirationQueue_def Let_def GetLockExpirationKey_eq intro: lockup_keys_set)

lemma RemoveFromExpirationQueue_keys:
  "RemoveFromExpirationQueue K w t a x = Inr w' \<Longrightarrow> lockup_keys view w \<Longrightarrow> lockup_keys view w'"
  by (auto simp: RemoveFromExpirationQueue_def Let_def GetLockExpirationKey_eq
      split: if_splits option.splits) (blast intro: lockup_keys_delete lockup_keys_set)+

lemma SetLocksByAddress_queue:
  assumes "SetLocksByAddress K w a ls = Inr w'"
  shows "queue K view w' = queue K view w" "queued view w' = queued view w"
  using assms
  by (auto simp: SetLocksByAddress_def Let_def split: if_splits
      dest!: set_view delete_view intro: book_write_queue)

lemma SetLockByAddress_queue:
  assumes "SetLockByAddress K w a l = Inr w'"
  shows "queue K view w' = queue K view w" "queued view w' = queued view w"
  using assms
  by (auto simp: SetLockByAddress_def Let_def dest!: set_view intro: book_write_queue)

lemma UpdateLockByAddressAndIndex_queue:
  assumes "UpdateLockByAddressAndIndex K w a i l = Inr w'"
  shows "queue K view w' = queue K view w" "queued view w' = queued view w"
  using assms
  by (auto simp: UpdateLockByAddressAndIndex_def split: if_splits intro: SetLocksByAddress_queue)

lemma DeleteLockByAddressAndIndex_queue:
  assumes "DeleteLockByAddressAndIndex K w a i = Inr w'"
  shows "queue K view w' = queue K view w" "queued view w' = queued view w"
  using assms
  by (auto simp: DeleteLockByAddressAndIndex_def split: if_splits intro: SetLocksByAddress_queue)

text \<open>Where the keys of book and queue lie.\<close>

lemma book_key_less: "GetLocksByAddressKey b < LocksByDateKey"
  by (simp add: GetLocksByAddressKey_def LocksByDateKey_def LocksByAddressKey_def less_char_def)

lemma queue_key_ge: "LocksByDateKey \<le> queue_key u a"
  by (simp add: queue_key_def LocksByDateKey_def)

lemma date_range_queue_key:
  assumes "lockup_keys view w" "view w k = Some v" "LocksByDateKey \<le> k"
  obtains u a where "k = queue_key u a"
  using assms book_key_less unfolding lockup_keys_def by (metis leD option.discI)

text \<open>The iteration over the active entries, as an iteration over times and addresses.\<close>

lemma iterate_entries:
  assumes "foldM (\<lambda>s (key, val).
         if length key < length LocksByDateKey + 8 then Inr s
         else bnd (IntUnmarshal K val) (\<lambda>amount. cb s (key_addr key) (key_time key) amount)) s kvs = Inr r"
    and "\<And>k v. (k, v) \<in> set kvs \<Longrightarrow> view w k = Some v \<and> (\<exists>u a. k = queue_key u a)"
  shows "foldM (\<lambda>s (u, a). cb s a (from_Unix (sint u)) (queue K view w u a)) s
    (map (\<lambda>kv. key_entry (fst kv)) kvs) = Inr r"
  using assms
proof (induction kvs arbitrary: s)
  case Nil
  then show ?case by simp
next
  case (Cons kv kvs)
  obtain u a v where kv: "kv = (queue_key u a, v)" and v: "view w (queue_key u a) = Some v"
    using Cons.prems(2) [of "fst kv" "snd kv"] by (cases kv) auto
  from Cons.prems(1) obtain x s' where x: "IntUnmarshal K v = Inr x"
    and s': "cb s a (from_Unix (sint u)) x = Inr s'"
    and rest: "foldM (\<lambda>s (key, val).
         if length key < length LocksByDateKey + 8 then Inr s
         else bnd (IntUnmarshal K val) (\<lambda>amount. cb s (key_addr key) (key_time key) amount)) s' kvs = Inr r"
    by (auto simp: kv)
  have "queue K view w u a = x" using v x by (simp add: queue_def)
  moreover have "foldM (\<lambda>s (u, a). cb s a (from_Unix (sint u)) (queue K view w u a)) s'
      (map (\<lambda>kv. key_entry (fst kv)) kvs) = Inr r"
    using rest Cons.prems(2) by (intro Cons.IH) auto
  ultimately show ?case using s' by (simp add: kv)
qed

lemma entries_sorted:
  assumes "sorted_wrt (<) (map fst kvs)" "\<And>k v. (k, v) \<in> set kvs \<Longrightarrow> \<exists>u a. k = queue_key u a"
  shows "sorted_wrt entry_less (map (\<lambda>kv. key_entry (fst kv)) kvs)"
  using assms
proof (induction kvs)
  case Nil
  then show ?case by simp
next
  case (Cons kv kvs)
  have "entry_less (key_entry (fst kv)) (key_entry (fst e))" if e: "e \<in> set kvs" for e
  proof -
    obtain u a v b where "fst kv = queue_key u a" "fst e = queue_key v b"
      using Cons.prems(2) [of "fst kv" "snd kv"] Cons.prems(2) [of "fst e" "snd e"] e by auto
    moreover have "fst kv < fst e" using Cons.prems(1) e by simp
    ultimately show ?thesis by (simp add: entry_less_def queue_key_less)
  qed
  moreover have "sorted_wrt entry_less (map (\<lambda>kv. key_entry (fst kv)) kvs)"
    using Cons.prems by (intro Cons.IH) auto
  ultimately show ?case by simp
qed

lemma IterateActiveLocks_entries:
  assumes run: "IterateActiveLocks K w now cb s = Inr r" and keys: "lockup_keys view w"
  shows "\<exists>es. foldM (\<lambda>s (u, a). cb s a (from_Unix (sint u)) (queue K view w u a)) s es = Inr r \<and>
    sorted_wrt entry_less es \<and> set es = {(u, a). queued view w u a \<and> of_int (Unix now + 1) \<le> u}"
proof -
  let ?lo = "LocksByDateKey @ PutUint64 (of_int (Unix now + 1))"
  from run obtain kvs where kvs: "kvIterator K w ?lo None = Inr kvs"
    and fold: "foldM (\<lambda>s (key, val).
         if length key < length LocksByDateKey + 8 then Inr s
         else bnd (IntUnmarshal K val) (\<lambda>amount. cb s (key_addr key) (key_time key) amount)) s kvs = Inr r"
    by (auto simp: IterateActiveLocks_def)
  have mem: "(k, v) \<in> set kvs \<longleftrightarrow> view w k = Some v \<and> ?lo \<le> k" for k v
    using iterator_entries [OF kvs] by (simp add: key_in_range_def)
  have lo: "LocksByDateKey \<le> ?lo" by (simp add: LocksByDateKey_def)
  have qk: "view w k = Some v \<and> (\<exists>u a. k = queue_key u a)" if "(k, v) \<in> set kvs" for k v
    using that mem date_range_queue_key [OF keys] lo by (metis order_trans)
  let ?es = "map (\<lambda>kv. key_entry (fst kv)) kvs"
  have "set ?es = {(u, a). queued view w u a \<and> of_int (Unix now + 1) \<le> u}"
  proof (intro set_eqI iffI)
    fix e assume "e \<in> set ?es"
    then obtain k v where kv: "(k, v) \<in> set kvs" "e = key_entry k" by auto
    with qk obtain u a where "k = queue_key u a" "view w k = Some v" by blast
    with kv mem show "e \<in> {(u, a). queued view w u a \<and> of_int (Unix now + 1) \<le> u}"
      by (auto simp: queued_def bound_le_queue_key)
  next
    fix e assume "e \<in> {(u, a). queued view w u a \<and> of_int (Unix now + 1) \<le> u}"
    then obtain u a v where "e = (u, a)" "(queue_key u a, v) \<in> set kvs"
      using mem by (auto simp: queued_def bound_le_queue_key)
    then show "e \<in> set ?es" by force
  qed
  moreover have "sorted_wrt entry_less ?es"
    using iterator_sorted [OF kvs] qk by (intro entries_sorted) auto
  moreover have "foldM (\<lambda>s (u, a). cb s a (from_Unix (sint u)) (queue K view w u a)) s ?es = Inr r"
    using fold qk by (rule iterate_entries)
  ultimately show ?thesis by blast
qed

text \<open>The deleting iteration, with a callback that leaves the module's store as it is.\<close>

lemma delete_loop:
  assumes "foldM (\<lambda>w (key, val).
         if length key < length LocksByDateKey + 8 then Inl (GoPanic ''slice bounds out of range'')
         else bnd (IntUnmarshal K val) (\<lambda>amount.
              bnd (cb w (key_addr key) (key_time key) amount) (\<lambda>w.
              kvDelete K w key))) w kvs = Inr w'"
    and "\<And>w a t x w'. cb w a t x = Inr w' \<Longrightarrow> view w' = view w"
  shows "view w' = (\<lambda>k. if k \<in> fst ` set kvs then None else view w k)"
  using assms
proof (induction kvs arbitrary: w)
  case Nil
  then show ?case by simp
next
  case (Cons kv kvs)
  obtain k v where kv: "kv = (k, v)" by (cases kv)
  from Cons.prems(1) obtain x w1 w2 where "cb w (key_addr k) (key_time k) x = Inr w1"
    and d: "kvDelete K w1 k = Inr w2"
    and rest: "foldM (\<lambda>w (key, val).
         if length key < length LocksByDateKey + 8 then Inl (GoPanic ''slice bounds out of range'')
         else bnd (IntUnmarshal K val) (\<lambda>amount.
              bnd (cb w (key_addr key) (key_time key) amount) (\<lambda>w.
              kvDelete K w key))) w2 kvs = Inr w'"
    by (auto simp: kv split: if_splits)
  then have "view w2 = (view w)(k := None)"
    using Cons.prems(2) delete_view [OF d] by metis
  moreover have "view w' = (\<lambda>k. if k \<in> fst ` set kvs then None else view w2 k)"
    using rest Cons.prems(2) by (rule Cons.IH)
  ultimately show ?case by (auto simp: kv fun_eq_iff)
qed

lemma IterateAndDeleteExpiredLocks_view:
  assumes run: "IterateAndDeleteExpiredLocks K w cutoff cb = Inr w'" and keys: "lockup_keys view w"
    and cb: "\<And>w a t x w'. cb w a t x = Inr w' \<Longrightarrow> view w' = view w"
  shows "queued view w' u a \<longleftrightarrow> queued view w u a \<and> of_int (Unix cutoff + 1) \<le> u"
    and "book K view w' = book K view w"
proof -
  let ?hi = "LocksByDateKey @ PutUint64 (of_int (Unix cutoff + 1))"
  from run obtain kvs where kvs: "kvIterator K w LocksByDateKey (Some ?hi) = Inr kvs"
    and v: "view w' = (\<lambda>k. if k \<in> fst ` set kvs then None else view w k)"
    using delete_loop [OF _ cb] by (auto simp: IterateAndDeleteExpiredLocks_def)
  have mem: "k \<in> fst ` set kvs \<longleftrightarrow> view w k \<noteq> None \<and> LocksByDateKey \<le> k \<and> k < ?hi" for k
    using iterator_entries [OF kvs] by (force simp: key_in_range_def)
  show "queued view w' u a \<longleftrightarrow> queued view w u a \<and> of_int (Unix cutoff + 1) \<le> u"
    unfolding queued_def v mem
    using queue_key_ge [of u a] bound_le_queue_key [of "of_int (Unix cutoff + 1)" u a]
    by (simp add: not_less [symmetric])
  have "view w' (GetLocksByAddressKey b) = view w (GetLocksByAddressKey b)" for b
    unfolding v mem using leD [OF less_imp_le [OF book_key_less [of b]]] book_key_less [of b] leD
    by auto
  then show "book K view w' = book K view w" by (simp add: book_def fun_eq_iff)
qed

end

end
