(* ===== verification/Lock_Delegation.thy ===== *)
theory Lock_Delegation
  imports Lock_Store
begin

text \<open>
  What ties locks to delegations: \<open>x/lockup/keeper/helpers.go\<close> (delegated amounts),
  \<open>x/lockup/keeper/hooks.go\<close> (the staking hooks that refuse an undelegation below the locked
  amount), \<open>x/lockup/keeper/send_restriction.go\<close> (the bank restriction) and
  \<open>app/ante/redelegate.go\<close> (the ante decorator that marks redelegations). The pagination loop of
  \<open>GetTotalDelegatedAmount\<close> may run forever; it is a \<open>partial_function\<close> whose value \<open>None\<close> is
  a call that does not return.
\<close>

section \<open>Delegated amounts\<close>

text \<open>The body of the inner loop of \<open>GetTotalDelegatedAmount\<close>.\<close>

definition add_delegation :: "('w, 'v) sdk \<Rightarrow> 'w \<Rightarrow> int \<Rightarrow> delegation \<Rightarrow> int res" where
  "add_delegation K w total0 d =
     bnd (wrap_err ErrInvalidAddress (ValAddressFromBech32 K (GetValidatorAddr d))) (\<lambda>valAddr.
     bnd (GetValidator K w valAddr) (\<lambda>validator.
     bnd (TokensFromShares K validator (GetShares d)) (\<lambda>tokens.
     int_add total0 (dec_TruncateInt (dec_Ceil tokens)))))"

partial_function (option) delegated_loop :: "('w, 'v) sdk \<Rightarrow> 'w \<Rightarrow> addr \<Rightarrow> int \<Rightarrow> int res option" where
  "delegated_loop K w addr total0 =
     (case GetDelegatorDelegations K w addr 100 of
        Inl e \<Rightarrow> Some (Inl e)
      | Inr delegations \<Rightarrow>
          (case foldM (add_delegation K w) total0 delegations of
             Inl e \<Rightarrow> Some (Inl e)
           | Inr total1 \<Rightarrow>
               if length delegations = 100 then delegated_loop K w addr total1
               else Some (Inr total1)))"

declare delegated_loop.simps [code]

definition GetTotalDelegatedAmount :: "('w, 'v) sdk \<Rightarrow> 'w \<Rightarrow> addr \<Rightarrow> int res" where
  "GetTotalDelegatedAmount K w addr =
     (case delegated_loop K w addr 0 of None \<Rightarrow> Inl NoReturn | Some r \<Rightarrow> r)"

definition GetDelegationAmount :: "('w, 'v) sdk \<Rightarrow> 'w \<Rightarrow> addr \<Rightarrow> valaddr \<Rightarrow> int res" where
  "GetDelegationAmount K w delAddr valAddr =
     (case GetDelegation K w delAddr valAddr of
        Inl err \<Rightarrow> if stops err then Inl err else Inr 0
      | Inr delegation \<Rightarrow>
          bnd (GetValidator K w valAddr) (\<lambda>validator.
          bnd (TokensFromShares K validator (GetShares delegation)) (\<lambda>tokens.
          Inr (dec_TruncateInt (dec_Ceil tokens)))))"

section \<open>Staking hooks\<close>

definition redelegateMapKey :: "addr \<Rightarrow> valaddr \<Rightarrow> string" where
  "redelegateMapKey delAddr valAddr = delAddr @ [char_of (0::nat)] @ valAddr"

definition WithRedelegating :: "sdk_ctx \<Rightarrow> addr \<Rightarrow> valaddr \<Rightarrow> sdk_ctx" where
  "WithRedelegating ctx delAddr valSrcAddr =
     ctx\<lparr>redelegatingSet := insert (redelegateMapKey delAddr valSrcAddr) (redelegatingSet ctx)\<rparr>"

definition isRedelegating :: "sdk_ctx \<Rightarrow> addr \<Rightarrow> valaddr \<Rightarrow> bool" where
  "isRedelegating ctx delAddr valAddr \<longleftrightarrow> redelegateMapKey delAddr valAddr \<in> redelegatingSet ctx"

definition checkLockupInvariantExcluding ::
    "('w, 'v) sdk \<Rightarrow> sdk_ctx \<Rightarrow> 'w \<Rightarrow> addr \<Rightarrow> valaddr option \<Rightarrow> unit res" where
  "checkLockupInvariantExcluding K ctx w delAddr excludeVal =
     bnd (GetLockedAmountByAddress K ctx w delAddr) (\<lambda>totalLocked.
     if totalLocked = 0 then Inr ()
     else bnd (GetTotalDelegatedAmount K w delAddr) (\<lambda>totalDelegated.
       bnd (case excludeVal of
              None \<Rightarrow> Inr totalDelegated
            | Some val \<Rightarrow>
                bnd (GetDelegationAmount K w delAddr val) (\<lambda>excludeAmount.
                int_sub totalDelegated excludeAmount)) (\<lambda>totalDelegated.
       if totalDelegated < totalLocked then Inl ErrInsufficientDelegations else Inr ())))"

definition checkLockupInvariant :: "('w, 'v) sdk \<Rightarrow> sdk_ctx \<Rightarrow> 'w \<Rightarrow> addr \<Rightarrow> unit res" where
  "checkLockupInvariant K ctx w delAddr = checkLockupInvariantExcluding K ctx w delAddr None"

definition AfterDelegationModified ::
    "('w, 'v) sdk \<Rightarrow> sdk_ctx \<Rightarrow> 'w \<Rightarrow> addr \<Rightarrow> valaddr \<Rightarrow> unit res" where
  "AfterDelegationModified K ctx w delAddr valAddr =
     (if isRedelegating ctx delAddr valAddr then Inr () else checkLockupInvariant K ctx w delAddr)"

definition BeforeDelegationRemoved ::
    "('w, 'v) sdk \<Rightarrow> sdk_ctx \<Rightarrow> 'w \<Rightarrow> addr \<Rightarrow> valaddr \<Rightarrow> unit res" where
  "BeforeDelegationRemoved K ctx w delAddr valAddr =
     (if isRedelegating ctx delAddr valAddr then Inr ()
      else checkLockupInvariantExcluding K ctx w delAddr (Some valAddr))"

text \<open>The remaining hooks accept everything.\<close>

datatype other_hook =
    BeforeDelegationCreated addr valaddr
  | BeforeDelegationSharesModified addr valaddr
  | AfterValidatorCreated valaddr
  | BeforeValidatorModified valaddr
  | AfterValidatorRemoved bytes valaddr
  | AfterValidatorBonded bytes valaddr
  | AfterValidatorBeginUnbonding bytes valaddr
  | BeforeValidatorSlashed valaddr dec
  | AfterUnbondingInitiated "64 word"

definition run_other_hook :: "other_hook \<Rightarrow> unit res" where
  "run_other_hook h = Inr ()"

section \<open>The bank's send restriction\<close>

definition SendRestrictionFn ::
    "('w, 'v) sdk \<Rightarrow> sdk_ctx \<Rightarrow> 'w \<Rightarrow> addr \<Rightarrow> addr \<Rightarrow> coin list \<Rightarrow> addr res" where
  "SendRestrictionFn K ctx w fromAddr toAddr amt =
     bnd (BondDenom K w) (\<lambda>bondDenom.
     let sendAmount = AmountOf K amt bondDenom
     in if sendAmount = 0 then Inr toAddr
     else bnd (GetLockedAmountByAddress K ctx w fromAddr) (\<lambda>totalLocked.
     if totalLocked = 0 then Inr toAddr
     else bnd (GetTotalDelegatedAmount K w fromAddr) (\<lambda>totalDelegated.
     bnd (int_sub totalLocked totalDelegated) (\<lambda>d.
     let lockedAboveDelegated = (if d < 0 then 0 else d)
     in if lockedAboveDelegated = 0 then Inr toAddr
     else bnd (int_sub (GetBalance K w fromAddr bondDenom) lockedAboveDelegated) (\<lambda>v.
     let available = (if v < 0 then 0 else v)
     in if available < sendAmount then Inl ErrInsufficientFunds else Inr toAddr)))))"

section \<open>The redelegation marker\<close>

text \<open>The messages of a transaction, as far as the decorator distinguishes them.\<close>

datatype tx_msg =
    MsgBeginRedelegate (DelegatorAddress: string) (ValidatorSrcAddress: string)
  | MsgOther string

definition mark_msg :: "('w, 'v) sdk \<Rightarrow> sdk_ctx \<Rightarrow> tx_msg \<Rightarrow> sdk_ctx res" where
  "mark_msg K ctx msg =
     (case msg of
        MsgOther _ \<Rightarrow> Inr ctx
      | MsgBeginRedelegate del src \<Rightarrow>
          bnd (AccAddressFromBech32 K del) (\<lambda>delAddr.
          bnd (ValAddressFromBech32 K src) (\<lambda>valSrcAddr.
          Inr (WithRedelegating ctx delAddr valSrcAddr))))"

definition AnteHandle :: "('w, 'v) sdk \<Rightarrow> sdk_ctx \<Rightarrow> tx_msg list \<Rightarrow> (sdk_ctx \<Rightarrow> 'r res) \<Rightarrow> 'r res" where
  "AnteHandle K ctx msgs next_handler = bnd (foldM (mark_msg K) ctx msgs) next_handler"

section \<open>Totals\<close>

text \<open>The tokens one delegation counts for; \<open>None\<close> if it cannot be valued.\<close>

definition delegation_tokens :: "('w, 'v) sdk \<Rightarrow> 'w \<Rightarrow> delegation \<Rightarrow> int option" where
  "delegation_tokens K w d =
     (case add_delegation K w 0 d of Inl _ \<Rightarrow> None | Inr x \<Rightarrow> Some x)"

lemma add_delegation_Inr:
  assumes "add_delegation K w total0 d = Inr y"
  obtains va v t where "ValAddressFromBech32 K (GetValidatorAddr d) = Inr va"
    "GetValidator K w va = Inr v" "TokensFromShares K v (GetShares d) = Inr t"
    "y = total0 + dec_TruncateInt (dec_Ceil t)"
  using assms by (auto simp: add_delegation_def int_op_Inr)

lemma delegated_loop_short:
  assumes "GetDelegatorDelegations K w a 100 = Inr ds" "length ds \<noteq> 100"
  shows "delegated_loop K w a t = Some (foldM (add_delegation K w) t ds)"
  using assms by (subst delegated_loop.simps) (auto split: sum.split)

text \<open>With a full page the loop asks for the same page again and can only end in an error.\<close>

lemma delegated_loop_full:
  assumes "GetDelegatorDelegations K w a 100 = Inr ds" "length ds = 100"
  shows "delegated_loop K w a t \<noteq> Some (Inr n)"
proof
  have "GetDelegatorDelegations K w a 100 = Inr ds \<longrightarrow> length ds = 100 \<longrightarrow> r \<noteq> Inr n"
    if "delegated_loop K w a t = Some r" for r t
    by (rule delegated_loop.raw_induct [OF _ that]) (fastforce split: sum.splits if_splits)
  then show "delegated_loop K w a t = Some (Inr n) \<Longrightarrow> False"
    using assms by blast
qed

lemma GetTotalDelegatedAmount_short:
  assumes "GetDelegatorDelegations K w a 100 = Inr ds" "length ds \<noteq> 100"
  shows "GetTotalDelegatedAmount K w a = foldM (add_delegation K w) 0 ds"
  using assms by (simp add: GetTotalDelegatedAmount_def delegated_loop_short)

lemma GetTotalDelegatedAmount_Inr:
  assumes "GetTotalDelegatedAmount K w a = Inr n"
  obtains ds where "GetDelegatorDelegations K w a 100 = Inr ds" "length ds \<noteq> 100"
    "foldM (add_delegation K w) 0 ds = Inr n"
proof -
  from assms have r: "delegated_loop K w a 0 = Some (Inr n)"
    by (auto simp: GetTotalDelegatedAmount_def split: option.splits)
  then obtain ds where ds: "GetDelegatorDelegations K w a 100 = Inr ds"
    by (subst (asm) delegated_loop.simps) (auto split: sum.splits)
  moreover have "length ds \<noteq> 100" using r delegated_loop_full [OF ds] by blast
  ultimately show thesis
    using that GetTotalDelegatedAmount_short [OF ds] assms by simp
qed

section \<open>Marking\<close>

text \<open>
  The (delegator, source validator) pairs a transaction's redelegations name. The set of the context
  holds one string per pair, the two addresses joined by a zero byte: that string determines the pair among
  delegators of one length (the addresses of the chain have 20 bytes), and \<open>one_length\<close> says that the
  delegators of the messages have the length of \<open>d\<close>.
\<close>

definition marked :: "('w, 'v) sdk \<Rightarrow> tx_msg list \<Rightarrow> addr \<Rightarrow> valaddr \<Rightarrow> bool" where
  "marked K msgs d v \<longleftrightarrow> (\<exists>del src. MsgBeginRedelegate del src \<in> set msgs \<and>
     AccAddressFromBech32 K del = Inr d \<and> ValAddressFromBech32 K src = Inr v)"

definition one_length :: "('w, 'v) sdk \<Rightarrow> tx_msg list \<Rightarrow> addr \<Rightarrow> bool" where
  "one_length K msgs d \<longleftrightarrow> (\<forall>del src d'. MsgBeginRedelegate del src \<in> set msgs \<and>
     AccAddressFromBech32 K del = Inr d' \<longrightarrow> length d' = length d)"

lemma marked_Nil [simp]: "\<not> marked K [] d v"
  by (simp add: marked_def)

lemma marked_Cons: "marked K (m # msgs) d v \<longleftrightarrow> marked K [m] d v \<or> marked K msgs d v"
  unfolding marked_def by simp blast

lemma redelegateMapKey_joins: "redelegateMapKey d v = d @ [char_of (0::nat)] @ v"
  by (simp add: redelegateMapKey_def)

lemma mark_msg_marks:
  assumes "mark_msg K ctx m = Inr c"
  shows "isRedelegating c d v \<longleftrightarrow> (\<exists>d' v'. marked K [m] d' v' \<and>
      d' @ [char_of (0::nat)] @ v' = d @ [char_of (0::nat)] @ v) \<or> isRedelegating ctx d v"
    and "BlockTime c = BlockTime ctx \<and> BlockHeight c = BlockHeight ctx"
  using assms
  by (cases m; auto simp: mark_msg_def marked_def WithRedelegating_def isRedelegating_def redelegateMapKey_joins)+

lemma mark_loop:
  assumes "foldM (mark_msg K) ctx msgs = Inr ctx'"
  shows "(isRedelegating ctx' d v \<longleftrightarrow> (\<exists>d' v'. marked K msgs d' v' \<and>
      d' @ [char_of (0::nat)] @ v' = d @ [char_of (0::nat)] @ v) \<or> isRedelegating ctx d v) \<and>
    BlockTime ctx' = BlockTime ctx \<and> BlockHeight ctx' = BlockHeight ctx"
  using assms
proof (induction msgs arbitrary: ctx)
  case Nil
  then show ?case by simp
next
  case (Cons m msgs)
  then obtain c where c: "mark_msg K ctx m = Inr c" "foldM (mark_msg K) c msgs = Inr ctx'"
    by auto
  show ?case
    using Cons.IH [OF c(2)] mark_msg_marks(1) [OF c(1), of d v] mark_msg_marks(2) [OF c(1)]
    by (subst marked_Cons) auto
qed

text \<open>Every named pair is marked; among delegators of one length no other pair is.\<close>

lemma mark_loop_marks:
  assumes "foldM (mark_msg K) ctx msgs = Inr ctx'" and "marked K msgs d v"
  shows "isRedelegating ctx' d v"
  using mark_loop [OF assms(1)] assms(2) by blast

lemma mark_loop_exact:
  assumes "foldM (mark_msg K) ctx msgs = Inr ctx'" and "one_length K msgs d"
  shows "isRedelegating ctx' d v \<longleftrightarrow> marked K msgs d v \<or> isRedelegating ctx d v"
proof -
  have "d' = d \<and> v' = v"
    if "marked K msgs d' v'" and "d' @ [char_of (0::nat)] @ v' = d @ [char_of (0::nat)] @ v" for d' v'
  proof -
    from that(1) assms(2) have "length d' = length d"
      unfolding marked_def one_length_def by blast
    with that(2) show ?thesis by simp
  qed
  then show ?thesis using mark_loop [OF assms(1), of d v] by blast
qed

section \<open>The lockup invariant at a hook\<close>

context lockup_env
begin

lemma checkLockupInvariantExcluding_Inr:
  assumes "checkLockupInvariantExcluding K ctx w a ev = Inr ()"
  shows "locked_sum (blockDay (BlockTime ctx)) (book K view w a) = 0 \<or>
    (\<exists>n ex. GetTotalDelegatedAmount K w a = Inr n \<and>
      (case ev of None \<Rightarrow> ex = 0 | Some v \<Rightarrow> GetDelegationAmount K w a v = Inr ex) \<and>
      locked_sum (blockDay (BlockTime ctx)) (book K view w a) \<le> n - ex)"
  using assms
  by (auto simp: checkLockupInvariantExcluding_def int_op_Inr split: if_splits option.splits
      dest!: GetLockedAmountByAddress_Inr)

end

end
