(* ===== verification/Lock_Msgs.thy ===== *)
theory Lock_Msgs
  imports Expiry_Queue Lock_Delegation
begin

text \<open>
  The messages of the lockup module, \<open>x/lockup/types/message_*.go\<close>, and their handlers,
  \<open>x/lockup/keeper/msg_server_*.go\<close>. A handler takes the block context and the state and returns
  the new state with the events it emits, or an error, in which case the transaction runner
  discards what was written. Only the events of this module are listed. A message carries its
  amounts and its repeated fields hold no nil elements, as after protobuf decoding.
\<close>

section \<open>Messages\<close>

record MsgLock =
  lk_Address :: string
  lk_UnlockDate :: string
  lk_Amount :: coin

record Extension =
  FromDate :: string
  ToDate :: string
  ext_Amount :: coin

record MsgExtend =
  ex_Address :: string
  Extensions :: "Extension list"

record MsgSendDelegateAndLock =
  FromAddress :: string
  ToAddress :: string
  ValidatorAddress :: string
  sdl_UnlockDate :: string
  sdl_Amount :: coin

record MultiOutput =
  out_FromAddress :: string
  out_ToAddress :: string
  out_ValidatorAddress :: string
  out_UnlockDate :: string
  out_Amount :: coin

record MsgMultiSendDelegateAndLock =
  mu_FromAddress :: string
  TotalAmount :: coin
  Outputs :: "MultiOutput list"

definition NewMsgLock :: "string \<Rightarrow> string \<Rightarrow> coin \<Rightarrow> MsgLock" where
  "NewMsgLock lockupAddress unlockDate amount =
     \<lparr>lk_Address = lockupAddress, lk_UnlockDate = unlockDate, lk_Amount = amount\<rparr>"

definition NewMsgExtend :: "string \<Rightarrow> Extension list \<Rightarrow> MsgExtend" where
  "NewMsgExtend extendingAddress extensions =
     \<lparr>ex_Address = extendingAddress, Extensions = extensions\<rparr>"

definition NewMsgSendDelegateAndLock ::
    "string \<Rightarrow> string \<Rightarrow> string \<Rightarrow> coin \<Rightarrow> string \<Rightarrow> MsgSendDelegateAndLock" where
  "NewMsgSendDelegateAndLock fromAddress toAddress validatorAddress amount unlockDate =
     \<lparr>FromAddress = fromAddress, ToAddress = toAddress, ValidatorAddress = validatorAddress,
      sdl_UnlockDate = unlockDate, sdl_Amount = amount\<rparr>"

definition NewMsgMultiSendDelegateAndLock ::
    "string \<Rightarrow> coin \<Rightarrow> MultiOutput list \<Rightarrow> MsgMultiSendDelegateAndLock" where
  "NewMsgMultiSendDelegateAndLock fromAddress totalAmount outputs =
     \<lparr>mu_FromAddress = fromAddress, TotalAmount = totalAmount, Outputs = outputs\<rparr>"

section \<open>Stateless validation\<close>

definition MsgLock_ValidateBasic :: "('w, 'v) sdk \<Rightarrow> MsgLock \<Rightarrow> unit res" where
  "MsgLock_ValidateBasic K msg =
     bnd (wrap_err ErrInvalidAddress (AccAddressFromBech32 K (lk_Address msg))) (\<lambda>_.
     bnd (require (lk_UnlockDate msg \<noteq> []) ErrInvalidDate) (\<lambda>_.
     bnd (wrap_err ErrInvalidDate (Parse_DateOnly (lk_UnlockDate msg))) (\<lambda>_.
     require (coin_IsPositive (lk_Amount msg)) ErrInvalidCoins)))"

definition Extension_validate :: "Extension \<Rightarrow> unit res" where
  "Extension_validate e =
     bnd (require (FromDate e \<noteq> []) ErrInvalidDate) (\<lambda>_.
     bnd (wrap_err ErrInvalidDate (Parse_DateOnly (FromDate e))) (\<lambda>fromTime.
     bnd (require (coin_IsPositive (ext_Amount e)) ErrInvalidCoins) (\<lambda>_.
     bnd (require (ToDate e \<noteq> []) ErrInvalidDate) (\<lambda>_.
     bnd (wrap_err ErrInvalidDate (Parse_DateOnly (ToDate e))) (\<lambda>toTime.
     require (fromTime < toTime) (ErrInvalidRequest ''unlock date must be after from date''))))))"

definition MsgExtend_ValidateBasic :: "('w, 'v) sdk \<Rightarrow> MsgExtend \<Rightarrow> unit res" where
  "MsgExtend_ValidateBasic K msg =
     bnd (wrap_err ErrInvalidAddress (AccAddressFromBech32 K (ex_Address msg))) (\<lambda>_.
     bnd (require (length (Extensions msg) \<noteq> 0)
            (ErrInvalidRequest ''at least one extension is required'')) (\<lambda>_.
     foldM (\<lambda>_ e. Extension_validate e) () (Extensions msg)))"

definition MsgSendDelegateAndLock_ValidateBasic ::
    "('w, 'v) sdk \<Rightarrow> MsgSendDelegateAndLock \<Rightarrow> unit res" where
  "MsgSendDelegateAndLock_ValidateBasic K msg =
     bnd (wrap_err ErrInvalidAddress (AccAddressFromBech32 K (FromAddress msg))) (\<lambda>_. Inr ())"

definition MsgMultiSendDelegateAndLock_ValidateBasic ::
    "('w, 'v) sdk \<Rightarrow> MsgMultiSendDelegateAndLock \<Rightarrow> unit res" where
  "MsgMultiSendDelegateAndLock_ValidateBasic K msg =
     bnd (wrap_err ErrInvalidAddress (AccAddressFromBech32 K (mu_FromAddress msg))) (\<lambda>_. Inr ())"

section \<open>Text of amounts in events\<close>

definition int_String :: "int \<Rightarrow> string" where
  "int_String x = append_int x 0"

definition coin_String :: "coin \<Rightarrow> string" where
  "coin_String c = int_String (CoinAmount c) @ Denom c"

definition dec_String :: "dec \<Rightarrow> string" where
  "dec_String d = (if d < 0 then ''-'' else []) @ int_String (\<bar>d\<bar> div dec_unit) @ ''.'' @
     fixed_digits 18 (\<bar>d\<bar> mod dec_unit)"

section \<open>Handlers\<close>

text \<open>
  The block both \<open>Lock\<close> and \<open>Extend\<close> end with: raise the lock of the date if there is one,
  insert a new lock otherwise.
\<close>

definition add_to_lock :: "('w, 'v) sdk \<Rightarrow> 'w \<Rightarrow> addr \<Rightarrow> string \<Rightarrow> int \<Rightarrow> 'w res" where
  "add_to_lock K w addr date amount =
     bnd (GetLockByAddressAndDate K w addr date) (\<lambda>found. case found of
        Some (existingLock, idx) \<Rightarrow>
          bnd (int_add (Amount existingLock) amount) (\<lambda>newAmount.
          UpdateLockByAddressAndIndex K w addr (int idx)
            \<lparr>UnlockDate = UnlockDate existingLock, Amount = newAmount\<rparr>)
      | None \<Rightarrow> SetLockByAddress K w addr \<lparr>UnlockDate = date, Amount = amount\<rparr>)"

text \<open>The block of \<open>Extend\<close> that takes the amount out of the lock of the from-date.\<close>

definition take_from_lock :: "('w, 'v) sdk \<Rightarrow> 'w \<Rightarrow> addr \<Rightarrow> string \<Rightarrow> int \<Rightarrow> 'w res" where
  "take_from_lock K w addr date amount =
     bnd (GetLockByAddressAndDate K w addr date) (\<lambda>found. case found of
        None \<Rightarrow> Inl ErrLockupNotFound
      | Some (existingLock, idx) \<Rightarrow>
          if Amount existingLock < amount
          then Inl (ErrInvalidRequest ''extension amount exceeds existing lock amount'')
          else if Amount existingLock = amount
          then DeleteLockByAddressAndIndex K w addr (int idx)
          else bnd (int_sub (Amount existingLock) amount) (\<lambda>rest.
               UpdateLockByAddressAndIndex K w addr (int idx)
                 \<lparr>UnlockDate = UnlockDate existingLock, Amount = rest\<rparr>))"

definition check_date_window :: "sdk_ctx \<Rightarrow> gotime \<Rightarrow> unit res" where
  "check_date_window ctx date =
     (let day = blockDay (BlockTime ctx)
      in bnd (require (\<not> (date < day \<or> day = date)) (ErrInvalidRequest ''date must be in the future'')) (\<lambda>_.
         require (\<not> AddDate day 2 0 0 < date)
           (ErrInvalidRequest ''date cannot be more than 2 years from now'')))"

definition Lock :: "('w, 'v) sdk \<Rightarrow> sdk_ctx \<Rightarrow> 'w \<Rightarrow> MsgLock \<Rightarrow> ('w \<times> event list) res" where
  "Lock K ctx w msg =
     bnd (BondDenom K w) (\<lambda>bondDenom.
     bnd (require (Denom (lk_Amount msg) = bondDenom) (ErrInvalidRequest ''invalid denom'')) (\<lambda>_.
     bnd (wrap_err ErrInvalidAddress (AccAddressFromBech32 K (lk_Address msg))) (\<lambda>address.
     bnd (require (coin_IsPositive (lk_Amount msg)) ErrInvalidCoins) (\<lambda>_.
     bnd (wrap_err (ErrInvalidRequest ''invalid unlock date format'')
            (Parse_DateOnly (lk_UnlockDate msg))) (\<lambda>unlockDate.
     bnd (check_date_window ctx unlockDate) (\<lambda>_.
     bnd (GetLockedAmountByAddress K ctx w address) (\<lambda>currentLockedAmount.
     bnd (GetTotalDelegatedAmount K w address) (\<lambda>totalDelegatedAmount.
     bnd (int_add currentLockedAmount (CoinAmount (lk_Amount msg))) (\<lambda>required.
     bnd (require (\<not> totalDelegatedAmount < required) ErrInsufficientDelegations) (\<lambda>_.
     bnd (add_to_lock K w address (lk_UnlockDate msg) (CoinAmount (lk_Amount msg))) (\<lambda>w.
     bnd (AddToExpirationQueue K w unlockDate address (CoinAmount (lk_Amount msg))) (\<lambda>w.
     Inr (w, [(''lock'', [(''address'', lk_Address msg), (''unlock_date'', lk_UnlockDate msg),
        (''amount'', int_String (CoinAmount (lk_Amount msg)))])])))))))))))))"

text \<open>One round of the loop of \<open>Extend\<close>.\<close>

definition extend_one ::
    "('w, 'v) sdk \<Rightarrow> sdk_ctx \<Rightarrow> string \<Rightarrow> addr \<Rightarrow> 'w \<times> event list \<Rightarrow> Extension \<Rightarrow> ('w \<times> event list) res" where
  "extend_one K ctx address addr st extension =
     (let (w, events) = st; amountToMove = CoinAmount (ext_Amount extension)
      in bnd (BondDenom K w) (\<lambda>bondDenom.
         bnd (require (Denom (ext_Amount extension) = bondDenom) (ErrInvalidRequest ''invalid denom'')) (\<lambda>_.
         bnd (wrap_err (ErrInvalidRequest ''invalid from date format'')
                (Parse_DateOnly (FromDate extension))) (\<lambda>fromDate.
         bnd (wrap_err (ErrInvalidRequest ''invalid to date format'')
                (Parse_DateOnly (ToDate extension))) (\<lambda>toDate.
         bnd (require (fromDate < toDate) (ErrInvalidRequest ''to date must be after from date'')) (\<lambda>_.
         bnd (check_date_window ctx toDate) (\<lambda>_.
         bnd (take_from_lock K w addr (FromDate extension) amountToMove) (\<lambda>w.
         bnd (add_to_lock K w addr (ToDate extension) amountToMove) (\<lambda>w.
         bnd (RemoveFromExpirationQueue K w fromDate addr amountToMove) (\<lambda>w.
         bnd (AddToExpirationQueue K w toDate addr amountToMove) (\<lambda>w.
         Inr (w, events @ [(''lock_extended'',
           [(''address'', address), (''old_unlock_date'', FromDate extension),
            (''unlock_date'', ToDate extension), (''amount'', int_String amountToMove)])]))))))))))))"

definition Extend :: "('w, 'v) sdk \<Rightarrow> sdk_ctx \<Rightarrow> 'w \<Rightarrow> MsgExtend \<Rightarrow> ('w \<times> event list) res" where
  "Extend K ctx w msg =
     bnd (wrap_err ErrInvalidAddress (AccAddressFromBech32 K (ex_Address msg))) (\<lambda>addr.
     bnd (require (HasAccount K w addr) ErrNotFound) (\<lambda>_.
     foldM (extend_one K ctx (ex_Address msg) addr) (w, []) (Extensions msg)))"

definition SendDelegateAndLock ::
    "('w, 'v) sdk \<Rightarrow> sdk_ctx \<Rightarrow> 'w \<Rightarrow> MsgSendDelegateAndLock \<Rightarrow> ('w \<times> event list) res" where
  "SendDelegateAndLock K ctx w msg =
     bnd (require (coin_IsPositive (sdl_Amount msg)) ErrInvalidCoins) (\<lambda>_.
     bnd (wrap_err ErrInvalidAddress (AccAddressFromBech32 K (FromAddress msg))) (\<lambda>fromAddr.
     bnd (wrap_err ErrInvalidAddress (AccAddressFromBech32 K (ToAddress msg))) (\<lambda>toAddr.
     bnd (BondDenom K w) (\<lambda>bondDenom.
     bnd (require (Denom (sdl_Amount msg) = bondDenom) (ErrInvalidRequest ''invalid denom'')) (\<lambda>_.
     bnd (NewCoins K (sdl_Amount msg)) (\<lambda>coins.
     bnd (SendCoins K w fromAddr toAddr coins) (\<lambda>w.
     bnd (wrap_err ErrInvalidAddress (ValAddressFromBech32 K (ValidatorAddress msg))) (\<lambda>valAddr.
     bnd (GetValidator K w valAddr) (\<lambda>validator.
     bnd (Delegate K w toAddr (CoinAmount (sdl_Amount msg)) validator) (\<lambda>(w, newShares).
     bnd (Lock K ctx w \<lparr>lk_Address = ToAddress msg, lk_UnlockDate = sdl_UnlockDate msg,
                        lk_Amount = sdl_Amount msg\<rparr>) (\<lambda>(w, events).
     Inr (w, (''delegate'', [(''validator'', ValidatorAddress msg), (''delegator'', ToAddress msg),
                (''amount'', coin_String (sdl_Amount msg)), (''new_shares'', dec_String newShares)])
             # events))))))))))))"

definition output_total :: "MultiOutput list \<Rightarrow> int res" where
  "output_total outs =
     foldM (\<lambda>totalOutputs output.
       bnd (require (coin_IsPositive (out_Amount output)) ErrInvalidCoins) (\<lambda>_.
       int_add totalOutputs (CoinAmount (out_Amount output)))) 0 outs"

text \<open>One round of the second loop of \<open>MultiSendDelegateAndLock\<close>.\<close>

definition multi_one ::
    "('w, 'v) sdk \<Rightarrow> sdk_ctx \<Rightarrow> string \<Rightarrow> 'w \<times> event list \<Rightarrow> MultiOutput \<Rightarrow> ('w \<times> event list) res" where
  "multi_one K ctx fromAddress st output =
     bnd (SendDelegateAndLock K ctx (fst st)
            \<lparr>FromAddress = fromAddress, ToAddress = out_ToAddress output,
             ValidatorAddress = out_ValidatorAddress output,
             sdl_UnlockDate = out_UnlockDate output, sdl_Amount = out_Amount output\<rparr>) (\<lambda>(w, es).
     Inr (w, snd st @ es))"

definition MultiSendDelegateAndLock ::
    "('w, 'v) sdk \<Rightarrow> sdk_ctx \<Rightarrow> 'w \<Rightarrow> MsgMultiSendDelegateAndLock \<Rightarrow> ('w \<times> event list) res" where
  "MultiSendDelegateAndLock K ctx w msg =
     bnd (wrap_err ErrInvalidAddress (AccAddressFromBech32 K (mu_FromAddress msg))) (\<lambda>_.
     bnd (output_total (Outputs msg)) (\<lambda>totalOutputs.
     bnd (require (CoinAmount (TotalAmount msg) = totalOutputs)
            (ErrInvalidRequest ''input does not match sum of outputs'')) (\<lambda>_.
     foldM (multi_one K ctx (mu_FromAddress msg)) (w, []) (Outputs msg))))"

end
