(* ===== verification/Lock_Ledger.thy ===== *)
theory Lock_Ledger
  imports Lock_Msgs
begin

text \<open>
  The specification of the lock book and the expiry queue together, and the refinement of the
  message handlers to it. \<open>put_lock\<close> and \<open>cut_lock\<close> say what adding to and taking from a list of
  locks mean; \<open>ledger_ok\<close> says that the lists are well formed and that the queue holds, for every
  time and address, exactly what the address's locks of that date amount to. The locale
  \<open>lock_ledger\<close> is the interface the handlers rely on; its lemmas show that a deposit and a move
  keep \<open>ledger_ok\<close>, and the model's store operations are shown to implement it.
\<close>

section \<open>Operations on lists of locks\<close>

definition put_lock :: "string \<Rightarrow> int \<Rightarrow> lock list \<Rightarrow> lock list" where
  "put_lock d x ls =
     (case find_lock d 0 ls of
        Some (l, i) \<Rightarrow> ls[i := \<lparr>UnlockDate = UnlockDate l, Amount = Amount l + x\<rparr>]
      | None \<Rightarrow> insert_lock \<lparr>UnlockDate = d, Amount = x\<rparr> ls)"

definition cut_lock :: "string \<Rightarrow> int \<Rightarrow> lock list \<Rightarrow> lock list" where
  "cut_lock d x ls =
     (case find_lock d 0 ls of
        None \<Rightarrow> ls
      | Some (l, i) \<Rightarrow>
          if Amount l = x then take i ls @ drop (Suc i) ls
          else ls[i := \<lparr>UnlockDate = UnlockDate l, Amount = Amount l - x\<rparr>])"

text \<open>The amount of the locks whose date satisfies a condition.\<close>

definition amt :: "(string \<Rightarrow> bool) \<Rightarrow> lock list \<Rightarrow> int" where
  "amt P ls = (\<Sum>l \<leftarrow> ls. if P (UnlockDate l) then Amount l else 0)"

lemma locked_sum_amt: "locked_sum day ls = amt (IsLocked day) ls"
  by (simp add: locked_sum_def amt_def)

lemma find_lock_0:
  assumes "find_lock d 0 ls = Some (l, i)"
  shows "i < length ls" "ls ! i = l" "UnlockDate l = d"
  using find_lock_Some [OF assms] by simp_all

lemma amt_put_lock: "amt P (put_lock d x ls) = amt P ls + (if P d then x else 0)"
  by (auto simp: put_lock_def amt_def sum_insert_lock sum_list_update_nth find_lock_0
      split: option.split)

lemma amt_cut_lock:
  assumes "find_lock d 0 ls = Some (l, i)"
  shows "amt P (cut_lock d x ls) = amt P ls - (if P d then x else 0)"
  using assms
  by (auto simp: cut_lock_def amt_def sum_list_remove_nth sum_list_update_nth find_lock_0
      simp del: map_append)

lemma amt_nonneg: "locks_wf ls \<Longrightarrow> 0 \<le> amt P ls"
  unfolding amt_def by (rule sum_list_map_nonneg) (auto simp: locks_wf_def)

lemma amt_member:
  assumes "locks_wf ls" "l \<in> set ls" "P (UnlockDate l)"
  shows "Amount l \<le> amt P ls"
proof -
  let ?f = "\<lambda>l. if P (UnlockDate l) then Amount l else 0"
  have "?f l \<le> sum_list (map ?f ls)"
    by (rule member_le_sum_list_map [OF assms(2)]) (use assms(1) in \<open>auto simp: locks_wf_def\<close>)
  with assms(3) show ?thesis by (simp add: amt_def)
qed

lemma find_lock_0_member: "find_lock d 0 ls = Some (l, i) \<Longrightarrow> l \<in> set ls"
  using find_lock_0 by (metis nth_mem)

lemma locks_wf_put:
  assumes wf: "locks_wf ls" and d: "Parse_DateOnly d = Inr t" "0 \<le> t" "0 < x"
  shows "locks_wf (put_lock d x ls)"
proof (cases "find_lock d 0 ls")
  case None
  then have "d \<notin> UnlockDate ` set ls" by (simp add: find_lock_None)
  with None wf d show ?thesis
    by (auto simp: put_lock_def locks_wf_def intro!: insert_lock_sorted)
next
  case (Some li)
  then obtain l i where li: "find_lock d 0 ls = Some (l, i)" by (cases li) auto
  have l: "l \<in> set ls" using li by (rule find_lock_0_member)
  let ?l = "\<lparr>UnlockDate = UnlockDate l, Amount = Amount l + x\<rparr>"
  have "date_sorted (ls[i := ?l])"
    using wf find_lock_0 [OF li] by (intro date_sorted_update) (auto simp: locks_wf_def)
  moreover have "set (ls[i := ?l]) \<subseteq> insert ?l (set ls)" by (rule set_update_subset_insert)
  ultimately show ?thesis
    using wf d l li by (fastforce simp: put_lock_def locks_wf_def)
qed

lemma locks_wf_cut:
  assumes wf: "locks_wf ls" and x: "find_lock d 0 ls = Some (l, i)" "x \<le> Amount l"
  shows "locks_wf (cut_lock d x ls)"
proof (cases "Amount l = x")
  case True
  have "set (take i ls @ drop (Suc i) ls) \<subseteq> set ls"
    by (auto dest: in_set_takeD in_set_dropD)
  with True wf x show ?thesis
    by (auto simp: cut_lock_def locks_wf_def intro!: date_sorted_remove)
next
  case False
  let ?l = "\<lparr>UnlockDate = UnlockDate l, Amount = Amount l - x\<rparr>"
  have "date_sorted (ls[i := ?l])"
    using wf find_lock_0 [OF x(1)] by (intro date_sorted_update) (auto simp: locks_wf_def)
  moreover have "set (ls[i := ?l]) \<subseteq> insert ?l (set ls)" by (rule set_update_subset_insert)
  ultimately show ?thesis
    using False wf x find_lock_0_member [OF x(1)] by (fastforce simp: cut_lock_def locks_wf_def)
qed

section \<open>Agreement of book and queue\<close>

definition date_word :: "string \<Rightarrow> 64 word" where
  "date_word d = (case Parse_DateOnly d of Inl _ \<Rightarrow> 0 | Inr t \<Rightarrow> unix_word t)"

text \<open>What the locks of an address amount to at a time.\<close>

definition due :: "64 word \<Rightarrow> lock list \<Rightarrow> int" where
  "due u ls = amt (\<lambda>d. date_word d = u) ls"

definition ledger_ok ::
    "(addr \<Rightarrow> lock list) \<Rightarrow> (64 word \<Rightarrow> addr \<Rightarrow> int) \<Rightarrow> (64 word \<Rightarrow> addr \<Rightarrow> bool) \<Rightarrow> bool" where
  "ledger_ok bk q qd \<longleftrightarrow>
     (\<forall>a. locks_wf (bk a)) \<and> (\<forall>u a. q u a = due u (bk a)) \<and> (\<forall>u a. qd u a \<longleftrightarrow> due u (bk a) \<noteq> 0)"

lemma date_word_parsed: "Parse_DateOnly d = Inr t \<Longrightarrow> date_word d = unix_word t"
  by (simp add: date_word_def)

lemma ledger_okI:
  assumes "\<And>a. locks_wf (bk a)" "\<And>u a. q u a = due u (bk a)" "\<And>u a. qd u a \<longleftrightarrow> due u (bk a) \<noteq> 0"
  shows "ledger_ok bk q qd"
  using assms by (simp add: ledger_ok_def)

lemma ledger_okD:
  assumes "ledger_ok bk q qd"
  shows "locks_wf (bk a)" "q u a = due u (bk a)" "qd u a \<longleftrightarrow> due u (bk a) \<noteq> 0"
  using assms by (simp_all add: ledger_ok_def)

text \<open>The two changes of a ledger that the handlers make.\<close>

lemma ledger_ok_deposit:
  assumes ok: "ledger_ok bk q qd" and d: "Parse_DateOnly d = Inr t" "0 \<le> t" "0 < x"
  defines "u \<equiv> unix_word t"
  shows "ledger_ok (bk(a := put_lock d x (bk a))) (q(u := (q u)(a := q u a + x))) (qd(u := (qd u)(a := True)))"
proof (rule ledger_okI)
  have wf: "locks_wf (bk a)" for a using ledger_okD(1) [OF ok] .
  have due: "due v (put_lock d x (bk a)) = due v (bk a) + (if v = u then x else 0)" for v
    by (auto simp: due_def amt_put_lock date_word_parsed [OF d(1)] u_def)
  fix v b
  show "locks_wf ((bk(a := put_lock d x (bk a))) b)"
    using wf locks_wf_put [OF wf d] by simp
  show "(q(u := (q u)(a := q u a + x))) v b = due v ((bk(a := put_lock d x (bk a))) b)"
    using ledger_okD(2) [OF ok] due by auto
  have "0 \<le> due u (bk a)" unfolding due_def by (rule amt_nonneg [OF wf])
  then show "(qd(u := (qd u)(a := True))) v b \<longleftrightarrow> due v ((bk(a := put_lock d x (bk a))) b) \<noteq> 0"
    using ledger_okD(3) [OF ok] due d(3) by auto
qed

lemma ledger_ok_withdraw:
  assumes ok: "ledger_ok bk q qd" and d: "Parse_DateOnly d = Inr t" "0 \<le> t" "0 < x"
    and l: "find_lock d 0 (bk a) = Some (l, i)" "x \<le> Amount l"
  defines "u \<equiv> unix_word t"
  shows "ledger_ok (bk(a := cut_lock d x (bk a))) (q(u := (q u)(a := q u a - x)))
    (qd(u := (qd u)(a := q u a \<noteq> x)))"
proof (rule ledger_okI)
  have wf: "locks_wf (bk a)" for a using ledger_okD(1) [OF ok] .
  have due: "due v (cut_lock d x (bk a)) = due v (bk a) - (if v = u then x else 0)" for v
    by (auto simp: due_def amt_cut_lock [OF l(1)] date_word_parsed [OF d(1)] u_def)
  fix v b
  show "locks_wf ((bk(a := cut_lock d x (bk a))) b)"
    using wf locks_wf_cut [OF wf l] by simp
  show "(q(u := (q u)(a := q u a - x))) v b = due v ((bk(a := cut_lock d x (bk a))) b)"
    using ledger_okD(2) [OF ok] due by auto
  show "(qd(u := (qd u)(a := q u a \<noteq> x))) v b \<longleftrightarrow> due v ((bk(a := cut_lock d x (bk a))) b) \<noteq> 0"
    using ledger_okD(2,3) [OF ok] due by auto
qed

text \<open>A lock in the book is in the queue.\<close>

lemma ledger_ok_queued:
  assumes ok: "ledger_ok bk q qd" and d: "Parse_DateOnly d = Inr t"
    and l: "find_lock d 0 (bk a) = Some (l, i)"
  shows "qd (unix_word t) a"
proof -
  have wf: "locks_wf (bk a)" using ledger_okD(1) [OF ok] .
  have "Amount l \<le> due (unix_word t) (bk a)"
    unfolding due_def using wf find_lock_0_member [OF l] find_lock_0 [OF l] date_word_parsed [OF d]
    by (intro amt_member) simp_all
  moreover have "0 < Amount l" using wf find_lock_0_member [OF l] by (simp add: locks_wf_def)
  ultimately show ?thesis using ledger_okD(3) [OF ok] by simp
qed

section \<open>The interface of the store\<close>

locale lock_ledger =
  fixes lbook :: "'w \<Rightarrow> addr \<Rightarrow> lock list"
    and lqueue :: "'w \<Rightarrow> 64 word \<Rightarrow> addr \<Rightarrow> int"
    and lqueued :: "'w \<Rightarrow> 64 word \<Rightarrow> addr \<Rightarrow> bool"
    and lkeys :: "'w \<Rightarrow> bool"
    and put :: "'w \<Rightarrow> addr \<Rightarrow> string \<Rightarrow> int \<Rightarrow> 'w res"
    and cut :: "'w \<Rightarrow> addr \<Rightarrow> string \<Rightarrow> int \<Rightarrow> 'w res"
    and enq :: "'w \<Rightarrow> gotime \<Rightarrow> addr \<Rightarrow> int \<Rightarrow> 'w res"
    and deq :: "'w \<Rightarrow> gotime \<Rightarrow> addr \<Rightarrow> int \<Rightarrow> 'w res"
  assumes put_book: "put w a d x = Inr w' \<Longrightarrow> lbook w' = (lbook w)(a := put_lock d x (lbook w a))"
    and put_queue: "put w a d x = Inr w' \<Longrightarrow> lqueue w' = lqueue w \<and> lqueued w' = lqueued w"
    and cut_book: "cut w a d x = Inr w' \<Longrightarrow>
      \<exists>l i. find_lock d 0 (lbook w a) = Some (l, i) \<and> x \<le> Amount l \<and>
        lbook w' = (lbook w)(a := cut_lock d x (lbook w a))"
    and cut_queue: "cut w a d x = Inr w' \<Longrightarrow> lqueue w' = lqueue w \<and> lqueued w' = lqueued w"
    and enq_queue: "enq w t a x = Inr w' \<Longrightarrow> u = unix_word t \<Longrightarrow>
      lqueue w' = (lqueue w)(u := (lqueue w u)(a := lqueue w u a + x)) \<and>
      lqueued w' = (lqueued w)(u := (lqueued w u)(a := True)) \<and> lbook w' = lbook w"
    and deq_queue: "deq w t a x = Inr w' \<Longrightarrow> u = unix_word t \<Longrightarrow> lqueued w u a \<Longrightarrow>
      lqueue w' = (lqueue w)(u := (lqueue w u)(a := lqueue w u a - x)) \<and>
      lqueued w' = (lqueued w)(u := (lqueued w u)(a := lqueue w u a \<noteq> x)) \<and> lbook w' = lbook w"
    and put_keys: "put w a d x = Inr w' \<Longrightarrow> lkeys w \<Longrightarrow> lkeys w'"
    and cut_keys: "cut w a d x = Inr w' \<Longrightarrow> lkeys w \<Longrightarrow> lkeys w'"
    and enq_keys: "enq w t a x = Inr w' \<Longrightarrow> lkeys w \<Longrightarrow> lkeys w'"
    and deq_keys: "deq w t a x = Inr w' \<Longrightarrow> lkeys w \<Longrightarrow> lkeys w'"
begin

abbreviation consistent :: "'w \<Rightarrow> bool" where
  "consistent w \<equiv> ledger_ok (lbook w) (lqueue w) (lqueued w) \<and> lkeys w"

lemma deposit:
  assumes "consistent w" "Parse_DateOnly d = Inr t" "0 \<le> t" "0 < x"
    and "put w a d x = Inr w1" "enq w1 t a x = Inr w2"
  shows "consistent w2 \<and> lbook w2 = (lbook w)(a := put_lock d x (lbook w a))"
  using ledger_ok_deposit [OF conjunct1 [OF assms(1)] assms(2-4), of a] assms(1)
    put_book [OF assms(5)] put_queue [OF assms(5)] enq_queue [OF assms(6) refl]
    put_keys [OF assms(5)] enq_keys [OF assms(6)]
  by simp

text \<open>
  A move writes the book twice before it touches the queue; the queue entry it reduces is still
  there because the two dates differ.
\<close>

lemma move:
  assumes con: "consistent w" and d1: "Parse_DateOnly d1 = Inr t1" "0 \<le> t1"
    and d2: "Parse_DateOnly d2 = Inr t2" "0 \<le> t2" and x: "0 < x"
    and s: "cut w a d1 x = Inr w1" "put w1 a d2 x = Inr w2"
      "deq w2 t1 a x = Inr w3" "enq w3 t2 a x = Inr w4"
  shows "consistent w4 \<and> lbook w4 = (lbook w)(a := put_lock d2 x (cut_lock d1 x (lbook w a)))"
proof -
  have ok: "ledger_ok (lbook w) (lqueue w) (lqueued w)" and keys: "lkeys w4"
    using con cut_keys [OF s(1)] put_keys [OF s(2)] deq_keys [OF s(3)] enq_keys [OF s(4)] by simp_all
  from cut_book [OF s(1)] obtain l i where l: "find_lock d1 0 (lbook w a) = Some (l, i)" "x \<le> Amount l"
    and b1: "lbook w1 = (lbook w)(a := cut_lock d1 x (lbook w a))" by blast
  have b2: "lbook w2 = (lbook w)(a := put_lock d2 x (cut_lock d1 x (lbook w a)))"
    using put_book [OF s(2)] b1 by simp
  have q2: "lqueue w2 = lqueue w" "lqueued w2 = lqueued w"
    using cut_queue [OF s(1)] put_queue [OF s(2)] by simp_all
  have "lqueued w2 (unix_word t1) a"
    using ledger_ok_queued [OF ok d1(1) l(1)] q2 by simp
  note dq = deq_queue [OF s(3) refl this] and eq = enq_queue [OF s(4) refl]
  have "ledger_ok (lbook w1) (lqueue w3) (lqueued w3)"
    using ledger_ok_withdraw [OF ok d1 x l] dq q2 b1 by simp
  from ledger_ok_deposit [OF this d2 x, of a] show ?thesis
    using dq eq b1 b2 keys by simp
qed

end

section \<open>The model implements the interface\<close>

context lockup_env
begin

lemma add_to_lock_book:
  assumes "add_to_lock K w a d x = Inr w'"
  shows "book K view w' = (book K view w)(a := put_lock d x (book K view w a))"
    and "queue K view w' = queue K view w \<and> queued view w' = queued view w"
proof -
  from assms obtain found where fd: "GetLockByAddressAndDate K w a d = Inr found"
    by (auto simp: add_to_lock_def)
  show "book K view w' = (book K view w)(a := put_lock d x (book K view w a))"
  proof (cases found)
    case None
    with assms fd have s: "SetLockByAddress K w a \<lparr>UnlockDate = d, Amount = x\<rparr> = Inr w'"
      by (simp add: add_to_lock_def)
    then obtain ls where ls: "GetLocksByAddress K w a = Inr ls"
      by (auto simp: SetLockByAddress_def GetLocksByAddress_def Let_def)
    have "find_lock d 0 (book K view w a) = None"
      using GetLockByAddressAndDate_None [OF fd [unfolded None] ls] by (simp add: find_lock_None)
    with SetLockByAddress_book [OF s] show ?thesis by (simp add: put_lock_def)
  next
    case (Some li)
    with fd obtain l i ls where li: "GetLockByAddressAndDate K w a d = Inr (Some (l, i))"
      and ls: "GetLocksByAddress K w a = Inr ls" "find_lock d 0 ls = Some (l, i)"
      by (cases li) (auto simp: GetLockByAddressAndDate_def split: sum.splits if_splits)
    with assms have u: "UpdateLockByAddressAndIndex K w a (int i)
        \<lparr>UnlockDate = UnlockDate l, Amount = Amount l + x\<rparr> = Inr w'"
      by (auto simp: add_to_lock_def int_op_Inr)
    show ?thesis
      using UpdateLockByAddressAndIndex_book [OF u] ls GetLocksByAddress_book [OF ls(1)]
      by (simp add: put_lock_def)
  qed
  show "queue K view w' = queue K view w \<and> queued view w' = queued view w"
    using assms
    by (auto simp: add_to_lock_def split: option.splits
        dest: UpdateLockByAddressAndIndex_queue SetLockByAddress_queue)
qed

lemma take_from_lock_book:
  assumes "take_from_lock K w a d x = Inr w'"
  shows "\<exists>l i. find_lock d 0 (book K view w a) = Some (l, i) \<and> x \<le> Amount l \<and>
      book K view w' = (book K view w)(a := cut_lock d x (book K view w a))"
    and "queue K view w' = queue K view w \<and> queued view w' = queued view w"
proof -
  from assms obtain l i ls where ls: "GetLocksByAddress K w a = Inr ls" "find_lock d 0 ls = Some (l, i)"
    and x: "x \<le> Amount l"
    and w': "(if Amount l = x then DeleteLockByAddressAndIndex K w a (int i)
       else bnd (int_sub (Amount l) x) (\<lambda>rest. UpdateLockByAddressAndIndex K w a (int i)
         \<lparr>UnlockDate = UnlockDate l, Amount = rest\<rparr>)) = Inr w'"
    by (auto simp: take_from_lock_def GetLockByAddressAndDate_def not_less
        split: option.splits sum.splits if_split_asm)
  note b = GetLocksByAddress_book [OF ls(1)]
  have "book K view w' = (book K view w)(a := cut_lock d x (book K view w a))"
    using w' ls(2) b
    by (auto simp: cut_lock_def int_op_Inr split: if_splits
        dest: DeleteLockByAddressAndIndex_book(2) UpdateLockByAddressAndIndex_book(2))
  then show "\<exists>l i. find_lock d 0 (book K view w a) = Some (l, i) \<and> x \<le> Amount l \<and>
      book K view w' = (book K view w)(a := cut_lock d x (book K view w a))"
    using ls(2) b x by auto
  show "queue K view w' = queue K view w \<and> queued view w' = queued view w"
    using w'
    by (auto split: if_splits
        dest: DeleteLockByAddressAndIndex_queue UpdateLockByAddressAndIndex_queue)
qed

lemma add_to_lock_keys: "add_to_lock K w a d x = Inr w' \<Longrightarrow> lockup_keys view w \<Longrightarrow> lockup_keys view w'"
  by (auto simp: add_to_lock_def UpdateLockByAddressAndIndex_def split: option.splits if_splits)
    (blast intro: SetLockByAddress_keys SetLocksByAddress_keys)+

lemma take_from_lock_keys:
  "take_from_lock K w a d x = Inr w' \<Longrightarrow> lockup_keys view w \<Longrightarrow> lockup_keys view w'"
  by (auto simp: take_from_lock_def UpdateLockByAddressAndIndex_def DeleteLockByAddressAndIndex_def
      split: option.splits if_splits) (blast intro: SetLocksByAddress_keys)+

lemma enq_law:
  assumes "AddToExpirationQueue K w t a x = Inr w'" "u = unix_word t"
  shows "queue K view w' = (queue K view w)(u := (queue K view w u)(a := queue K view w u a + x)) \<and>
    queued view w' = (queued view w)(u := (queued view w u)(a := True)) \<and>
    book K view w' = book K view w"
  using AddToExpirationQueue_queue [OF assms(1)] unfolding assms(2) by (intro conjI)

lemma deq_law:
  assumes "RemoveFromExpirationQueue K w t a x = Inr w'" "u = unix_word t" "queued view w u a"
  shows "queue K view w' = (queue K view w)(u := (queue K view w u)(a := queue K view w u a - x)) \<and>
    queued view w' = (queued view w)(u := (queued view w u)(a := queue K view w u a \<noteq> x)) \<and>
    book K view w' = book K view w"
  using RemoveFromExpirationQueue_queue [OF assms(1)] assms(3) unfolding assms(2) by (intro conjI)

end

sublocale lockup_env \<subseteq> ledger: lock_ledger "book K view" "queue K view" "queued view"
  "lockup_keys view" "add_to_lock K" "take_from_lock K" "AddToExpirationQueue K" "RemoveFromExpirationQueue K"
  by unfold_locales
    (erule add_to_lock_book(1) add_to_lock_book(2) take_from_lock_book(1) take_from_lock_book(2) |
      rule enq_law deq_law add_to_lock_keys take_from_lock_keys AddToExpirationQueue_keys
        RemoveFromExpirationQueue_keys, assumption+)+

end
