(* ===== verification/Lock_Inv.thy ===== *)
theory Lock_Inv
  imports Lock_Ledger
begin

text \<open>
  The handlers of the lockup module as a state machine: what each does to the ledger, that each
  keeps book and queue in agreement, and the invariant of all reachable states. A step is a
  message that passed its stateless validation and its handler, or work of other modules, which
  leave the module's store as it is.
\<close>

definition lockup_ok :: "('w, 'v) sdk \<Rightarrow> ('w \<Rightarrow> bytes \<Rightarrow> bytes option) \<Rightarrow> 'w \<Rightarrow> bool" where
  "lockup_ok K view w \<longleftrightarrow>
     ledger_ok (book K view w) (queue K view w) (queued view w) \<and> lockup_keys view w"

lemma lockup_ok_cong:
  assumes "view w' = view w"
  shows "lockup_ok K view w' \<longleftrightarrow> lockup_ok K view w"
  using book_cong [of view w' w K, OF assms] queue_cong [of view w' w K, OF assms]
  by (simp add: lockup_ok_def lockup_keys_def assms)

section \<open>Inversion of the handlers\<close>

lemma check_date_window_Inr:
  "check_date_window ctx t = Inr () \<longleftrightarrow>
     blockDay (BlockTime ctx) < t \<and> t \<le> AddDate (blockDay (BlockTime ctx)) 2 0 0"
  by (auto simp: check_date_window_def Let_def res_iffs)

lemma blockDay_nonneg: "0 \<le> t \<Longrightarrow> 0 \<le> blockDay t"
  by (simp add: blockDay_eq midnight_def day_number_def pos_imp_zdiv_nonneg_iff zero_le_mult_iff less_imp_le)

lemma window_nonneg:
  "check_date_window ctx t = Inr () \<Longrightarrow> 0 \<le> BlockTime ctx \<Longrightarrow> 0 \<le> t"
  using blockDay_nonneg [of "BlockTime ctx"] by (simp add: check_date_window_Inr)

lemma Lock_InrE:
  assumes "Lock K ctx w msg = Inr (w', ev)"
  obtains a t locked n w1 where
    "AccAddressFromBech32 K (lk_Address msg) = Inr a" "BondDenom K w = Inr (Denom (lk_Amount msg))"
    "Parse_DateOnly (lk_UnlockDate msg) = Inr t" "check_date_window ctx t = Inr ()"
    "0 < CoinAmount (lk_Amount msg)" "GetLockedAmountByAddress K ctx w a = Inr locked"
    "GetTotalDelegatedAmount K w a = Inr n" "locked + CoinAmount (lk_Amount msg) \<le> n"
    "add_to_lock K w a (lk_UnlockDate msg) (CoinAmount (lk_Amount msg)) = Inr w1"
    "AddToExpirationQueue K w1 t a (CoinAmount (lk_Amount msg)) = Inr w'"
  using assms by (auto simp: Lock_def int_op_Inr not_less)

lemma extend_one_InrE:
  assumes "extend_one K ctx address a (w, evs) e = Inr (w', ev')"
  obtains t1 t2 w1 w2 w3 where
    "Parse_DateOnly (FromDate e) = Inr t1" "Parse_DateOnly (ToDate e) = Inr t2" "t1 < t2"
    "check_date_window ctx t2 = Inr ()"
    "take_from_lock K w a (FromDate e) (CoinAmount (ext_Amount e)) = Inr w1"
    "add_to_lock K w1 a (ToDate e) (CoinAmount (ext_Amount e)) = Inr w2"
    "RemoveFromExpirationQueue K w2 t1 a (CoinAmount (ext_Amount e)) = Inr w3"
    "AddToExpirationQueue K w3 t2 a (CoinAmount (ext_Amount e)) = Inr w'"
  using assms by (auto simp: extend_one_def Let_def)

lemma SendDelegateAndLock_InrE:
  assumes "SendDelegateAndLock K ctx w msg = Inr (w', ev)"
  obtains fa ta coins w1 val v w2 sh ev' where
    "0 < CoinAmount (sdl_Amount msg)"
    "AccAddressFromBech32 K (FromAddress msg) = Inr fa" "AccAddressFromBech32 K (ToAddress msg) = Inr ta"
    "NewCoins K (sdl_Amount msg) = Inr coins" "SendCoins K w fa ta coins = Inr w1"
    "ValAddressFromBech32 K (ValidatorAddress msg) = Inr val" "GetValidator K w1 val = Inr v"
    "Delegate K w1 ta (CoinAmount (sdl_Amount msg)) v = Inr (w2, sh)"
    "Lock K ctx w2 \<lparr>lk_Address = ToAddress msg, lk_UnlockDate = sdl_UnlockDate msg,
       lk_Amount = sdl_Amount msg\<rparr> = Inr (w', ev')"
  using assms by (auto simp: SendDelegateAndLock_def)

lemma Extension_validate_Inr:
  "Extension_validate e = Inr () \<longleftrightarrow> (\<exists>t1 t2. Parse_DateOnly (FromDate e) = Inr t1 \<and>
     Parse_DateOnly (ToDate e) = Inr t2 \<and> t1 < t2 \<and> 0 < CoinAmount (ext_Amount e))"
  by (auto simp: Extension_validate_def res_iffs Parse_DateOnly_def Let_def)

lemma validate_all:
  "foldM (\<lambda>_ e. Extension_validate e) () es = Inr () \<longleftrightarrow> (\<forall>e \<in> set es. Extension_validate e = Inr ())"
  by (induction es) (auto simp: res_iffs)

lemma output_total_Inr:
  assumes "output_total outs = Inr n"
  shows "n = (\<Sum>out \<leftarrow> outs. CoinAmount (out_Amount out)) \<and>
    (\<forall>out \<in> set outs. 0 < CoinAmount (out_Amount out))"
proof -
  have "y = x + (\<Sum>out \<leftarrow> outs. CoinAmount (out_Amount out)) \<and>
      (\<forall>out \<in> set outs. 0 < CoinAmount (out_Amount out))"
    if "foldM (\<lambda>total output. bnd (require (coin_IsPositive (out_Amount output)) ErrInvalidCoins) (\<lambda>_.
          int_add total (CoinAmount (out_Amount output)))) x outs = Inr y" for x y
    using that
  proof (induction outs arbitrary: x)
    case Nil
    then show ?case by simp
  next
    case (Cons out outs)
    then have "0 < CoinAmount (out_Amount out)"
      "y = (x + CoinAmount (out_Amount out)) + (\<Sum>out \<leftarrow> outs. CoinAmount (out_Amount out)) \<and>
       (\<forall>out \<in> set outs. 0 < CoinAmount (out_Amount out))"
      by (auto simp: int_op_Inr intro!: Cons.IH)
    then show ?case by simp
  qed
  from this [of 0 n] assms show ?thesis by (simp add: output_total_def)
qed

section \<open>The state machine\<close>

datatype lockup_msg =
    Lock_msg MsgLock
  | Extend_msg MsgExtend
  | Send_msg MsgSendDelegateAndLock
  | Multi_msg MsgMultiSendDelegateAndLock

definition run_msg ::
    "('w, 'v) sdk \<Rightarrow> sdk_ctx \<Rightarrow> 'w \<Rightarrow> lockup_msg \<Rightarrow> ('w \<times> event list) res" where
  "run_msg K ctx w m =
     (case m of
        Lock_msg msg \<Rightarrow> bnd (MsgLock_ValidateBasic K msg) (\<lambda>_. Lock K ctx w msg)
      | Extend_msg msg \<Rightarrow> bnd (MsgExtend_ValidateBasic K msg) (\<lambda>_. Extend K ctx w msg)
      | Send_msg msg \<Rightarrow>
          bnd (MsgSendDelegateAndLock_ValidateBasic K msg) (\<lambda>_. SendDelegateAndLock K ctx w msg)
      | Multi_msg msg \<Rightarrow>
          bnd (MsgMultiSendDelegateAndLock_ValidateBasic K msg) (\<lambda>_. MultiSendDelegateAndLock K ctx w msg))"

text \<open>
  The states of a chain: \<open>InitGenesis\<close> writes nothing, so a new chain has no lockup key; block
  times lie after the Unix epoch.
\<close>

inductive reachable :: "('w, 'v) sdk \<Rightarrow> ('w \<Rightarrow> bytes \<Rightarrow> bytes option) \<Rightarrow> 'w \<Rightarrow> bool"
  for K view where
  genesis: "(\<And>k. view w k = None) \<Longrightarrow> reachable K view w"
| deliver: "reachable K view w \<Longrightarrow> 0 \<le> BlockTime ctx \<Longrightarrow> run_msg K ctx w m = Inr (w', ev) \<Longrightarrow>
    reachable K view w'"
| other_module: "reachable K view w \<Longrightarrow> view w' = view w \<Longrightarrow> reachable K view w'"

lemma ledger_ok_empty: "ledger_ok (\<lambda>_. []) (\<lambda>_ _. 0) (\<lambda>_ _. False)"
  by (simp add: ledger_ok_def locks_wf_def date_sorted_def due_def amt_def)

context lockup_env
begin

lemma genesis_ok: "(\<And>k. view w k = None) \<Longrightarrow> lockup_ok K view w"
proof -
  assume "\<And>k. view w k = None"
  then have "book K view w = (\<lambda>_. [])" "queue K view w = (\<lambda>_ _. 0)" "queued view w = (\<lambda>_ _. False)"
    "lockup_keys view w"
    by (simp_all add: fun_eq_iff book_def queue_def queued_def lockup_keys_def)
  then show ?thesis using ledger_ok_empty by (simp add: lockup_ok_def)
qed

lemma Lock_ledger:
  assumes "Lock K ctx w msg = Inr (w', ev)" "AccAddressFromBech32 K (lk_Address msg) = Inr a"
  shows "book K view w' =
    (book K view w)(a := put_lock (lk_UnlockDate msg) (CoinAmount (lk_Amount msg)) (book K view w a))"
  using assms(1)
proof (rule Lock_InrE)
  fix b t locked n w1
  assume "AccAddressFromBech32 K (lk_Address msg) = Inr b"
    and "add_to_lock K w b (lk_UnlockDate msg) (CoinAmount (lk_Amount msg)) = Inr w1"
    and "AddToExpirationQueue K w1 t b (CoinAmount (lk_Amount msg)) = Inr w'"
  with assms(2) show ?thesis
    using ledger.put_book ledger.enq_queue by fastforce
qed

lemma Lock_bound:
  assumes "Lock K ctx w msg = Inr (w', ev)" "AccAddressFromBech32 K (lk_Address msg) = Inr a"
  defines "day \<equiv> blockDay (BlockTime ctx)" and "x \<equiv> CoinAmount (lk_Amount msg)"
  shows "\<exists>n. GetTotalDelegatedAmount K w a = Inr n \<and>
    locked_sum day (book K view w' a) = locked_sum day (book K view w a) + x \<and>
    locked_sum day (book K view w' a) \<le> n"
  using assms(1)
proof (rule Lock_InrE)
  fix b t locked n w1
  assume *: "AccAddressFromBech32 K (lk_Address msg) = Inr b"
    "Parse_DateOnly (lk_UnlockDate msg) = Inr t" "check_date_window ctx t = Inr ()"
    "GetLockedAmountByAddress K ctx w b = Inr locked"
    "GetTotalDelegatedAmount K w b = Inr n" "locked + CoinAmount (lk_Amount msg) \<le> n"
  have "IsLocked day (lk_UnlockDate msg)"
    using *(2,3) by (simp add: IsLocked_parsed check_date_window_Inr day_def)
  then have "locked_sum day (book K view w' a) = locked_sum day (book K view w a) + x"
    using Lock_ledger [OF assms(1,2)] by (simp add: locked_sum_amt amt_put_lock x_def)
  then show ?thesis
    using * assms(2) GetLockedAmountByAddress_Inr [OF *(4)] by (simp add: day_def x_def)
qed

lemma Lock_ok:
  assumes "Lock K ctx w msg = Inr (w', ev)" "0 \<le> BlockTime ctx" "lockup_ok K view w"
  shows "lockup_ok K view w'"
  using assms(1)
proof (rule Lock_InrE)
  fix a t locked n w1
  assume *: "Parse_DateOnly (lk_UnlockDate msg) = Inr t" "check_date_window ctx t = Inr ()"
    "0 < CoinAmount (lk_Amount msg)"
    "add_to_lock K w a (lk_UnlockDate msg) (CoinAmount (lk_Amount msg)) = Inr w1"
    "AddToExpirationQueue K w1 t a (CoinAmount (lk_Amount msg)) = Inr w'"
  show ?thesis
    using ledger.deposit [OF _ *(1) window_nonneg [OF *(2) assms(2)] *(3-5)] assms(3)
    unfolding lockup_ok_def by blast
qed

lemma extend_one_step:
  assumes "extend_one K ctx address a (w, evs) e = Inr (w', ev')"
    and "0 \<le> BlockTime ctx" "lockup_ok K view w" "0 < CoinAmount (ext_Amount e)"
  shows "lockup_ok K view w' \<and> book K view w' = (book K view w)(a :=
    put_lock (ToDate e) (CoinAmount (ext_Amount e))
      (cut_lock (FromDate e) (CoinAmount (ext_Amount e)) (book K view w a)))"
  using assms(1)
proof (rule extend_one_InrE)
  fix t1 t2 w1 w2 w3
  assume *: "Parse_DateOnly (FromDate e) = Inr t1" "Parse_DateOnly (ToDate e) = Inr t2"
    "check_date_window ctx t2 = Inr ()"
    "take_from_lock K w a (FromDate e) (CoinAmount (ext_Amount e)) = Inr w1"
    "add_to_lock K w1 a (ToDate e) (CoinAmount (ext_Amount e)) = Inr w2"
    "RemoveFromExpirationQueue K w2 t1 a (CoinAmount (ext_Amount e)) = Inr w3"
    "AddToExpirationQueue K w3 t2 a (CoinAmount (ext_Amount e)) = Inr w'"
  have wf: "locks_wf (book K view w a)"
    using assms(3) ledger_okD(1) by (auto simp: lockup_ok_def)
  obtain l i where l: "find_lock (FromDate e) 0 (book K view w a) = Some (l, i)"
    using take_from_lock_book(1) [OF *(4)] by blast
  have "0 \<le> t1"
    using wf find_lock_0_member [OF l] find_lock_0(3) [OF l] *(1) by (auto simp: locks_wf_def)
  from ledger.move [OF _ *(1) this *(2) window_nonneg [OF *(3) assms(2)] assms(4) *(4-7)] assms(3)
  show ?thesis unfolding lockup_ok_def by blast
qed

text \<open>
  What one extension does to the sums: the total stays, and what is locked today grows by the
  amount if the old date has passed.
\<close>

lemma extend_one_sums:
  assumes "extend_one K ctx address a (w, evs) e = Inr (w', ev')"
    and "0 \<le> BlockTime ctx" "lockup_ok K view w" "0 < CoinAmount (ext_Amount e)"
  defines "day \<equiv> blockDay (BlockTime ctx)"
  shows "amt (\<lambda>_. True) (book K view w' a) = amt (\<lambda>_. True) (book K view w a)"
    and "locked_sum day (book K view w' a) = locked_sum day (book K view w a) +
      (if IsLocked day (FromDate e) then 0 else CoinAmount (ext_Amount e))"
    and "b \<noteq> a \<Longrightarrow> book K view w' b = book K view w b"
proof -
  note step = extend_one_step [OF assms(1-4)]
  from assms(1) obtain t2 w1 where t: "Parse_DateOnly (ToDate e) = Inr t2" "check_date_window ctx t2 = Inr ()"
    and w1: "take_from_lock K w a (FromDate e) (CoinAmount (ext_Amount e)) = Inr w1"
    by (rule extend_one_InrE)
  obtain l i where l: "find_lock (FromDate e) 0 (book K view w a) = Some (l, i)"
    using take_from_lock_book(1) [OF w1] by blast
  have "IsLocked day (ToDate e)"
    using t by (simp add: IsLocked_parsed check_date_window_Inr day_def)
  then show "amt (\<lambda>_. True) (book K view w' a) = amt (\<lambda>_. True) (book K view w a)"
    "locked_sum day (book K view w' a) = locked_sum day (book K view w a) +
      (if IsLocked day (FromDate e) then 0 else CoinAmount (ext_Amount e))"
    "b \<noteq> a \<Longrightarrow> book K view w' b = book K view w b"
    using step by (simp_all add: locked_sum_amt amt_put_lock amt_cut_lock [OF l])
qed

lemma extend_loop_sums:
  assumes "foldM (extend_one K ctx address a) (w, evs) es = Inr (w', ev)"
    and "0 \<le> BlockTime ctx" "lockup_ok K view w" "\<forall>e \<in> set es. 0 < CoinAmount (ext_Amount e)"
  defines "day \<equiv> blockDay (BlockTime ctx)"
  shows "amt (\<lambda>_. True) (book K view w' a) = amt (\<lambda>_. True) (book K view w a) \<and>
    locked_sum day (book K view w' a) = locked_sum day (book K view w a) +
      (\<Sum>e \<leftarrow> es. if IsLocked day (FromDate e) then 0 else CoinAmount (ext_Amount e)) \<and>
    (\<forall>b. b \<noteq> a \<longrightarrow> book K view w' b = book K view w b)"
  using assms(1,3,4)
proof (induction es arbitrary: w evs)
  case Nil
  then show ?case by simp
next
  case (Cons e es)
  from Cons.prems(1) obtain w1 ev1 where s: "extend_one K ctx address a (w, evs) e = Inr (w1, ev1)"
    and rest: "foldM (extend_one K ctx address a) (w1, ev1) es = Inr (w', ev)"
    unfolding foldM.simps(2) by (elim bnd_InrE) force
  have e: "0 < CoinAmount (ext_Amount e)" using Cons.prems(3) by simp
  have "lockup_ok K view w1" using extend_one_step [OF s assms(2) Cons.prems(2) e] by simp
  from Cons.IH [OF rest this] Cons.prems(3) extend_one_sums [OF s assms(2) Cons.prems(2) e]
  show ?case by (simp add: day_def)
qed

lemma extend_loop_ok:
  assumes "foldM (extend_one K ctx address a) (w, evs) es = Inr (w', ev)"
    and "0 \<le> BlockTime ctx" "lockup_ok K view w" "\<forall>e \<in> set es. 0 < CoinAmount (ext_Amount e)"
  shows "lockup_ok K view w'"
proof -
  from assms(1) have "lockup_ok K view (fst (w', ev))"
  proof (rule foldM_invariant [where P = "\<lambda>s. lockup_ok K view (fst s)"])
    fix s e s'
    assume "lockup_ok K view (fst s)" "e \<in> set es" "extend_one K ctx address a s e = Inr s'"
    then show "lockup_ok K view (fst s')"
      using extend_one_step [of ctx address a "fst s" "snd s" e "fst s'" "snd s'"] assms(2,4) by simp
  qed (use assms(3) in simp)
  then show ?thesis by simp
qed

lemma SendDelegateAndLock_ok:
  assumes "SendDelegateAndLock K ctx w msg = Inr (w', ev)" "0 \<le> BlockTime ctx" "lockup_ok K view w"
  shows "lockup_ok K view w'"
  using assms(1)
proof (rule SendDelegateAndLock_InrE)
  fix fa ta coins w1 val v w2 sh ev'
  assume s: "SendCoins K w fa ta coins = Inr w1"
    "Delegate K w1 ta (CoinAmount (sdl_Amount msg)) v = Inr (w2, sh)"
    and l: "Lock K ctx w2 \<lparr>lk_Address = ToAddress msg, lk_UnlockDate = sdl_UnlockDate msg,
       lk_Amount = sdl_Amount msg\<rparr> = Inr (w', ev')"
  have "lockup_ok K view w2"
    using assms(3) send_view [OF s(1)] delegate_view [OF s(2)] lockup_ok_cong by metis
  from l assms(2) this show ?thesis by (rule Lock_ok)
qed

lemma SendDelegateAndLock_book:
  assumes "SendDelegateAndLock K ctx w msg = Inr (w', ev)"
  shows "\<exists>a. AccAddressFromBech32 K (ToAddress msg) = Inr a \<and> book K view w' =
    (book K view w)(a := put_lock (sdl_UnlockDate msg) (CoinAmount (sdl_Amount msg)) (book K view w a))"
  using assms
proof (rule SendDelegateAndLock_InrE)
  fix fa ta coins w1 val v w2 sh ev'
  assume ta: "AccAddressFromBech32 K (ToAddress msg) = Inr ta"
    and s: "SendCoins K w fa ta coins = Inr w1"
    "Delegate K w1 ta (CoinAmount (sdl_Amount msg)) v = Inr (w2, sh)"
    and l: "Lock K ctx w2 \<lparr>lk_Address = ToAddress msg, lk_UnlockDate = sdl_UnlockDate msg,
       lk_Amount = sdl_Amount msg\<rparr> = Inr (w', ev')"
  have "book K view w2 = book K view w"
    using send_view [OF s(1)] delegate_view [OF s(2)] by (intro book_cong) simp
  with Lock_ledger [OF l] ta show ?thesis by simp
qed

text \<open>The sums after the loop over the outputs.\<close>

lemma multi_loop_amt:
  assumes "foldM (multi_one K ctx from_addr) (w, evs) outs = Inr (w', ev)"
  shows "amt P (book K view w' a) = amt P (book K view w a) +
    (\<Sum>out \<leftarrow> outs. if AccAddressFromBech32 K (out_ToAddress out) = Inr a \<and> P (out_UnlockDate out)
       then CoinAmount (out_Amount out) else 0)"
  using assms
proof (induction outs arbitrary: w evs)
  case Nil
  then show ?case by simp
next
  case (Cons out outs)
  from Cons.prems obtain w1 ev1 where s: "multi_one K ctx from_addr (w, evs) out = Inr (w1, ev1)"
    and rest: "foldM (multi_one K ctx from_addr) (w1, ev1) outs = Inr (w', ev)"
    unfolding foldM.simps(2) by (elim bnd_InrE) force
  from s obtain m es where m: "SendDelegateAndLock K ctx w m = Inr (w1, es)"
    and f: "ToAddress m = out_ToAddress out" "sdl_UnlockDate m = out_UnlockDate out"
      "sdl_Amount m = out_Amount out"
    by (auto simp: multi_one_def)
  show ?case
    using SendDelegateAndLock_book [OF m] f Cons.IH [OF rest] by (auto simp: amt_put_lock)
qed

lemma multi_loop_ok:
  assumes "MultiSendDelegateAndLock K ctx w msg = Inr (w', ev)" "0 \<le> BlockTime ctx" "lockup_ok K view w"
  shows "lockup_ok K view w'"
proof -
  from assms(1) have "foldM (multi_one K ctx (mu_FromAddress msg)) (w, []) (Outputs msg) = Inr (w', ev)"
    by (auto simp: MultiSendDelegateAndLock_def)
  then have "lockup_ok K view (fst (w', ev))"
  proof (rule foldM_invariant [where P = "\<lambda>s. lockup_ok K view (fst s)"])
    fix s e s'
    assume "lockup_ok K view (fst s)" "multi_one K ctx (mu_FromAddress msg) s e = Inr s'"
    then show "lockup_ok K view (fst s')"
      unfolding multi_one_def by (elim bnd_InrE) (auto dest: SendDelegateAndLock_ok [OF _ assms(2)])
  qed (use assms(3) in simp)
  then show ?thesis by simp
qed

lemma run_msg_ok:
  assumes "run_msg K ctx w m = Inr (w', ev)" "0 \<le> BlockTime ctx" "lockup_ok K view w"
  shows "lockup_ok K view w'"
proof (cases m)
  case (Lock_msg msg)
  with assms(1) have "Lock K ctx w msg = Inr (w', ev)" by (auto simp: run_msg_def)
  then show ?thesis using assms(2,3) by (rule Lock_ok)
next
  case (Extend_msg msg)
  with assms(1) obtain a where v: "foldM (\<lambda>_ e. Extension_validate e) () (Extensions msg) = Inr ()"
    and run: "foldM (extend_one K ctx (ex_Address msg) a) (w, []) (Extensions msg) = Inr (w', ev)"
    by (auto simp: run_msg_def MsgExtend_ValidateBasic_def Extend_def)
  have "\<forall>e \<in> set (Extensions msg). 0 < CoinAmount (ext_Amount e)"
    using v by (auto simp: validate_all Extension_validate_Inr)
  from run assms(2,3) this show ?thesis by (rule extend_loop_ok)
next
  case (Send_msg msg)
  with assms(1) have "SendDelegateAndLock K ctx w msg = Inr (w', ev)" by (auto simp: run_msg_def)
  then show ?thesis using assms(2,3) by (rule SendDelegateAndLock_ok)
next
  case (Multi_msg msg)
  with assms(1) have "MultiSendDelegateAndLock K ctx w msg = Inr (w', ev)" by (auto simp: run_msg_def)
  then show ?thesis using assms(2,3) by (rule multi_loop_ok)
qed

lemma reachable_ok: "reachable K view w \<Longrightarrow> lockup_ok K view w"
proof (induction rule: reachable.induct)
  case (genesis w)
  then show ?case by (rule genesis_ok)
next
  case (deliver w ctx m w' ev)
  then show ?case by (metis run_msg_ok)
next
  case (other_module w w')
  then show ?case by (simp only: lockup_ok_cong [OF other_module.hyps(2)])
qed

end

end
