(* ===== verification/Ref_World.thy ===== *)
theory Ref_World
  imports Sdk
begin

text \<open>
  A concrete environment for the third-party parameters: a key-value store as an association
  list, account balances, delegations whose shares are worth one token each, addresses that are
  their own bech32 form, and the decimal text codec of \<open>math.Int\<close>. It satisfies the locale
  \<open>lockup_env\<close>, so the properties that assume the environment are not vacuous, and it evaluates,
  so they can be applied to concrete transactions.
\<close>

record ref_world =
  rw_store :: "(bytes \<times> bytes) list"
  rw_bal :: "((addr \<times> string) \<times> int) list"
  rw_del :: "((addr \<times> valaddr) \<times> dec) list"

section \<open>Association lists\<close>

definition alist_put :: "'k \<Rightarrow> 'b \<Rightarrow> ('k \<times> 'b) list \<Rightarrow> ('k \<times> 'b) list" where
  "alist_put k v xs = (k, v) # filter (\<lambda>e. fst e \<noteq> k) xs"

definition alist_del :: "'k \<Rightarrow> ('k \<times> 'b) list \<Rightarrow> ('k \<times> 'b) list" where
  "alist_del k xs = filter (\<lambda>e. fst e \<noteq> k) xs"

text \<open>Adding to the first entry of a key\<close>

fun alist_bump :: "'k \<Rightarrow> int \<Rightarrow> ('k \<times> int) list \<Rightarrow> ('k \<times> int) list" where
  "alist_bump k s [] = []"
| "alist_bump k s (e # es) = (if fst e = k then (k, snd e + s) # es else e # alist_bump k s es)"

definition alist_or :: "'b \<Rightarrow> ('k \<times> 'b) list \<Rightarrow> 'k \<Rightarrow> 'b" where
  "alist_or z xs k = (case map_of xs k of None \<Rightarrow> z | Some v \<Rightarrow> v)"

definition alist_sorted :: "('k :: linorder \<times> 'b) list \<Rightarrow> ('k \<times> 'b) list" where
  "alist_sorted xs = map (\<lambda>k. (k, the (map_of xs k))) (sort (remdups (map fst xs)))"

lemma map_of_alist_del: "map_of (alist_del k xs) = (map_of xs)(k := None)"
  by (induction xs) (auto simp: alist_del_def)

lemma map_of_alist_put: "map_of (alist_put k v xs) = (map_of xs)(k := Some v)"
  using map_of_alist_del [of k xs] by (simp add: alist_put_def alist_del_def)

lemma alist_sorted_keys: "map fst (alist_sorted xs) = sort (remdups (map fst xs))"
  by (simp add: alist_sorted_def comp_def)

lemma alist_sorted_entries: "(k, v) \<in> set (alist_sorted xs) \<longleftrightarrow> map_of xs k = Some v"
proof
  assume "(k, v) \<in> set (alist_sorted xs)"
  then have "k \<in> fst ` set xs" "v = the (map_of xs k)" by (auto simp: alist_sorted_def)
  then show "map_of xs k = Some v"
    by (cases "map_of xs k") (auto simp: map_of_eq_None_iff)
next
  assume "map_of xs k = Some v"
  moreover from this have "k \<in> fst ` set xs" by (metis domI dom_map_of_conv_image_fst)
  ultimately show "(k, v) \<in> set (alist_sorted xs)"
    by (force simp: alist_sorted_def)
qed

lemma sorted_filter_keys:
  "sorted_wrt (<) (map fst xs) \<Longrightarrow> sorted_wrt (<) (map fst (filter p xs) :: 'a :: linorder list)"
  by (induction xs) auto

section \<open>Decimal integers\<close>

definition ref_IntMarshal :: "int \<Rightarrow> bytes res" where
  "ref_IntMarshal x =
     (if int_fits x then Inr ((if x < 0 then ''-'' else []) @ fixed_digits (ndigits \<bar>x\<bar>) \<bar>x\<bar>)
      else Inl (ExtError ''integer out of range''))"

definition ref_IntUnmarshal :: "bytes \<Rightarrow> int res" where
  "ref_IntUnmarshal bz =
     (let s = (if take 1 bz = ''-'' then drop 1 bz else bz); n = num s
      in if s = [] \<or> \<not> list_all is_digit s \<or> \<not> int_fits n then Inl (ExtError ''invalid integer'')
         else Inr (if take 1 bz = ''-'' then - n else n))"

lemma ndigits_bound: "0 \<le> x \<Longrightarrow> x < 10 ^ ndigits x"
proof (induction x rule: ndigits.induct)
  case (1 x)
  show ?case
  proof (cases "x < 10")
    case True
    with 1 show ?thesis by (simp add: ndigits.simps [of x])
  next
    case False
    with 1 have "x div 10 < 10 ^ ndigits (x div 10)" by simp
    then have "x < 10 * 10 ^ ndigits (x div 10)" by linarith
    with False show ?thesis by (simp add: ndigits.simps [of x])
  qed
qed

lemma ndigits_pos [simp]: "0 < ndigits x"
  by (simp add: ndigits.simps [of x])

lemma take_1_digits: "0 < w \<Longrightarrow> take 1 (fixed_digits w x) \<noteq> ''-''"
  using fixed_digits_digits [of w x] length_fixed_digits [of w x]
  by (cases "fixed_digits w x") (auto simp: is_digit_def)

lemma ref_int_roundtrip: "ref_IntMarshal x = Inr bz \<Longrightarrow> ref_IntUnmarshal bz = Inr x"
proof -
  let ?s = "fixed_digits (ndigits \<bar>x\<bar>) \<bar>x\<bar>"
  assume "ref_IntMarshal x = Inr bz"
  then have bz: "bz = (if x < 0 then ''-'' else []) @ ?s" and fits: "int_fits x"
    by (auto simp: ref_IntMarshal_def split: if_splits)
  have n: "num ?s = \<bar>x\<bar>" by (intro num_fixed_digits ndigits_bound) simp_all
  have ne: "?s \<noteq> []" using ndigits_pos [of "\<bar>x\<bar>"] by (metis length_fixed_digits length_0_conv less_numeral_extra(3))
  have m: "take 1 ?s \<noteq> ''-''" by (intro take_1_digits ndigits_pos)
  show ?thesis
    using bz fits n ne m fixed_digits_digits
    by (auto simp: ref_IntUnmarshal_def Let_def int_fits_def)
qed

section \<open>Keepers\<close>

definition ref_bech32 :: "string \<Rightarrow> bytes res" where
  "ref_bech32 s = (if s = [] then Inl (ExtError ''empty address string is not allowed'') else Inr s)"

definition ref_denom :: string where
  "ref_denom = ''aTSC''"

definition ref_NewCoin :: "string \<Rightarrow> int \<Rightarrow> coin res" where
  "ref_NewCoin d x = (if x < 0 then Inl (GoPanic ''negative coin amount'')
     else Inr \<lparr>Denom = d, CoinAmount = x\<rparr>)"

definition ref_NewCoins :: "coin \<Rightarrow> coin list res" where
  "ref_NewCoins c = (if CoinAmount c < 0 then Inl (GoPanic ''coin amount is not positive'')
     else Inr (if CoinAmount c = 0 then [] else [c]))"

definition ref_AmountOf :: "coin list \<Rightarrow> string \<Rightarrow> int" where
  "ref_AmountOf cs d = (\<Sum>c \<leftarrow> cs. if Denom c = d then CoinAmount c else 0)"

definition ref_GetBalance :: "ref_world \<Rightarrow> addr \<Rightarrow> string \<Rightarrow> int" where
  "ref_GetBalance w a d = alist_or 0 (rw_bal w) (a, d)"

definition ref_move :: "addr \<Rightarrow> addr \<Rightarrow> ref_world \<Rightarrow> coin \<Rightarrow> ref_world res" where
  "ref_move a b w c =
     (let x = ref_GetBalance w a (Denom c)
      in if x < CoinAmount c then Inl ErrInsufficientFunds
         else let w1 = w\<lparr>rw_bal := alist_put (a, Denom c) (x - CoinAmount c) (rw_bal w)\<rparr>
              in Inr (w1\<lparr>rw_bal := alist_put (b, Denom c)
                   (ref_GetBalance w1 b (Denom c) + CoinAmount c) (rw_bal w1)\<rparr>))"

definition ref_SendCoins :: "ref_world \<Rightarrow> addr \<Rightarrow> addr \<Rightarrow> coin list \<Rightarrow> ref_world res" where
  "ref_SendCoins w a b cs = foldM (ref_move a b) w cs"

definition ref_Delegate :: "ref_world \<Rightarrow> addr \<Rightarrow> int \<Rightarrow> valaddr \<Rightarrow> (ref_world \<times> dec) res" where
  "ref_Delegate w a x v =
     (let b = ref_GetBalance w a ref_denom; s = x * dec_unit
      in if b < x then Inl ErrInsufficientFunds
         else Inr (w\<lparr>rw_bal := alist_put (a, ref_denom) (b - x) (rw_bal w),
                     rw_del := (if (a, v) \<in> fst ` set (rw_del w) then alist_bump (a, v) s (rw_del w)
                       else ((a, v), s) # rw_del w)\<rparr>, s))"

definition ref_delegations :: "ref_world \<Rightarrow> addr \<Rightarrow> delegation list" where
  "ref_delegations w a =
     map (\<lambda>((_, v), s). \<lparr>GetValidatorAddr = v, GetShares = s\<rparr>) (filter (\<lambda>e. fst (fst e) = a) (rw_del w))"

definition ref_sdk :: "(ref_world, valaddr) sdk" where
  "ref_sdk = \<lparr>
     kvGet = (\<lambda>w k. Inr (map_of (rw_store w) k)),
     kvSet = (\<lambda>w k v. if int (length v) < 2147483648
       then Inr (w\<lparr>rw_store := alist_put k v (rw_store w)\<rparr>) else Inl (GoPanic ''value is too large'')),
     kvDelete = (\<lambda>w k. Inr (w\<lparr>rw_store := alist_del k (rw_store w)\<rparr>)),
     kvIterator = (\<lambda>w s e. Inr (filter (\<lambda>kv. key_in_range s e (fst kv)) (alist_sorted (rw_store w)))),
     IntMarshal = ref_IntMarshal,
     IntUnmarshal = ref_IntUnmarshal,
     AccAddressFromBech32 = ref_bech32,
     ValAddressFromBech32 = ref_bech32,
     AccAddressString = (\<lambda>a. a),
     NewCoin = ref_NewCoin,
     NewCoins = ref_NewCoins,
     AmountOf = ref_AmountOf,
     BondDenom = (\<lambda>w. Inr ref_denom),
     GetValidator = (\<lambda>w v. Inr v),
     GetDelegation = (\<lambda>w a v. case map_of (rw_del w) (a, v) of
         None \<Rightarrow> Inl (ExtError ''no delegation'')
       | Some s \<Rightarrow> Inr \<lparr>GetValidatorAddr = v, GetShares = s\<rparr>),
     GetDelegatorDelegations = (\<lambda>w a n. Inr (take n (ref_delegations w a))),
     TokensFromShares = (\<lambda>v s. Inr s),
     Delegate = ref_Delegate,
     HasAccount = (\<lambda>w a. a \<noteq> []),
     GetBalance = ref_GetBalance,
     SendCoins = ref_SendCoins\<rparr>"

definition ref_view :: "ref_world \<Rightarrow> bytes \<Rightarrow> bytes option" where
  "ref_view w = map_of (rw_store w)"

lemma ref_move_store: "ref_move a b w c = Inr w' \<Longrightarrow> rw_store w' = rw_store w"
  by (auto simp: ref_move_def Let_def split: if_splits)

lemma ref_SendCoins_store: "ref_SendCoins w a b cs = Inr w' \<Longrightarrow> rw_store w' = rw_store w"
  unfolding ref_SendCoins_def
  by (rule foldM_invariant [where P = "\<lambda>t. rw_store t = rw_store w"])
    (auto dest: ref_move_store)

lemma ref_Delegate_store: "ref_Delegate w a x v = Inr (w', s) \<Longrightarrow> rw_store w' = rw_store w"
  by (auto simp: ref_Delegate_def Let_def split: if_splits)

interpretation ref_codec: int_codec ref_IntMarshal ref_IntUnmarshal
  by unfold_locales (rule ref_int_roundtrip)

interpretation ref_kv: kv_store ref_sdk ref_view
proof
  fix w s e kvs and k v :: bytes
  assume "kvIterator ref_sdk w s e = Inr kvs"
  then have kvs: "kvs = filter (\<lambda>kv. key_in_range s e (fst kv)) (alist_sorted (rw_store w))"
    by (simp add: ref_sdk_def)
  show "sorted_wrt (<) (map fst kvs)"
    unfolding kvs
    by (rule sorted_filter_keys) (simp only: alist_sorted_keys strict_sorted_iff, simp)
  show "(k, v) \<in> set kvs \<longleftrightarrow> ref_view w k = Some v \<and> key_in_range s e k"
    by (auto simp: kvs alist_sorted_entries ref_view_def)
qed (auto simp: ref_sdk_def ref_view_def map_of_alist_put map_of_alist_del split: if_splits)

lemma ref_env: "lockup_env ref_sdk ref_view"
  by unfold_locales
    (auto simp: ref_sdk_def ref_view_def ref_int_roundtrip ref_NewCoin_def split: if_splits
      dest: ref_SendCoins_store ref_Delegate_store)

end
