(* ===== verification/Ref_Run.thy ===== *)
theory Ref_Run
  imports Lock_Inv Ref_World
begin

text \<open>
  A short run of the lockup module in the reference environment: alice, who has 500 delegated,
  locks 200, extends 50 of them, and sends 300 to bob delegated and locked. The states are given
  by their locks, and the handlers are evaluated on them.
\<close>

text \<open>The reference environment with all facts of the lockup module's locales.\<close>

interpretation run: lockup_env ref_sdk ref_view
  by (rule ref_env)

section \<open>States and messages\<close>

definition aTSC :: "int \<Rightarrow> coin" where
  "aTSC x = \<lparr>Denom = ''aTSC'', CoinAmount = x\<rparr>"

definition stored :: "lock list \<Rightarrow> bytes" where
  "stored ls = locks_wire (amount_enc ref_IntMarshal) ls"

definition rw0 :: ref_world where
  "rw0 = \<lparr>rw_store = [], rw_bal = [((''alice'', ''aTSC''), 1000)],
          rw_del = [((''alice'', ''val1''), 500 * dec_unit)]\<rparr>"

definition rw1 :: ref_world where
  "rw1 = rw0\<lparr>rw_store :=
     [(GetLockExpirationKey (midnight 20269) ''alice'', ''200''),
      (GetLocksByAddressKey ''alice'', stored [\<lparr>UnlockDate = ''2025-06-30'', Amount = 200\<rparr>])]\<rparr>"

definition rw2 :: ref_world where
  "rw2 = rw0\<lparr>rw_store :=
     [(GetLockExpirationKey (midnight 20332) ''alice'', ''50''),
      (GetLockExpirationKey (midnight 20269) ''alice'', ''150''),
      (GetLocksByAddressKey ''alice'',
        stored [\<lparr>UnlockDate = ''2025-06-30'', Amount = 150\<rparr>, \<lparr>UnlockDate = ''2025-09-01'', Amount = 50\<rparr>])]\<rparr>"

definition rw3 :: ref_world where
  "rw3 = \<lparr>rw_store =
     [(GetLockExpirationKey (midnight 20446) ''bob'', ''300''),
      (GetLocksByAddressKey ''bob'', stored [\<lparr>UnlockDate = ''2025-12-24'', Amount = 300\<rparr>])],
     rw_bal = [((''bob'', ''aTSC''), 0), ((''alice'', ''aTSC''), 700)],
     rw_del = [((''bob'', ''val1''), 300 * dec_unit), ((''alice'', ''val1''), 500 * dec_unit)]\<rparr>"

text \<open>10 January 2025, noon; and 3 July 2025.\<close>

definition jan :: sdk_ctx where
  "jan = \<lparr>BlockTime = 1736510400000000000, BlockHeight = 7, redelegatingSet = {}\<rparr>"

definition jul :: sdk_ctx where
  "jul = \<lparr>BlockTime = 1751500800000000000, BlockHeight = 70, redelegatingSet = {}\<rparr>"

definition lock_200 :: MsgLock where
  "lock_200 = \<lparr>lk_Address = ''alice'', lk_UnlockDate = ''2025-06-30'', lk_Amount = aTSC 200\<rparr>"

definition move_50 :: Extension where
  "move_50 = \<lparr>FromDate = ''2025-06-30'', ToDate = ''2025-09-01'', ext_Amount = aTSC 50\<rparr>"

definition extend_50 :: MsgExtend where
  "extend_50 = \<lparr>ex_Address = ''alice'', Extensions = [move_50]\<rparr>"

definition send_300 :: MsgSendDelegateAndLock where
  "send_300 = \<lparr>FromAddress = ''alice'', ToAddress = ''bob'', ValidatorAddress = ''val1'',
     sdl_UnlockDate = ''2025-12-24'', sdl_Amount = aTSC 300\<rparr>"

definition multi_300 :: MsgMultiSendDelegateAndLock where
  "multi_300 = \<lparr>mu_FromAddress = ''alice'', TotalAmount = aTSC 300,
     Outputs = [\<lparr>out_FromAddress = [], out_ToAddress = ''bob'', out_ValidatorAddress = ''val1'',
                 out_UnlockDate = ''2025-12-24'', out_Amount = aTSC 300\<rparr>]\<rparr>"

definition ev_lock :: "string \<Rightarrow> string \<Rightarrow> string \<Rightarrow> event" where
  "ev_lock a d x = (''lock'', [(''address'', a), (''unlock_date'', d), (''amount'', x)])"

definition ev_send :: event where
  "ev_send = (''delegate'', [(''validator'', ''val1''), (''delegator'', ''bob''),
     (''amount'', ''300aTSC''), (''new_shares'', ''300.000000000000000000'')])"

definition ev_ext :: event where
  "ev_ext = (''lock_extended'', [(''address'', ''alice''), (''old_unlock_date'', ''2025-06-30''),
     (''unlock_date'', ''2025-09-01''), (''amount'', ''50'')])"

section \<open>The handlers on them\<close>

lemma ref_lock_200: "Lock ref_sdk jan rw0 lock_200 = Inr (rw1, [ev_lock ''alice'' ''2025-06-30'' ''200''])"
  by code_simp

text \<open>The extension in its steps.\<close>

definition rw1a :: ref_world where
  "rw1a = rw0\<lparr>rw_store :=
     [(GetLocksByAddressKey ''alice'', stored [\<lparr>UnlockDate = ''2025-06-30'', Amount = 150\<rparr>]),
      (GetLockExpirationKey (midnight 20269) ''alice'', ''200'')]\<rparr>"

definition rw1b :: ref_world where
  "rw1b = rw0\<lparr>rw_store :=
     [(GetLocksByAddressKey ''alice'',
        stored [\<lparr>UnlockDate = ''2025-06-30'', Amount = 150\<rparr>, \<lparr>UnlockDate = ''2025-09-01'', Amount = 50\<rparr>]),
      (GetLockExpirationKey (midnight 20269) ''alice'', ''200'')]\<rparr>"

lemma ref_dates:
  "Parse_DateOnly ''2025-06-30'' = Inr (midnight 20269)"
  "Parse_DateOnly ''2025-09-01'' = Inr (midnight 20332)"
  "Parse_DateOnly ''2025-12-24'' = Inr (midnight 20446)"
  by code_simp+

lemma ref_windows:
  "check_date_window jan (midnight 20332) = Inr ()" "check_date_window jul (midnight 20332) = Inr ()"
  by code_simp+

lemma ref_take:
  "take_from_lock ref_sdk (rw1\<lparr>rw_del := d\<rparr>) ''alice'' ''2025-06-30'' 50 = Inr (rw1a\<lparr>rw_del := d\<rparr>)"
  by code_simp

lemma ref_add:
  "add_to_lock ref_sdk (rw1a\<lparr>rw_del := d\<rparr>) ''alice'' ''2025-09-01'' 50 = Inr (rw1b\<lparr>rw_del := d\<rparr>)"
  by code_simp

lemma ref_queue_move:
  "bnd (RemoveFromExpirationQueue ref_sdk (rw1b\<lparr>rw_del := d\<rparr>) (midnight 20269) ''alice'' 50) (\<lambda>w.
     AddToExpirationQueue ref_sdk w (midnight 20332) ''alice'' 50) = Inr (rw2\<lparr>rw_del := d\<rparr>)"
  by code_simp

lemma ref_int_String: "int_String 50 = ''50''"
  by code_simp

lemma ref_extend_any:
  assumes "check_date_window ctx (midnight 20332) = Inr ()"
  shows "Extend ref_sdk ctx (rw1\<lparr>rw_del := d\<rparr>) extend_50 = Inr (rw2\<lparr>rw_del := d\<rparr>, [ev_ext])"
proof -
  have "extend_one ref_sdk ctx ''alice'' ''alice'' (rw1\<lparr>rw_del := d\<rparr>, []) move_50 =
      bnd (bnd (RemoveFromExpirationQueue ref_sdk (rw1b\<lparr>rw_del := d\<rparr>) (midnight 20269) ''alice'' 50) (\<lambda>w.
        AddToExpirationQueue ref_sdk w (midnight 20332) ''alice'' 50)) (\<lambda>w. Inr (w, [ev_ext]))"
    by (simp add: extend_one_def move_50_def ref_dates assms aTSC_def ref_take ref_add bnd_assoc
        ref_sdk_def [THEN arg_cong, of BondDenom] ref_denom_def ref_int_String ev_ext_def)
  then show ?thesis
    by (simp add: Extend_def extend_50_def ref_queue_move
        ref_sdk_def [THEN arg_cong, of AccAddressFromBech32] ref_sdk_def [THEN arg_cong, of HasAccount]
        ref_bech32_def)
qed

lemma ref_extend_50: "Extend ref_sdk jan rw1 extend_50 = Inr (rw2, [ev_ext])"
  using ref_extend_any [OF ref_windows(1), of "rw_del rw0"] by (simp add: rw1_def rw2_def rw0_def)

lemma ref_send_300: "SendDelegateAndLock ref_sdk jan rw0 send_300 =
    Inr (rw3, [ev_send, ev_lock ''bob'' ''2025-12-24'' ''300''])"
  by code_simp

lemma ref_multi_300: "MultiSendDelegateAndLock ref_sdk jan rw0 multi_300 =
    Inr (rw3, [ev_send, ev_lock ''bob'' ''2025-12-24'' ''300''])"
proof -
  have "output_total (Outputs multi_300) = Inr 300" by code_simp
  moreover have "multi_one ref_sdk jan ''alice'' (rw0, []) (hd (Outputs multi_300)) =
      Inr (rw3, [ev_send, ev_lock ''bob'' ''2025-12-24'' ''300''])"
    using ref_send_300 by (simp add: multi_one_def multi_300_def send_300_def)
  ultimately show ?thesis
    by (simp add: MultiSendDelegateAndLock_def multi_300_def aTSC_def
        ref_sdk_def [THEN arg_cong, of AccAddressFromBech32] ref_bech32_def)
qed

lemma ref_validate:
  "MsgLock_ValidateBasic ref_sdk lock_200 = Inr ()" "MsgExtend_ValidateBasic ref_sdk extend_50 = Inr ()"
  by code_simp+

lemma ref_books:
  "book ref_sdk ref_view rw0 a = []"
  "book ref_sdk ref_view rw1 ''alice'' = [\<lparr>UnlockDate = ''2025-06-30'', Amount = 200\<rparr>]"
  "book ref_sdk ref_view rw2 ''alice'' =
     [\<lparr>UnlockDate = ''2025-06-30'', Amount = 150\<rparr>, \<lparr>UnlockDate = ''2025-09-01'', Amount = 50\<rparr>]"
  by (simp add: book_def ref_view_def rw0_def, code_simp+)

lemma ref_reachable: "reachable ref_sdk ref_view rw0" "reachable ref_sdk ref_view rw1"
  "reachable ref_sdk ref_view rw2"
proof -
  have "ref_view rw0 k = None" for k by (simp add: ref_view_def rw0_def)
  then show 0: "reachable ref_sdk ref_view rw0" by (rule reachable.genesis)
  have t: "0 \<le> BlockTime jan" by (simp add: jan_def)
  have "run_msg ref_sdk jan rw0 (Lock_msg lock_200) = Inr (rw1, [ev_lock ''alice'' ''2025-06-30'' ''200''])"
    using ref_lock_200 ref_validate by (simp add: run_msg_def)
  from reachable.deliver [OF 0 t this] show 1: "reachable ref_sdk ref_view rw1" .
  have "run_msg ref_sdk jan rw1 (Extend_msg extend_50) = Inr (rw2, [ev_ext])"
    using ref_extend_50 ref_validate by (simp add: run_msg_def)
  from reachable.deliver [OF 1 t this] show "reachable ref_sdk ref_view rw2" .
qed

end
