(* ===== verification/Lock_Props.thy ===== *)
theory Lock_Props
  imports Ref_Run
begin

text \<open>
  The properties of the lockup module's store and message handlers, stated for every environment
  that satisfies \<open>lockup_env\<close>, each applied to the reference run.
\<close>

section \<open>The invariant\<close>

text \<open>
  C1. In every reachable state of the chain, the locks of every address are sorted by date with no
  date twice, every date is a calendar date and every amount positive; and the expiry queue has,
  for every time and address, exactly the amount of the address's locks of that date, with an
  entry if and only if that amount is not zero.
\<close>

theorem reachable_book_queue_agree:
  assumes "lockup_env K view" and "reachable K view w"
  shows "locks_wf (book K view w a) \<and> queue K view w u a = due u (book K view w a) \<and>
    (queued view w u a \<longleftrightarrow> due u (book K view w a) \<noteq> 0)"
proof -
  have "ledger_ok (book K view w) (queue K view w) (queued view w)"
    using lockup_env.reachable_ok [OF assms] by (simp add: lockup_ok_def)
  from ledger_okD [OF this] show ?thesis by simp
qed

theorem reachable_book_queue_agree_witness:
  "locks_wf (book ref_sdk ref_view rw2 ''alice'') \<and>
   queue ref_sdk ref_view rw2 7 ''alice'' = due 7 (book ref_sdk ref_view rw2 ''alice'')"
  using reachable_book_queue_agree [OF ref_env ref_reachable(3)] by blast

section \<open>Lock\<close>

text \<open>
  C3. A successful \<open>Lock\<close> has a positive amount of the bond denom and an unlock date after today
  and at most two years ahead; afterwards what the address has locked today is what it had locked
  plus the amount, and that does not exceed what it has delegated.
\<close>

theorem Lock_covered:
  assumes "lockup_env K view" and "Lock K ctx w msg = Inr (w', ev)"
    and "AccAddressFromBech32 K (lk_Address msg) = Inr a"
  defines "day \<equiv> blockDay (BlockTime ctx)" and "x \<equiv> CoinAmount (lk_Amount msg)"
  shows "\<exists>t n. Parse_DateOnly (lk_UnlockDate msg) = Inr t \<and> day < t \<and> t \<le> AddDate day 2 0 0 \<and>
    0 < x \<and> BondDenom K w = Inr (Denom (lk_Amount msg)) \<and> GetTotalDelegatedAmount K w a = Inr n \<and>
    locked_sum day (book K view w' a) = locked_sum day (book K view w a) + x \<and>
    locked_sum day (book K view w' a) \<le> n"
  using assms(2)
proof (rule Lock_InrE)
  fix b t locked n w1
  assume *: "AccAddressFromBech32 K (lk_Address msg) = Inr b"
    "BondDenom K w = Inr (Denom (lk_Amount msg))"
    "Parse_DateOnly (lk_UnlockDate msg) = Inr t" "check_date_window ctx t = Inr ()"
    "0 < CoinAmount (lk_Amount msg)" "GetLockedAmountByAddress K ctx w b = Inr locked"
    "GetTotalDelegatedAmount K w b = Inr n" "locked + CoinAmount (lk_Amount msg) \<le> n"
  from lockup_env.Lock_bound [OF assms(1-3)] *(1) assms(3) *(7) show ?thesis
    using * by (auto simp: check_date_window_Inr day_def x_def)
qed

theorem Lock_covered_witness:
  "locked_sum (blockDay (BlockTime jan)) (book ref_sdk ref_view rw1 ''alice'') =
     locked_sum (blockDay (BlockTime jan)) (book ref_sdk ref_view rw0 ''alice'') + 200"
proof -
  have "AccAddressFromBech32 ref_sdk (lk_Address lock_200) = Inr ''alice''" by code_simp
  from Lock_covered [OF ref_env ref_lock_200 this] show ?thesis
    by (auto simp: lock_200_def aTSC_def)
qed

text \<open>
  C4. A successful \<open>Lock\<close> changes the ledger exactly as specified: the address's list gets the
  amount at the date (raising the lock of that date, or inserting a new one in date order), the
  queue entry of that date and address grows by the amount, and nothing else changes.
\<close>

theorem Lock_refines:
  assumes "lockup_env K view" and "Lock K ctx w msg = Inr (w', ev)"
    and "AccAddressFromBech32 K (lk_Address msg) = Inr a"
    and "Parse_DateOnly (lk_UnlockDate msg) = Inr t"
  defines "x \<equiv> CoinAmount (lk_Amount msg)" and "u \<equiv> (of_int (Unix t) :: 64 word)"
  shows "book K view w' = (book K view w)(a := put_lock (lk_UnlockDate msg) x (book K view w a)) \<and>
    queue K view w' = (queue K view w)(u := (queue K view w u)(a := queue K view w u a + x))"
  using assms(2)
proof (rule Lock_InrE)
  fix b s locked n w1
  assume "AccAddressFromBech32 K (lk_Address msg) = Inr b" "Parse_DateOnly (lk_UnlockDate msg) = Inr s"
    and w1: "add_to_lock K w b (lk_UnlockDate msg) (CoinAmount (lk_Amount msg)) = Inr w1"
      "AddToExpirationQueue K w1 s b (CoinAmount (lk_Amount msg)) = Inr w'"
  with assms(3,4) have "b = a" "s = t" by simp_all
  with w1 show ?thesis
    using lockup_env.Lock_ledger [OF assms(1-3)] lockup_env.add_to_lock_book(2) [OF assms(1) w1(1)]
      lockup_env.enq_law [OF assms(1) w1(2) refl]
    by (simp add: x_def u_def)
qed

theorem Lock_refines_witness:
  "book ref_sdk ref_view rw1 =
     (book ref_sdk ref_view rw0)(''alice'' := put_lock ''2025-06-30'' 200 (book ref_sdk ref_view rw0 ''alice''))"
proof -
  have "AccAddressFromBech32 ref_sdk (lk_Address lock_200) = Inr ''alice''"
    "Parse_DateOnly (lk_UnlockDate lock_200) = Inr (midnight 20269)" by code_simp+
  from Lock_refines [OF ref_env ref_lock_200 this] show ?thesis
    by (simp add: lock_200_def aTSC_def)
qed

text \<open>
  \<open>Lock\<close> refuses to lock more than is delegated: if the other checks pass and the delegated
  amount is below the locked amount plus the new amount, it returns \<open>ErrInsufficientDelegations\<close>.
\<close>

theorem Lock_insufficient:
  assumes "BondDenom K w = Inr (Denom (lk_Amount msg))"
    and "AccAddressFromBech32 K (lk_Address msg) = Inr a" and "0 < CoinAmount (lk_Amount msg)"
    and "Parse_DateOnly (lk_UnlockDate msg) = Inr t" and "blockDay (BlockTime ctx) < t"
    and "t \<le> AddDate (blockDay (BlockTime ctx)) 2 0 0"
    and "GetLockedAmountByAddress K ctx w a = Inr locked" and "GetTotalDelegatedAmount K w a = Inr n"
    and "int_fits (locked + CoinAmount (lk_Amount msg))" and "n < locked + CoinAmount (lk_Amount msg)"
  shows "Lock K ctx w msg = Inl ErrInsufficientDelegations"
proof -
  have "check_date_window ctx t = Inr ()" using assms(5,6) by (simp add: check_date_window_Inr)
  with assms show ?thesis by (simp add: Lock_def int_op_defs)
qed

theorem Lock_insufficient_witness:
  "Lock ref_sdk jan rw0 (lock_200\<lparr>lk_Amount := aTSC 501\<rparr>) = Inl ErrInsufficientDelegations"
proof (rule Lock_insufficient)
  show "AccAddressFromBech32 ref_sdk (lk_Address (lock_200\<lparr>lk_Amount := aTSC 501\<rparr>)) = Inr ''alice''"
    by code_simp
  show "Parse_DateOnly (lk_UnlockDate (lock_200\<lparr>lk_Amount := aTSC 501\<rparr>)) = Inr (midnight 20269)"
    by code_simp
  show "GetLockedAmountByAddress ref_sdk jan rw0 ''alice'' = Inr 0" by code_simp
  show "GetTotalDelegatedAmount ref_sdk rw0 ''alice'' = Inr 500" by code_simp
qed code_simp+

section \<open>Extend\<close>

text \<open>
  C7. A successful \<open>Extend\<close> with positive amounts keeps the sum of the address's locks and every
  other address's list, and what the address has locked today changes exactly by the amounts
  moved away from dates that have already passed: it never decreases. Amounts are moved, not added, unlike
  the help text of \<open>CmdExtend\<close> says.
\<close>

theorem Extend_conserves:
  assumes "lockup_env K view" and "lockup_ok K view w" and "0 \<le> BlockTime ctx"
    and "Extend K ctx w msg = Inr (w', ev)" and "MsgExtend_ValidateBasic K msg = Inr ()"
    and "AccAddressFromBech32 K (ex_Address msg) = Inr a"
  defines "day \<equiv> blockDay (BlockTime ctx)"
  shows "amt (\<lambda>_. True) (book K view w' a) = amt (\<lambda>_. True) (book K view w a) \<and>
    locked_sum day (book K view w' a) = locked_sum day (book K view w a) +
      (\<Sum>e \<leftarrow> Extensions msg. if IsLocked day (FromDate e) then 0 else CoinAmount (ext_Amount e)) \<and>
    (\<forall>b. b \<noteq> a \<longrightarrow> book K view w' b = book K view w b)"
proof -
  have run: "foldM (extend_one K ctx (ex_Address msg) a) (w, []) (Extensions msg) = Inr (w', ev)"
    using assms(4,6) by (auto simp: Extend_def)
  have "\<forall>e \<in> set (Extensions msg). 0 < CoinAmount (ext_Amount e)"
    using assms(5) by (auto simp: MsgExtend_ValidateBasic_def validate_all Extension_validate_Inr)
  from lockup_env.extend_loop_sums [OF assms(1) run assms(3,2) this] show ?thesis
    by (simp add: day_def)
qed

theorem Extend_conserves_witness:
  "amt (\<lambda>_. True) (book ref_sdk ref_view rw2 ''alice'') = amt (\<lambda>_. True) (book ref_sdk ref_view rw1 ''alice'')"
proof -
  have "lockup_ok ref_sdk ref_view rw1" using run.reachable_ok ref_reachable(2) by blast
  moreover have "0 \<le> BlockTime jan" by (simp add: jan_def)
  moreover have "AccAddressFromBech32 ref_sdk (ex_Address extend_50) = Inr ''alice''" by code_simp
  ultimately show ?thesis
    using Extend_conserves [OF ref_env _ _ ref_extend_50 ref_validate(2)] by blast
qed

text \<open>
  C8. Because an expired lock stays in the book and \<open>Extend\<close> does not look at the delegations, an
  extension of an expired lock can lock more than is delegated: from a reachable state in which
  the delegator has nothing delegated and nothing locked today, a valid \<open>Extend\<close> succeeds and
  leaves 50 locked.
\<close>

theorem Extend_relocks_uncovered:
  "\<exists>w w' ev. reachable ref_sdk ref_view w \<and>
     MsgExtend_ValidateBasic ref_sdk extend_50 = Inr () \<and>
     Extend ref_sdk jul w extend_50 = Inr (w', ev) \<and>
     GetTotalDelegatedAmount ref_sdk w ''alice'' = Inr 0 \<and>
     GetTotalDelegatedAmount ref_sdk w' ''alice'' = Inr 0 \<and>
     GetLockedAmountByAddress ref_sdk jul w ''alice'' = Inr 0 \<and>
     GetLockedAmountByAddress ref_sdk jul w' ''alice'' = Inr 50"
proof -
  let ?w = "rw1\<lparr>rw_del := []\<rparr>" and ?w' = "rw2\<lparr>rw_del := []\<rparr>"
  have "reachable ref_sdk ref_view ?w"
    by (rule reachable.other_module [OF ref_reachable(2)]) (simp add: ref_view_def)
  moreover have "GetTotalDelegatedAmount ref_sdk ?w ''alice'' = Inr 0"
    "GetTotalDelegatedAmount ref_sdk ?w' ''alice'' = Inr 0"
    "GetLockedAmountByAddress ref_sdk jul ?w ''alice'' = Inr 0"
    "GetLockedAmountByAddress ref_sdk jul ?w' ''alice'' = Inr 50"
    by code_simp+
  ultimately show ?thesis
    using ref_extend_any [OF ref_windows(2), of "[]"] ref_validate(2) by blast
qed

section \<open>Send, delegate and lock\<close>

text \<open>
  C17. A successful \<open>MultiSendDelegateAndLock\<close> declares exactly the sum of its outputs, every
  output is positive, and for every address and every set of dates the locked amounts grow by
  exactly the outputs to that address at those dates.
\<close>

theorem Multi_exact:
  assumes "lockup_env K view" and "MultiSendDelegateAndLock K ctx w msg = Inr (w', ev)"
  shows "CoinAmount (TotalAmount msg) = (\<Sum>out \<leftarrow> Outputs msg. CoinAmount (out_Amount out)) \<and>
    (\<forall>out \<in> set (Outputs msg). 0 < CoinAmount (out_Amount out)) \<and>
    amt P (book K view w' a) = amt P (book K view w a) +
      (\<Sum>out \<leftarrow> Outputs msg. if AccAddressFromBech32 K (out_ToAddress out) = Inr a \<and> P (out_UnlockDate out)
         then CoinAmount (out_Amount out) else 0)"
proof -
  from assms(2) have t: "output_total (Outputs msg) = Inr (CoinAmount (TotalAmount msg))"
    and run: "foldM (multi_one K ctx (mu_FromAddress msg)) (w, []) (Outputs msg) = Inr (w', ev)"
    by (auto simp: MultiSendDelegateAndLock_def)
  show ?thesis
    using output_total_Inr [OF t] lockup_env.multi_loop_amt [OF assms(1) run, of P a] by blast
qed

theorem Multi_exact_witness:
  "amt (\<lambda>_. True) (book ref_sdk ref_view rw3 ''bob'') = amt (\<lambda>_. True) (book ref_sdk ref_view rw0 ''bob'') + 300"
proof -
  have "AccAddressFromBech32 ref_sdk ''bob'' = Inr ''bob''" by code_simp
  then show ?thesis
    using Multi_exact [OF ref_env ref_multi_300, of "\<lambda>_. True" "''bob''"]
    by (simp add: multi_300_def aTSC_def)
qed

text \<open>
  C18. A successful \<open>SendDelegateAndLock\<close> moves the coins from the sender to the receiver,
  delegates them for the receiver and locks them for the receiver, in that order, and the
  receiver's delegations cover all it has locked today, the new lock included.
\<close>

theorem SendDelegateAndLock_behaviour:
  assumes "lockup_env K view" and "SendDelegateAndLock K ctx w msg = Inr (w', ev)"
  defines "x \<equiv> CoinAmount (sdl_Amount msg)" and "day \<equiv> blockDay (BlockTime ctx)"
  shows "\<exists>fa ta coins w1 val v w2 sh n.
    AccAddressFromBech32 K (FromAddress msg) = Inr fa \<and> AccAddressFromBech32 K (ToAddress msg) = Inr ta \<and>
    NewCoins K (sdl_Amount msg) = Inr coins \<and> SendCoins K w fa ta coins = Inr w1 \<and>
    ValAddressFromBech32 K (ValidatorAddress msg) = Inr val \<and> GetValidator K w1 val = Inr v \<and>
    Delegate K w1 ta x v = Inr (w2, sh) \<and> 0 < x \<and>
    book K view w' = (book K view w)(ta := put_lock (sdl_UnlockDate msg) x (book K view w ta)) \<and>
    GetTotalDelegatedAmount K w2 ta = Inr n \<and> locked_sum day (book K view w' ta) \<le> n"
  using assms(2)
proof (rule SendDelegateAndLock_InrE)
  fix fa ta coins w1 val v w2 sh ev'
  let ?lk = "\<lparr>lk_Address = ToAddress msg, lk_UnlockDate = sdl_UnlockDate msg, lk_Amount = sdl_Amount msg\<rparr>"
  assume *: "0 < CoinAmount (sdl_Amount msg)"
    "AccAddressFromBech32 K (FromAddress msg) = Inr fa" "AccAddressFromBech32 K (ToAddress msg) = Inr ta"
    "NewCoins K (sdl_Amount msg) = Inr coins" "SendCoins K w fa ta coins = Inr w1"
    "ValAddressFromBech32 K (ValidatorAddress msg) = Inr val" "GetValidator K w1 val = Inr v"
    "Delegate K w1 ta (CoinAmount (sdl_Amount msg)) v = Inr (w2, sh)"
    and l: "Lock K ctx w2 ?lk = Inr (w', ev')"
  have a: "AccAddressFromBech32 K (lk_Address ?lk) = Inr ta" using *(3) by simp
  from lockup_env.Lock_bound [OF assms(1) l a] obtain n where
    "GetTotalDelegatedAmount K w2 ta = Inr n" "locked_sum day (book K view w' ta) \<le> n"
    by (auto simp: day_def)
  moreover have "book K view w' = (book K view w)(ta := put_lock (sdl_UnlockDate msg) x (book K view w ta))"
    using lockup_env.SendDelegateAndLock_book [OF assms(1,2)] *(3) by (simp add: x_def)
  ultimately show ?thesis using * unfolding x_def by blast
qed

theorem SendDelegateAndLock_behaviour_witness:
  "\<exists>ta n w2. AccAddressFromBech32 ref_sdk ''bob'' = Inr ta \<and> GetTotalDelegatedAmount ref_sdk w2 ta = Inr n \<and>
     locked_sum (blockDay (BlockTime jan)) (book ref_sdk ref_view rw3 ta) \<le> n"
proof -
  have "ToAddress send_300 = ''bob''" by (simp add: send_300_def)
  with SendDelegateAndLock_behaviour [OF ref_env ref_send_300] show ?thesis by metis
qed

end
