(* ===== verification/Guard_Props.thy ===== *)
theory Guard_Props
  imports Ref_Run
begin

text \<open>
  The properties of what guards delegated and locked tokens: the delegated total, the staking
  hooks, the bank restriction and the redelegation marker; and of the stores below the handlers:
  the codec, the sorted insertion and the queue.
\<close>

section \<open>The delegated total\<close>

text \<open>
  C15. For an address with fewer than 100 delegations, all to known validators and not
  overflowing, the delegated total is the sum of its delegations' tokens, each rounded up.
\<close>

theorem total_delegated_sum:
  assumes "GetDelegatorDelegations K w a 100 = Inr ds" and "length ds < 100"
    and "\<And>d. d \<in> set ds \<Longrightarrow> \<exists>va v. ValAddressFromBech32 K (GetValidatorAddr d) = Inr va \<and>
      GetValidator K w va = Inr v \<and> TokensFromShares K v (GetShares d) = Inr (tok d)"
    and "\<And>d. d \<in> set ds \<Longrightarrow> 0 \<le> tok d"
    and "int_fits (\<Sum>d \<leftarrow> ds. - ((- tok d) div dec_unit))"
  shows "GetTotalDelegatedAmount K w a = Inr (\<Sum>d \<leftarrow> ds. - ((- tok d) div dec_unit))"
proof -
  have step: "add_delegation K w s d = int_add s (- ((- tok d) div dec_unit))" if "d \<in> set ds" for s d
    using assms(3) [OF that] by (auto simp: add_delegation_def dec_ceil_truncate)
  have "foldM (add_delegation K w) 0 ds = foldM (\<lambda>s d. int_add s (- ((- tok d) div dec_unit))) 0 ds"
    using step by (rule foldM_cong)
  also have "\<dots> = Inr (0 + (\<Sum>d \<leftarrow> ds. - ((- tok d) div dec_unit)))"
  proof (rule foldM_int_add_fits)
    show "0 \<le> - ((- tok d) div dec_unit)" if "d \<in> set ds" for d
      using div_nonpos_pos_le0 [of "- tok d" dec_unit] assms(4) [OF that] by (simp add: dec_unit_def)
  qed (use assms(5) in simp_all)
  finally show ?thesis
    using GetTotalDelegatedAmount_short [OF assms(1)] assms(2) by simp
qed

theorem total_delegated_sum_witness: "GetTotalDelegatedAmount ref_sdk rw0 ''alice'' = Inr 500"
proof -
  let ?d = "\<lparr>GetValidatorAddr = ''val1'', GetShares = 500 * dec_unit\<rparr>"
  have "GetDelegatorDelegations ref_sdk rw0 ''alice'' 100 = Inr [?d]" by code_simp
  from total_delegated_sum [OF this, where tok = GetShares] show ?thesis
    by (simp add: ref_sdk_def ref_bech32_def dec_unit_def int_fits_def)
qed

text \<open>
  C16. For an address with at least 100 delegations (a full page), \<open>GetTotalDelegatedAmount\<close> never
  returns a total: the loop asks for the same first page again and again, so \<open>Lock\<close>, the hooks and
  the bank restriction cannot succeed through it.
\<close>

theorem total_delegated_no_result:
  assumes "GetDelegatorDelegations K w a 100 = Inr ds" and "length ds = 100"
  shows "GetTotalDelegatedAmount K w a \<noteq> Inr n"
  using delegated_loop_full [OF assms] by (auto simp: GetTotalDelegatedAmount_def split: option.split)

definition rw_100 :: ref_world where
  "rw_100 = rw0\<lparr>rw_del := map (\<lambda>i. ((''alice'', replicate i (CHR ''v'')), dec_unit)) [1..<101]\<rparr>"

theorem total_delegated_no_result_witness: "GetTotalDelegatedAmount ref_sdk rw_100 ''alice'' \<noteq> Inr 100"
proof (rule total_delegated_no_result)
  let ?ds = "map (\<lambda>i. \<lparr>GetValidatorAddr = replicate i (CHR ''v''), GetShares = dec_unit\<rparr>) [1..<101]"
  show "GetDelegatorDelegations ref_sdk rw_100 ''alice'' 100 = Inr ?ds"
    by (simp add: ref_sdk_def ref_delegations_def rw_100_def comp_def filter_map)
  show "length ?ds = 100" by simp
qed

section \<open>Staking hooks\<close>

text \<open>
  C12. After a delegation was changed, the hook accepts if and only if the pair is marked as
  redelegating, or nothing is locked today, or the delegations cover what is locked; otherwise it
  returns \<open>ErrInsufficientDelegations\<close>, which aborts the staking operation.
\<close>

theorem AfterDelegationModified_spec:
  assumes "lockup_env K view" and "GetLockedAmountByAddress K ctx w d = Inr l"
    and "GetTotalDelegatedAmount K w d = Inr n"
  defines "locked \<equiv> locked_sum (blockDay (BlockTime ctx)) (book K view w d)"
  shows "AfterDelegationModified K ctx w d v =
    (if isRedelegating ctx d v \<or> locked = 0 \<or> locked \<le> n then Inr () else Inl ErrInsufficientDelegations)"
proof -
  have "l = locked" using lockup_env.GetLockedAmountByAddress_Inr [OF assms(1,2)] by (simp add: locked_def)
  then show ?thesis
    using assms(2,3)
    by (auto simp: AfterDelegationModified_def checkLockupInvariant_def checkLockupInvariantExcluding_def)
qed

theorem AfterDelegationModified_spec_witness:
  "AfterDelegationModified ref_sdk jan (rw1\<lparr>rw_del := []\<rparr>) ''alice'' ''val1'' = Inl ErrInsufficientDelegations"
proof -
  let ?w = "rw1\<lparr>rw_del := []\<rparr>"
  have l: "GetLockedAmountByAddress ref_sdk jan ?w ''alice'' = Inr 200" by code_simp
  have n: "GetTotalDelegatedAmount ref_sdk ?w ''alice'' = Inr 0" by code_simp
  have "\<not> isRedelegating jan ''alice'' ''val1''" by (simp add: isRedelegating_def jan_def)
  then show ?thesis
    using AfterDelegationModified_spec [OF ref_env l n, of "''val1''"] run.GetLockedAmountByAddress_Inr [OF l]
    by simp
qed

text \<open>
  C13. Before a delegation is removed, the hook subtracts it from the total and accepts if and only
  if the pair is marked as redelegating, or nothing is locked today, or the remaining delegations cover
  what is locked.
\<close>

theorem BeforeDelegationRemoved_spec:
  assumes "lockup_env K view" and "GetLockedAmountByAddress K ctx w d = Inr l"
    and "GetTotalDelegatedAmount K w d = Inr n" and "GetDelegationAmount K w d v = Inr x"
    and "int_fits (n - x)"
  defines "locked \<equiv> locked_sum (blockDay (BlockTime ctx)) (book K view w d)"
  shows "BeforeDelegationRemoved K ctx w d v =
    (if isRedelegating ctx d v \<or> locked = 0 \<or> locked \<le> n - x then Inr () else Inl ErrInsufficientDelegations)"
proof -
  have "l = locked" using lockup_env.GetLockedAmountByAddress_Inr [OF assms(1,2)] by (simp add: locked_def)
  then show ?thesis
    using assms(2-5)
    by (auto simp: BeforeDelegationRemoved_def checkLockupInvariantExcluding_def int_op_defs)
qed

theorem BeforeDelegationRemoved_spec_witness:
  "BeforeDelegationRemoved ref_sdk jan rw1 ''alice'' ''val1'' = Inl ErrInsufficientDelegations"
proof -
  have l: "GetLockedAmountByAddress ref_sdk jan rw1 ''alice'' = Inr 200" by code_simp
  have n: "GetTotalDelegatedAmount ref_sdk rw1 ''alice'' = Inr 500" by code_simp
  have x: "GetDelegationAmount ref_sdk rw1 ''alice'' ''val1'' = Inr 500" by code_simp
  have "\<not> isRedelegating jan ''alice'' ''val1''" by (simp add: isRedelegating_def jan_def)
  then show ?thesis
    using BeforeDelegationRemoved_spec [OF ref_env l n x] run.GetLockedAmountByAddress_Inr [OF l]
    by (simp add: int_fits_def)
qed

section \<open>The redelegation marker\<close>

text \<open>
  C14. The decorator runs the rest of the ante chain in a context with the block time unchanged, in which
  every (delegator, source validator) pair named by a \<open>MsgBeginRedelegate\<close> of the transaction is marked.
  A pair is marked exactly if it was before or its two addresses, joined by a zero byte, give the string
  of a named pair; so, whenever the messages' delegators have one length (20 bytes on the chain), exactly the
  named pairs and those marked before are. In that context both hooks accept every change of a
  named pair's delegation, whatever message of the transaction makes it.
\<close>

theorem AnteHandle_marks:
  assumes "AnteHandle K ctx msgs next_handler = Inr r"
  shows "\<exists>ctx'. next_handler ctx' = Inr r \<and> BlockTime ctx' = BlockTime ctx \<and>
    (\<forall>d v. isRedelegating ctx' d v \<longleftrightarrow> (\<exists>d' v'. marked K msgs d' v' \<and>
       d' @ [char_of (0::nat)] @ v' = d @ [char_of (0::nat)] @ v) \<or> isRedelegating ctx d v) \<and>
    (\<forall>d v. one_length K msgs d \<longrightarrow> (isRedelegating ctx' d v \<longleftrightarrow> marked K msgs d v \<or> isRedelegating ctx d v)) \<and>
    (\<forall>d v w. marked K msgs d v \<longrightarrow>
       AfterDelegationModified K ctx' w d v = Inr () \<and> BeforeDelegationRemoved K ctx' w d v = Inr ())"
proof -
  from assms obtain ctx' where c: "foldM (mark_msg K) ctx msgs = Inr ctx'" "next_handler ctx' = Inr r"
    by (auto simp: AnteHandle_def)
  have hooks: "AfterDelegationModified K ctx' w d v = Inr () \<and> BeforeDelegationRemoved K ctx' w d v = Inr ()"
    if "marked K msgs d v" for d v w
    using mark_loop_marks [OF c(1) that] by (simp add: AfterDelegationModified_def BeforeDelegationRemoved_def)
  show ?thesis
    using c(2) mark_loop [OF c(1)] mark_loop_exact [OF c(1)] hooks by (intro exI [of _ ctx'] conjI allI impI) blast+
qed

theorem AnteHandle_marks_witness:
  "\<exists>ctx'. isRedelegating ctx' ''alice'' ''val1'' \<and> \<not> isRedelegating ctx' ''alice'' ''val2'' \<and>
     \<not> isRedelegating ctx' ''carol'' ''val1'' \<and>
     BeforeDelegationRemoved ref_sdk ctx' rw1 ''alice'' ''val1'' = Inr ()"
proof -
  let ?msgs = "[MsgBeginRedelegate ''alice'' ''val1'', MsgOther ''MsgUndelegate'']"
  have "\<exists>r. AnteHandle ref_sdk jan ?msgs Inr = Inr r"
    by (simp add: AnteHandle_def mark_msg_def ref_sdk_def ref_bech32_def)
  then obtain r where "AnteHandle ref_sdk jan ?msgs Inr = Inr r" ..
  from AnteHandle_marks [OF this] obtain ctx' where c:
      "one_length ref_sdk ?msgs d \<Longrightarrow>
        isRedelegating ctx' d v \<longleftrightarrow> marked ref_sdk ?msgs d v \<or> isRedelegating jan d v"
      "marked ref_sdk ?msgs d v \<Longrightarrow> BeforeDelegationRemoved ref_sdk ctx' w d v = Inr ()" for d v w
    by blast
  have m: "marked ref_sdk ?msgs d v \<longleftrightarrow> d = ''alice'' \<and> v = ''val1''" for d v
    by (auto simp: marked_def ref_sdk_def ref_bech32_def)
  have l: "one_length ref_sdk ?msgs d" if "length d = 5" for d
    using that by (auto simp: one_length_def ref_sdk_def ref_bech32_def)
  have n: "\<not> isRedelegating jan d v" for d v by (simp add: isRedelegating_def jan_def)
  show ?thesis
    using c(1) [OF l] c(2) by (intro exI [of _ ctx']) (simp add: m n)
qed

section \<open>The bank restriction\<close>

text \<open>
  C11. The bank restriction lets a transfer pass, to the same recipient, if and only if it moves no
  bond tokens, or the sender has nothing locked today, or its delegations cover what is locked, or
  the sender's balance less the uncovered part covers the amount; otherwise it returns
  \<open>ErrInsufficientFunds\<close>.
\<close>

theorem SendRestrictionFn_spec:
  assumes "lockup_env K view" and "BondDenom K w = Inr denom"
    and "GetLockedAmountByAddress K ctx w a = Inr l" and "GetTotalDelegatedAmount K w a = Inr n"
    and "int_fits (l - n)" and "int_fits (GetBalance K w a denom - (l - n))"
    and "0 \<le> AmountOf K cs denom"
  defines "locked \<equiv> locked_sum (blockDay (BlockTime ctx)) (book K view w a)"
    and "x \<equiv> AmountOf K cs denom" and "bal \<equiv> GetBalance K w a denom"
  shows "SendRestrictionFn K ctx w a b cs =
    (if x = 0 \<or> locked = 0 \<or> locked \<le> n \<or> x \<le> bal - (locked - n) then Inr b
     else Inl ErrInsufficientFunds)"
proof -
  have "l = locked" using lockup_env.GetLockedAmountByAddress_Inr [OF assms(1,3)] by (simp add: locked_def)
  then show ?thesis
    using assms(2-7)
    by (auto simp: SendRestrictionFn_def Let_def int_op_defs x_def bal_def)
qed

theorem SendRestrictionFn_spec_witness:
  "SendRestrictionFn ref_sdk jan (rw1\<lparr>rw_del := []\<rparr>) ''alice'' ''bob'' [aTSC 801] = Inl ErrInsufficientFunds \<and>
   SendRestrictionFn ref_sdk jan (rw1\<lparr>rw_del := []\<rparr>) ''alice'' ''bob'' [aTSC 800] = Inr ''bob''"
proof -
  let ?w = "rw1\<lparr>rw_del := []\<rparr>"
  have d: "BondDenom ref_sdk ?w = Inr ''aTSC''" by code_simp
  have l: "GetLockedAmountByAddress ref_sdk jan ?w ''alice'' = Inr 200" by code_simp
  have n: "GetTotalDelegatedAmount ref_sdk ?w ''alice'' = Inr 0" by code_simp
  have b: "GetBalance ref_sdk ?w ''alice'' ''aTSC'' = 1000" by code_simp
  have x: "AmountOf ref_sdk [aTSC y] ''aTSC'' = y" for y
    by (simp add: ref_sdk_def ref_AmountOf_def aTSC_def)
  note spec = SendRestrictionFn_spec [OF ref_env d l n, where b = "''bob''", unfolded b]
  show ?thesis
    using spec [of "[aTSC 801]"] spec [of "[aTSC 800]"] run.GetLockedAmountByAddress_Inr [OF l]
    by (simp add: x int_fits_def)
qed

section \<open>Stores\<close>

text \<open>
  C19. Unmarshalling a marshalled list of locks gives the list back, and the buffer has exactly the
  length \<open>Size\<close> announces.
\<close>

theorem locks_roundtrip:
  assumes "int_codec im iu" and "locks_Marshal im ls = Inr bz" and "length bz < 2 ^ 63"
  shows "locks_Unmarshal iu bz = Inr ls \<and> length bz = locks_Size im ls"
  using int_codec.locks_codec_roundtrip [OF assms] locks_Marshal_Inr [OF assms(2)]
    locks_Size_wire [of im ls]
  by simp

theorem locks_roundtrip_witness:
  "locks_Unmarshal ref_IntUnmarshal (stored [\<lparr>UnlockDate = ''2025-06-30'', Amount = 200\<rparr>]) =
     Inr [\<lparr>UnlockDate = ''2025-06-30'', Amount = 200\<rparr>]"
proof -
  let ?ls = "[\<lparr>UnlockDate = ''2025-06-30'', Amount = 200\<rparr>]"
  have "locks_Marshal ref_IntMarshal ?ls = Inr (stored ?ls)" by code_simp
  moreover have "length (stored ?ls) = 19" by code_simp
  ultimately show ?thesis
    using locks_roundtrip [OF ref_codec.int_codec_axioms, of ?ls "stored ?ls"] by simp
qed

text \<open>
  Storing a lock for an address keeps its list sorted by date (for a date it does not hold
  yet), adds exactly that lock to it, and touches neither another address nor the queue.
\<close>

theorem SetLockByAddress_spec:
  assumes "lockup_env K view" and "SetLockByAddress K w a l = Inr w'"
  shows "mset (book K view w' a) = add_mset l (mset (book K view w a)) \<and>
    (date_sorted (book K view w a) \<and> UnlockDate l \<notin> UnlockDate ` set (book K view w a) \<longrightarrow>
       date_sorted (book K view w' a)) \<and>
    (\<forall>b. b \<noteq> a \<longrightarrow> book K view w' b = book K view w b) \<and> queue K view w' = queue K view w"
  using lockup_env.SetLockByAddress_book [OF assms] lockup_env.SetLockByAddress_queue [OF assms]
    insert_lock_sorted
  by simp

theorem SetLockByAddress_spec_witness:
  "\<exists>w'. SetLockByAddress ref_sdk rw1 ''alice'' \<lparr>UnlockDate = ''2025-03-01'', Amount = 7\<rparr> = Inr w' \<and>
     date_sorted (book ref_sdk ref_view w' ''alice'')"
proof -
  let ?l = "\<lparr>UnlockDate = ''2025-03-01'', Amount = 7\<rparr>"
  have "\<not> isl (SetLockByAddress ref_sdk rw1 ''alice'' ?l)" by code_simp
  then obtain w' where w': "SetLockByAddress ref_sdk rw1 ''alice'' ?l = Inr w'"
    by (rule not_islE)
  from SetLockByAddress_spec [OF ref_env this] show ?thesis
    using w' by (simp add: ref_books date_sorted_def)
qed

text \<open>
  Adding an amount to the queue and removing it again restores the queue and leaves the book
  untouched.
\<close>

theorem queue_add_remove:
  assumes "lockup_env K view" and "AddToExpirationQueue K w t a x = Inr w1"
    and "RemoveFromExpirationQueue K w1 t a x = Inr w2"
  shows "queue K view w2 = queue K view w \<and> book K view w2 = book K view w"
proof -
  note a = lockup_env.enq_law [OF assms(1,2) refl]
  then have "queued view w1 (of_int (Unix t)) a" by simp
  from lockup_env.deq_law [OF assms(1,3) refl this] a show ?thesis by simp
qed

theorem queue_add_remove_witness:
  "\<exists>w1 w2. AddToExpirationQueue ref_sdk rw1 0 ''alice'' 5 = Inr w1 \<and>
     RemoveFromExpirationQueue ref_sdk w1 0 ''alice'' 5 = Inr w2 \<and>
     queue ref_sdk ref_view w2 = queue ref_sdk ref_view rw1"
proof -
  have "\<not> isl (bnd (AddToExpirationQueue ref_sdk rw1 0 ''alice'' 5) (\<lambda>w.
      RemoveFromExpirationQueue ref_sdk w 0 ''alice'' 5))" by code_simp
  then obtain w2 where "bnd (AddToExpirationQueue ref_sdk rw1 0 ''alice'' 5) (\<lambda>w.
      RemoveFromExpirationQueue ref_sdk w 0 ''alice'' 5) = Inr w2"
    by (rule not_islE)
  then obtain w1 where w: "AddToExpirationQueue ref_sdk rw1 0 ''alice'' 5 = Inr w1"
    "RemoveFromExpirationQueue ref_sdk w1 0 ''alice'' 5 = Inr w2"
    by (rule bnd_InrE)
  with queue_add_remove [OF ref_env w] show ?thesis by blast
qed

text \<open>
  Removing the expired entries with a callback that leaves the store alone deletes exactly the
  queue entries whose time is at or before the cutoff, and no lock of the book.
\<close>

theorem delete_expired_exact:
  assumes "lockup_env K view" and "lockup_keys view w"
    and "IterateAndDeleteExpiredLocks K w cutoff cb = Inr w'"
    and "\<And>w a t x w'. cb w a t x = Inr w' \<Longrightarrow> view w' = view w"
  shows "(queued view w' u a \<longleftrightarrow> queued view w u a \<and> of_int (Unix cutoff + 1) \<le> u) \<and>
    book K view w' = book K view w"
proof -
  note v = lockup_env.IterateAndDeleteExpiredLocks_view [OF assms(1,3,2)]
  show ?thesis by (intro conjI v) (erule assms(4))+
qed

theorem delete_expired_exact_witness:
  "\<exists>w'. IterateAndDeleteExpiredLocks ref_sdk rw2 (midnight 20300) (\<lambda>w a t x. Inr w) = Inr w' \<and>
     book ref_sdk ref_view w' = book ref_sdk ref_view rw2"
proof -
  let ?r = "IterateAndDeleteExpiredLocks ref_sdk rw2 (midnight 20300) (\<lambda>w a t x. Inr w)"
  have "\<not> isl ?r" by code_simp
  then obtain w' where w': "?r = Inr w'" by (rule not_islE)
  have "lockup_keys ref_view rw2"
    using run.reachable_ok ref_reachable(3) by (simp add: lockup_ok_def)
  from delete_expired_exact [OF ref_env this w'] w' show ?thesis by simp
qed

end
