(* ===== verification/Lock_Query.thy ===== *)
theory Lock_Query
  imports Lock_Inv
begin

text \<open>
  The queries of the lockup module, \<open>x/lockup/keeper/query_server.go\<close>. Requests may be nil
  (\<open>None\<close>); page offsets and limits are 64-bit words; a slice index out of range is the Go panic it
  is in the code. \<open>strings.TrimSpace\<close> is modelled on ASCII text.
\<close>

section \<open>Requests and responses\<close>

record PageRequest =
  page_Key :: bytes
  page_Offset :: "64 word"
  page_Limit :: "64 word"
  page_CountTotal :: bool
  page_Reverse :: bool

record PageResponse =
  NextKey :: bytes
  page_Total :: "64 word"

record QueryActiveLocksRequest =
  al_Pagination :: "PageRequest option"

record ActiveLockResource =
  ar_Address :: string
  ar_UnlockDate :: string
  ar_Amount :: coin

record QueryAccountLocksRequest =
  Addresses :: string
  acc_Pagination :: "PageRequest option"

record LockResource =
  lr_UnlockDate :: string
  lr_Amount :: coin

record AccountLocksResource =
  acc_Address :: string
  acc_Locks :: "LockResource list"

record QueryLocksRequest =
  ql_Address :: string
  ql_Pagination :: "PageRequest option"

record QueryActiveLocksResponse =
  qar_Locks :: "ActiveLockResource list"
  qar_Pagination :: "PageResponse option"

record QueryTotalLockedAmountResponse =
  TotalLocked :: coin

record QueryAccountLocksResponse =
  Accounts :: "AccountLocksResource list"
  qac_Pagination :: "PageResponse option"

record QueryLocksResponse =
  qlr_Locks :: "LockResource list"
  qlr_Pagination :: "PageResponse option"

section \<open>Text\<close>

fun split_comma :: "string \<Rightarrow> string list" where
  "split_comma [] = [[]]"
| "split_comma (c # cs) =
     (if c = CHR '','' then [] # split_comma cs
      else (c # hd (split_comma cs)) # tl (split_comma cs))"

definition is_space :: "char \<Rightarrow> bool" where
  "is_space c \<longleftrightarrow> c = CHR '' '' \<or> (9 \<le> byte_val c \<and> byte_val c \<le> 13)"

definition TrimSpace :: "string \<Rightarrow> string" where
  "TrimSpace s = rev (dropWhile is_space (rev (dropWhile is_space s)))"

fun inc_bytes :: "bytes \<Rightarrow> bytes option" where
  "inc_bytes [] = None"
| "inc_bytes (c # cs) =
     (let b = (byte_val c + 1) mod 256
      in if b \<noteq> 0 then Some (char_of b # cs)
         else map_option (\<lambda>r. char_of b # r) (inc_bytes cs))"

text \<open>\<open>prefixEndBytes\<close>: the loop runs from the last byte to the first; \<open>None\<close> is nil.\<close>

definition prefixEndBytes :: "bytes \<Rightarrow> bytes option" where
  "prefixEndBytes prefix =
     (if length prefix = 0 then None else map_option rev (inc_bytes (rev prefix)))"

section \<open>Pagination\<close>

text \<open>The offset and limit of a request, 0 and 100 by default.\<close>

definition page_of :: "PageRequest option \<Rightarrow> 64 word \<times> 64 word" where
  "page_of p =
     (case p of
        None \<Rightarrow> (0, 100)
      | Some r \<Rightarrow> (page_Offset r, if page_Limit r \<noteq> 0 then page_Limit r else 100))"

text \<open>
  \<open>xs[startIdx:endIdx]\<close> with \<open>endIdx\<close> cut at the length, the next-page marker and the total, the
  part \<open>AccountLocks\<close> and \<open>Locks\<close> share.
\<close>

definition paginate :: "PageRequest option \<Rightarrow> 'a list \<Rightarrow> ('a list \<times> PageResponse) res" where
  "paginate p xs =
     (let (offset, limit) = page_of p; n = of_nat (length xs);
          endIdx = (if offset + limit > n then n else offset + limit)
      in bnd (slice_range xs (uint offset) (uint endIdx)) (\<lambda>page.
         Inr (page, \<lparr>NextKey = (if endIdx < n then [char_of (1::nat)] else []), page_Total = n\<rparr>)))"

section \<open>Queries\<close>

fun active_loop ::
    "('w, 'v) sdk \<Rightarrow> sdk_ctx \<Rightarrow> 'w \<Rightarrow> 64 word \<Rightarrow> 64 word \<Rightarrow> ActiveLockResource list \<Rightarrow>
     (bytes \<times> bytes) list \<Rightarrow> (ActiveLockResource list \<times> bytes) res" where
  "active_loop K ctx w limit cnt locks [] = Inr (locks, [])"
| "active_loop K ctx w limit cnt locks ((key, val) # iter) =
     (if limit \<le> cnt then Inr (locks, key)
      else if length key < length LocksByDateKey + 8 then active_loop K ctx w limit cnt locks iter
      else let unlockDate = Format_DateOnly (key_time key)
      in if \<not> IsLocked (blockDay (BlockTime ctx)) unlockDate
         then active_loop K ctx w limit cnt locks iter
         else bnd (wrap_err (StatusError Internal ''failed to unmarshal amount'') (IntUnmarshal K val)) (\<lambda>amount.
           bnd (wrap_err (StatusError Internal ''bond denom'') (BondDenom K w)) (\<lambda>bondDenom.
           bnd (NewCoin K bondDenom amount) (\<lambda>c.
           active_loop K ctx w limit (cnt + 1)
             (locks @ [\<lparr>ar_Address = AccAddressString K (key_addr key), ar_UnlockDate = unlockDate,
                        ar_Amount = c\<rparr>]) iter))))"

definition ActiveLocks ::
    "('w, 'v) sdk \<Rightarrow> sdk_ctx \<Rightarrow> 'w \<Rightarrow> QueryActiveLocksRequest option \<Rightarrow>
     (ActiveLockResource list \<times> bytes) res" where
  "ActiveLocks K ctx w req =
     (case req of
        None \<Rightarrow> Inl (StatusError InvalidArgument ''invalid request'')
      | Some req \<Rightarrow>
          let startKey = (case al_Pagination req of
                            Some p \<Rightarrow> if length (page_Key p) \<noteq> 0 then page_Key p else LocksByDateKey
                          | None \<Rightarrow> LocksByDateKey);
              limit = (case al_Pagination req of
                         Some p \<Rightarrow> if page_Limit p \<noteq> 0 then page_Limit p else 100
                       | None \<Rightarrow> 100)
          in bnd (wrap_err (StatusError Internal ''iterator'')
                    (kvIterator K w startKey (prefixEndBytes LocksByDateKey))) (\<lambda>iter.
             active_loop K ctx w limit 0 [] iter))"

definition TotalLockedAmount :: "('w, 'v) sdk \<Rightarrow> sdk_ctx \<Rightarrow> 'w \<Rightarrow> unit option \<Rightarrow> coin res" where
  "TotalLockedAmount K ctx w req =
     (case req of
        None \<Rightarrow> Inl (StatusError InvalidArgument ''invalid request'')
      | Some _ \<Rightarrow>
          bnd (wrap_err (StatusError Internal ''iterate'')
                 (IterateActiveLocks K w (blockDay (BlockTime ctx)) (\<lambda>totalLocked addr unlockTime amount.
                    int_add totalLocked amount) 0)) (\<lambda>totalLocked.
          bnd (wrap_err ErrInvalidType (BondDenom K w)) (\<lambda>bondDenom.
          NewCoin K bondDenom totalLocked)))"

text \<open>The active locks of a list, as resources; \<open>sdk.NewCoin\<close> panics on a negative amount.\<close>

definition active_resources ::
    "('w, 'v) sdk \<Rightarrow> sdk_ctx \<Rightarrow> string \<Rightarrow> lock list \<Rightarrow> LockResource list res" where
  "active_resources K ctx bondDenom locks =
     foldM (\<lambda>rs lock.
       if IsLocked (blockDay (BlockTime ctx)) (UnlockDate lock)
       then bnd (NewCoin K bondDenom (Amount lock)) (\<lambda>c.
            Inr (rs @ [\<lparr>lr_UnlockDate = UnlockDate lock, lr_Amount = c\<rparr>]))
       else Inr rs) [] locks"

definition account_one ::
    "('w, 'v) sdk \<Rightarrow> sdk_ctx \<Rightarrow> 'w \<Rightarrow> string \<Rightarrow> AccountLocksResource list \<Rightarrow> string \<Rightarrow>
     AccountLocksResource list res" where
  "account_one K ctx w bondDenom accountLocks addrStr =
     bnd (wrap_err (StatusError InvalidArgument ''invalid address'') (AccAddressFromBech32 K addrStr)) (\<lambda>addr.
     bnd (wrap_err (StatusError Internal ''get locks'') (GetLocksByAddress K w addr)) (\<lambda>locks.
     bnd (active_resources K ctx bondDenom locks) (\<lambda>rs.
     Inr (accountLocks @ [\<lparr>acc_Address = addrStr, acc_Locks = rs\<rparr>]))))"

definition AccountLocks ::
    "('w, 'v) sdk \<Rightarrow> sdk_ctx \<Rightarrow> 'w \<Rightarrow> QueryAccountLocksRequest option \<Rightarrow>
     (AccountLocksResource list \<times> PageResponse) res" where
  "AccountLocks K ctx w req =
     (case req of
        None \<Rightarrow> Inl (StatusError InvalidArgument ''invalid request'')
      | Some req \<Rightarrow>
          bnd (require (Addresses req \<noteq> []) (StatusError InvalidArgument ''addresses parameter is required'')) (\<lambda>_.
          let addressList = map TrimSpace (split_comma (Addresses req))
          in bnd (require (length addressList \<noteq> 0)
                    (StatusError InvalidArgument ''at least one address is required'')) (\<lambda>_.
             bnd (wrap_err (StatusError Internal ''bond denom'') (BondDenom K w)) (\<lambda>bondDenom.
             bnd (paginate (acc_Pagination req) addressList) (\<lambda>(paginatedAddresses, page).
             bnd (foldM (account_one K ctx w bondDenom) [] paginatedAddresses) (\<lambda>accountLocks.
             Inr (accountLocks, page)))))))"

definition Locks ::
    "('w, 'v) sdk \<Rightarrow> sdk_ctx \<Rightarrow> 'w \<Rightarrow> QueryLocksRequest option \<Rightarrow> (LockResource list \<times> PageResponse) res" where
  "Locks K ctx w req =
     (case req of
        None \<Rightarrow> Inl (StatusError InvalidArgument ''invalid request'')
      | Some req \<Rightarrow>
          bnd (require (ql_Address req \<noteq> []) (StatusError InvalidArgument ''address is required'')) (\<lambda>_.
          bnd (wrap_err (StatusError InvalidArgument ''invalid address'')
                 (AccAddressFromBech32 K (ql_Address req))) (\<lambda>addr.
          bnd (wrap_err (StatusError Internal ''get locks'') (GetLocksByAddress K w addr)) (\<lambda>locks.
          bnd (wrap_err (StatusError Internal ''bond denom'') (BondDenom K w)) (\<lambda>bondDenom.
          bnd (active_resources K ctx bondDenom locks) (\<lambda>activeLockResources.
          paginate (ql_Pagination req) activeLockResources))))))"

section \<open>Pages\<close>

text \<open>When the offset lies in the list, the page is the offset's window and the marker tells the truth.\<close>

lemma paginate_page:
  assumes "page_of p = (offset, limit)" "length xs < 2 ^ 63" "unat offset \<le> length xs"
    "unat offset + unat limit < 2 ^ 64"
  shows "paginate p xs = Inr (take (unat limit) (drop (unat offset) xs),
    \<lparr>NextKey = (if unat offset + unat limit < length xs then [char_of (1::nat)] else []),
     page_Total = of_nat (length xs)\<rparr>)"
proof -
  let ?n = "of_nat (length xs) :: 64 word"
  have n: "unat ?n = length xs" using assms(2) by (simp add: unat_of_nat)
  have sum: "unat (offset + limit) = unat offset + unat limit"
    using assms(4) by (simp add: unat_add_lem [THEN iffD1])
  have gt: "?n < offset + limit \<longleftrightarrow> length xs < unat offset + unat limit"
    by (simp add: word_less_nat_alt n sum)
  have lt: "offset + limit < ?n \<longleftrightarrow> unat offset + unat limit < length xs"
    by (simp add: word_less_nat_alt n sum)
  define e where "e = (if ?n < offset + limit then ?n else offset + limit)"
  have e: "unat e = min (length xs) (unat offset + unat limit)"
    by (auto simp: e_def n sum gt)
  have less: "e < ?n \<longleftrightarrow> unat offset + unat limit < length xs"
    by (simp add: word_less_nat_alt n e min_less_iff_disj)
  have "slice_range xs (uint offset) (uint e) =
      Inr (take (min (length xs) (unat offset + unat limit) - unat offset) (drop (unat offset) xs))"
    unfolding uint_nat e using assms(3) by (intro slice_range_nat) simp_all
  moreover have "take (min (length xs) (unat offset + unat limit) - unat offset) (drop (unat offset) xs) =
      take (unat limit) (drop (unat offset) xs)"
    by (simp add: min_def)
  ultimately show ?thesis
    by (simp only: paginate_def assms(1) Let_def prod.case e_def [symmetric] bnd_Inr less)
qed

lemma paginate_beyond:
  assumes "page_of p = (offset, limit)" "length xs < 2 ^ 63" "length xs < unat offset"
  shows "\<exists>s. paginate p xs = Inl (GoPanic s)"
proof -
  let ?n = "of_nat (length xs) :: 64 word"
  have n: "unat ?n = length xs" using assms(2) by (simp add: unat_of_nat)
  have "unat (if ?n < offset + limit then ?n else offset + limit) \<le> length xs"
    using n by (simp add: word_less_nat_alt)
  then have "uint (if ?n < offset + limit then ?n else offset + limit) < uint offset"
    using assms(3) unfolding uint_nat by linarith
  then show ?thesis
    using assms(1) by (auto simp: paginate_def Let_def slice_range_def)
qed

section \<open>Pages of active locks\<close>

text \<open>The body of the loop of \<open>ActiveLocks\<close> without the limit.\<close>

definition active_entry ::
    "('w, 'v) sdk \<Rightarrow> sdk_ctx \<Rightarrow> 'w \<Rightarrow> ActiveLockResource list \<Rightarrow> bytes \<times> bytes \<Rightarrow>
     ActiveLockResource list res" where
  "active_entry K ctx w locks kv =
     (let unlockDate = Format_DateOnly (key_time (fst kv))
      in if length (fst kv) < length LocksByDateKey + 8 \<or> \<not> IsLocked (blockDay (BlockTime ctx)) unlockDate
         then Inr locks
         else bnd (wrap_err (StatusError Internal ''failed to unmarshal amount'') (IntUnmarshal K (snd kv))) (\<lambda>amount.
           bnd (wrap_err (StatusError Internal ''bond denom'') (BondDenom K w)) (\<lambda>bondDenom.
           bnd (NewCoin K bondDenom amount) (\<lambda>c.
           Inr (locks @ [\<lparr>ar_Address = AccAddressString K (key_addr (fst kv)), ar_UnlockDate = unlockDate,
                          ar_Amount = c\<rparr>])))))"

text \<open>A page covers a prefix of the entries, and its next key is the first entry left out.\<close>

lemma active_loop_Cons:
  assumes "\<not> limit \<le> cnt"
  shows "active_loop K ctx w limit cnt locks (kv # iter) = bnd (active_entry K ctx w locks kv) (\<lambda>l.
    active_loop K ctx w limit (if l = locks then cnt else cnt + 1) l iter)"
  using assms
  by (cases kv) (auto simp: active_entry_def Let_def bnd_def wrap_err_def split: sum.split)

lemma active_loop_prefix:
  assumes "active_loop K ctx w limit cnt locks kvs = Inr (ls, nk)"
  shows "\<exists>n \<le> length kvs. foldM (active_entry K ctx w) locks (take n kvs) = Inr ls \<and>
    (if n < length kvs then nk = fst (kvs ! n) else nk = [])"
  using assms
proof (induction kvs arbitrary: cnt locks)
  case Nil
  then show ?case by simp
next
  case (Cons kv iter)
  show ?case
  proof (cases "limit \<le> cnt")
    case True
    with Cons.prems show ?thesis by (cases kv) (intro exI [of _ 0], simp)
  next
    case False
    from Cons.prems obtain l c where e: "active_entry K ctx w locks kv = Inr l"
      and r: "active_loop K ctx w limit c l iter = Inr (ls, nk)"
      unfolding active_loop_Cons [OF False] by (elim bnd_InrE)
    from Cons.IH [OF r] obtain n where "n \<le> length iter"
      "foldM (active_entry K ctx w) l (take n iter) = Inr ls"
      "if n < length iter then nk = fst (iter ! n) else nk = []" by blast
    with e show ?thesis by (intro exI [of _ "Suc n"]) simp
  qed
qed

lemma active_loop_all:
  assumes "active_loop K ctx w limit cnt locks kvs = Inr (ls, [])" "\<And>i. i < length kvs \<Longrightarrow> fst (kvs ! i) \<noteq> []"
  shows "foldM (active_entry K ctx w) locks kvs = Inr ls"
proof -
  obtain n where n: "n \<le> length kvs" "foldM (active_entry K ctx w) locks (take n kvs) = Inr ls"
    "if n < length kvs then [] = fst (kvs ! n) else [] = ([] :: bytes)"
    using active_loop_prefix [OF assms(1)] by blast
  have "\<not> n < length kvs" using n(3) assms(2) [of n] by (cases "n < length kvs") simp_all
  with n show ?thesis by simp
qed

lemma active_entry_acc:
  "active_entry K ctx w (p @ locks) kv = bnd (active_entry K ctx w locks kv) (\<lambda>l. Inr (p @ l))"
  by (auto simp: active_entry_def Let_def bnd_def wrap_err_def split: sum.split)

lemma active_fold_acc:
  "foldM (active_entry K ctx w) (p @ locks) kvs = bnd (foldM (active_entry K ctx w) locks kvs) (\<lambda>l. Inr (p @ l))"
  by (induction kvs arbitrary: locks) (simp_all add: active_entry_acc bnd_assoc)

section \<open>The total\<close>

lemma amt_cong:
  "(\<And>l. l \<in> set ls \<Longrightarrow> P (UnlockDate l) \<longleftrightarrow> Q (UnlockDate l)) \<Longrightarrow> amt P ls = amt Q ls"
  unfolding amt_def by (intro arg_cong [where f = sum_list] map_cong) auto

lemma sum_due: "finite U \<Longrightarrow> (\<Sum>u \<in> U. due u ls) = amt (\<lambda>d. date_word d \<in> U) ls"
  by (induction ls) (simp_all add: due_def amt_def sum.distrib)

text \<open>Times in a block compare as their words do.\<close>

lemma word_of_int_le:
  "0 \<le> x \<Longrightarrow> x < 2 ^ 64 \<Longrightarrow> 0 \<le> y \<Longrightarrow> y < 2 ^ 64 \<Longrightarrow> (of_int x :: 64 word) \<le> of_int y \<longleftrightarrow> x \<le> y"
  by (simp add: word_le_def uint_word_of_int_eq take_bit_int_eq_self)

lemma date_word_after:
  assumes p: "Parse_DateOnly d = Inr t" "0 \<le> t" and b: "0 \<le> bt" "Unix bt < 2 ^ 63 - 1"
  shows "of_int (Unix (blockDay bt) + 1) \<le> date_word d \<longleftrightarrow> IsLocked (blockDay bt) d"
proof -
  obtain n where n: "t = midnight n" "n \<le> 2932896"
    using Parse_DateOnly_day_bounds [OF p(1)] Parse_DateOnly_midnight [OF p(1)] by auto
  define m where "m = day_number bt"
  have day: "blockDay bt = midnight m" by (simp add: blockDay_eq m_def)
  have "0 \<le> n" using p(2) n midnight_le [of 0 n] by (simp add: midnight_def)
  moreover have "0 \<le> m" using b(1) by (simp add: m_def day_number_def pos_imp_zdiv_nonneg_iff)
  moreover have "m * 86400 \<le> Unix bt"
    using day_number_le [of bt] by (simp add: m_def midnight_def Unix_def ns_per_day_def)
  ultimately have r: "0 \<le> n * 86400" "n * 86400 < 2 ^ 64" "0 \<le> m * 86400 + 1" "m * 86400 + 1 < 2 ^ 64"
    using n(2) b(2) by auto
  have "of_int (Unix (blockDay bt) + 1) \<le> date_word d \<longleftrightarrow> m * 86400 + 1 \<le> n * 86400"
    unfolding date_word_parsed [OF p(1)] n(1) day Unix_midnight by (rule word_of_int_le [OF r(3,4,1,2)])
  also have "\<dots> \<longleftrightarrow> m < n" by linarith
  finally show ?thesis by (simp add: IsLocked_parsed [OF p(1)] n(1) day)
qed

lemma sum_pairs:
  assumes "finite E"
  shows "(\<Sum>(u, a) \<in> E. f u a) = (\<Sum>a \<in> snd ` E. \<Sum>u | (u, a) \<in> E. f u a)"
proof -
  have fin: "finite {u. (u, a) \<in> E}" for a
    by (rule finite_subset [OF _ finite_imageI [OF assms, of fst]]) force
  have E: "E = prod.swap ` (SIGMA a : snd ` E. {u. (u, a) \<in> E})" by force
  have "(\<Sum>(u, a) \<in> E. f u a) = (\<Sum>(a, u) \<in> (SIGMA a : snd ` E. {u. (u, a) \<in> E}). f u a)"
    by (subst E) (simp add: sum.reindex case_prod_beta)
  also have "\<dots> = (\<Sum>a \<in> snd ` E. \<Sum>u | (u, a) \<in> E. f u a)"
    using assms fin by (subst sum.Sigma) simp_all
  finally show ?thesis .
qed

context lockup_env
begin

lemma queue_sum_locked:
  assumes ok: "lockup_ok K view w" and b: "0 \<le> bt" "Unix bt < 2 ^ 63 - 1"
    and E: "E = {(u, a). queued view w u a \<and> of_int (Unix (blockDay bt) + 1) \<le> u}" "finite E"
  shows "(\<Sum>(u, a) \<in> E. queue K view w u a) =
      (\<Sum>a | locked_sum (blockDay bt) (book K view w a) \<noteq> 0. locked_sum (blockDay bt) (book K view w a))"
proof -
  let ?L = "\<lambda>a. locked_sum (blockDay bt) (book K view w a)" and ?now = "of_int (Unix (blockDay bt) + 1) :: 64 word"
  have led: "ledger_ok (book K view w) (queue K view w) (queued view w)"
    using ok by (simp add: lockup_ok_def)
  have inner: "(\<Sum>u | (u, a) \<in> E. queue K view w u a) = ?L a" for a
  proof -
    let ?U = "{u. (u, a) \<in> E}" and ?b = "book K view w a"
    have wf: "locks_wf ?b" by (rule ledger_okD(1) [OF led])
    have fin: "finite ?U" by (rule finite_subset [OF _ finite_imageI [OF E(2), of fst]]) force
    have "(\<Sum>u \<in> ?U. queue K view w u a) = amt (\<lambda>d. date_word d \<in> ?U) ?b"
      using sum_due [OF fin] ledger_okD(2) [OF led] by simp
    also have "\<dots> = amt (IsLocked (blockDay bt)) ?b"
    proof (rule amt_cong)
      fix l assume l: "l \<in> set ?b"
      then obtain t where t: "Parse_DateOnly (UnlockDate l) = Inr t" "0 \<le> t" and pos: "0 < Amount l"
        using wf by (auto simp: locks_wf_def)
      have "Amount l \<le> due (date_word (UnlockDate l)) ?b"
        unfolding due_def by (rule amt_member [OF wf l]) simp
      then have "queued view w (date_word (UnlockDate l)) a"
        using pos ledger_okD(3) [OF led] by simp
      then show "date_word (UnlockDate l) \<in> ?U \<longleftrightarrow> IsLocked (blockDay bt) (UnlockDate l)"
        using date_word_after [OF t b] by (simp add: E(1))
    qed
    finally show ?thesis by (simp add: locked_sum_amt)
  qed
  have "a \<in> snd ` E" if "?L a \<noteq> 0" for a
  proof (rule ccontr)
    assume "a \<notin> snd ` E"
    then have "{u. (u, a) \<in> E} = {}" by force
    with inner [of a] that show False by simp
  qed
  then have "(\<Sum>a \<in> snd ` E. ?L a) = (\<Sum>a | ?L a \<noteq> 0. ?L a)"
    using E(2) by (intro sum.mono_neutral_right) auto
  with inner show ?thesis unfolding sum_pairs [OF E(2)] by simp
qed

lemma TotalLockedAmount_sum:
  assumes run: "TotalLockedAmount K ctx w (Some ()) = Inr c" and ok: "lockup_ok K view w"
    and b: "0 \<le> BlockTime ctx" "Unix (BlockTime ctx) < 2 ^ 63 - 1"
  defines "day \<equiv> blockDay (BlockTime ctx)"
  shows "CoinAmount c =
    (\<Sum>a | locked_sum day (book K view w a) \<noteq> 0. locked_sum day (book K view w a))"
proof -
  from run obtain d x where it: "IterateActiveLocks K w day (\<lambda>s a t x. int_add s x) 0 = Inr x"
    and c: "NewCoin K d x = Inr c"
    by (auto simp: TotalLockedAmount_def day_def split: sum.splits go_err.splits)
  obtain es where fold: "foldM (\<lambda>s (u, a). int_add s (queue K view w u a)) 0 es = Inr x"
    and es: "sorted_wrt entry_less es" "set es = {(u, a). queued view w u a \<and> of_int (Unix day + 1) \<le> u}"
    using IterateActiveLocks_entries [OF it] ok by (auto simp: lockup_ok_def)
  have "distinct es"
    using es(1) by (induction es) (auto simp: entry_less_def)
  have "(\<lambda>s (u, a). int_add s (queue K view w u a)) =
      (\<lambda>s e. int_add s (queue K view w (fst e) (snd e)))"
    by (simp add: fun_eq_iff)
  with fold have "x = (\<Sum>e \<leftarrow> es. queue K view w (fst e) (snd e))"
    using foldM_int_add [of "\<lambda>e. queue K view w (fst e) (snd e)" 0 es x] by simp
  also have "\<dots> = (\<Sum>(u, a) \<in> set es. queue K view w u a)"
    using \<open>distinct es\<close> by (simp add: sum_list_distinct_conv_sum_set case_prod_beta)
  also have "\<dots> = (\<Sum>a | locked_sum day (book K view w a) \<noteq> 0. locked_sum day (book K view w a))"
    unfolding day_def by (rule queue_sum_locked [OF ok b es(2) [unfolded day_def]]) simp
  finally show ?thesis using new_coin [OF c] by simp
qed

end

end
