(* ===== verification/Query_Props.thy ===== *)
theory Query_Props
  imports Lock_Query Ref_Run
begin

text \<open>The properties of the lockup module's queries.\<close>

text \<open>
  C21. The total locked amount the query reports is the sum, over all addresses with something
  locked today, of what they have locked today, in every state that satisfies the invariant.
\<close>

theorem TotalLockedAmount_is_sum:
  assumes "lockup_env K view" and "lockup_ok K view w"
    and "0 \<le> BlockTime ctx" and "Unix (BlockTime ctx) < 2 ^ 63 - 1"
    and "TotalLockedAmount K ctx w (Some ()) = Inr c"
  defines "day \<equiv> blockDay (BlockTime ctx)"
  shows "CoinAmount c = (\<Sum>a | locked_sum day (book K view w a) \<noteq> 0. locked_sum day (book K view w a))"
  using lockup_env.TotalLockedAmount_sum [OF assms(1,5,2-4)] by (simp add: day_def)

theorem TotalLockedAmount_is_sum_witness:
  "(\<Sum>a | locked_sum (blockDay (BlockTime jan)) (book ref_sdk ref_view rw2 a) \<noteq> 0.
      locked_sum (blockDay (BlockTime jan)) (book ref_sdk ref_view rw2 a)) = 200"
proof -
  have ok: "lockup_ok ref_sdk ref_view rw2" using run.reachable_ok ref_reachable(3) by blast
  have "TotalLockedAmount ref_sdk jan rw2 (Some ()) = Inr (aTSC 200)" by code_simp
  from TotalLockedAmount_is_sum [OF ref_env ok _ _ this] show ?thesis
    by (simp add: jan_def aTSC_def Unix_def)
qed

text \<open>
  \<open>GetTotalLocked\<close> reads a key that no operation writes: whenever it returns in a reachable
  state, it returns zero, whatever is locked.
\<close>

theorem GetTotalLocked_zero:
  assumes "lockup_env K view" and "reachable K view w" and "GetTotalLocked K w = Inr n"
  shows "n = 0"
proof -
  have "lockup_keys view w"
    using lockup_env.reachable_ok [OF assms(1,2)] by (simp add: lockup_ok_def)
  moreover have "TotalLockedKey \<noteq> GetLocksByAddressKey a" "TotalLockedKey \<noteq> queue_key u a" for u a
    by (simp_all add: TotalLockedKey_def GetLocksByAddressKey_def queue_key_def LocksByAddressKey_def
        LocksByDateKey_def)
  ultimately have "view w TotalLockedKey = None" unfolding lockup_keys_def by blast
  with assms(3) kv_store.get_view [OF lockup_env.axioms(1) [OF assms(1)]] show ?thesis
    by (fastforce simp: GetTotalLocked_def split: option.splits)
qed

theorem GetTotalLocked_zero_witness:
  "GetTotalLocked ref_sdk rw2 = Inr 0 \<and> GetLockedAmountByAddress ref_sdk jan rw2 ''alice'' = Inr 200"
proof -
  have "\<not> isl (GetTotalLocked ref_sdk rw2)" by code_simp
  then obtain n where n: "GetTotalLocked ref_sdk rw2 = Inr n" by (rule not_islE)
  moreover have "GetLockedAmountByAddress ref_sdk jan rw2 ''alice'' = Inr 200" by code_simp
  ultimately show ?thesis using GetTotalLocked_zero [OF ref_env ref_reachable(3) n] by simp
qed

text \<open>
  The \<open>Locks\<close> query with an offset inside the list returns exactly the requested window of the
  address's active locks, their number as the total, and a next-page marker exactly when locks are
  left after the window.
\<close>

theorem Locks_page:
  assumes "req = \<lparr>ql_Address = s, ql_Pagination = p\<rparr>" and "s \<noteq> []" and "AccAddressFromBech32 K s = Inr a"
    and "GetLocksByAddress K w a = Inr ls" and "BondDenom K w = Inr d"
    and "active_resources K ctx d ls = Inr rs" and "page_of p = (offset, limit)"
    and "length rs < 2 ^ 63" and "unat offset \<le> length rs" and "unat offset + unat limit < 2 ^ 64"
  shows "Locks K ctx w (Some req) = Inr (take (unat limit) (drop (unat offset) rs),
    \<lparr>NextKey = (if unat offset + unat limit < length rs then [char_of (1::nat)] else []),
     page_Total = of_nat (length rs)\<rparr>)"
  using assms paginate_page [OF assms(7-10)] by (simp add: Locks_def)

theorem Locks_page_witness:
  "\<exists>page. Locks ref_sdk jan rw2 (Some \<lparr>ql_Address = ''alice'', ql_Pagination = None\<rparr>) =
     Inr ([\<lparr>lr_UnlockDate = ''2025-06-30'', lr_Amount = aTSC 150\<rparr>,
           \<lparr>lr_UnlockDate = ''2025-09-01'', lr_Amount = aTSC 50\<rparr>], page)"
proof -
  let ?ls = "[\<lparr>UnlockDate = ''2025-06-30'', Amount = 150\<rparr>, \<lparr>UnlockDate = ''2025-09-01'', Amount = 50\<rparr>]"
  have "GetLocksByAddress ref_sdk rw2 ''alice'' = Inr ?ls" by code_simp
  moreover have "active_resources ref_sdk jan ''aTSC'' ?ls =
      Inr [\<lparr>lr_UnlockDate = ''2025-06-30'', lr_Amount = aTSC 150\<rparr>,
           \<lparr>lr_UnlockDate = ''2025-09-01'', lr_Amount = aTSC 50\<rparr>]" by code_simp
  ultimately show ?thesis
    using Locks_page [OF refl, of "''alice''" ref_sdk "''alice''" rw2 _ "''aTSC''" jan _ None 0 100]
    by (simp add: page_of_def ref_sdk_def ref_bech32_def ref_denom_def)
qed

text \<open>
  C22. With an offset beyond the number of active locks the \<open>Locks\<close> query panics with a slice index
  out of range instead of returning an empty page.
\<close>

theorem Locks_offset_panics:
  assumes "req = \<lparr>ql_Address = s, ql_Pagination = p\<rparr>" and "s \<noteq> []" and "AccAddressFromBech32 K s = Inr a"
    and "GetLocksByAddress K w a = Inr ls" and "BondDenom K w = Inr d"
    and "active_resources K ctx d ls = Inr rs" and "page_of p = (offset, limit)"
    and "length rs < 2 ^ 63" and "length rs < unat offset"
  shows "\<exists>e. Locks K ctx w (Some req) = Inl (GoPanic e)"
  using assms paginate_beyond [OF assms(7-9)] by (simp add: Locks_def)

theorem Locks_offset_panics_witness:
  "\<exists>e. Locks ref_sdk jan rw0 (Some \<lparr>ql_Address = ''alice'',
     ql_Pagination = Some \<lparr>page_Key = [], page_Offset = 1, page_Limit = 10, page_CountTotal = False, page_Reverse = False\<rparr>\<rparr>) = Inl (GoPanic e)"
proof -
  have "GetLocksByAddress ref_sdk rw0 ''alice'' = Inr []" by code_simp
  moreover have "active_resources ref_sdk jan ''aTSC'' [] = Inr []" by (simp add: active_resources_def)
  ultimately show ?thesis
    by (intro Locks_offset_panics [OF refl, where a = "''alice''" and d = "''aTSC''"])
      (auto simp: page_of_def ref_sdk_def ref_bech32_def ref_denom_def)
qed

text \<open>
  C23. Paging through the active locks loses and repeats nothing: a page that ends with a next key,
  followed by a page that starts at that key and has no next key, gives together what one page
  over everything gives.
\<close>

theorem ActiveLocks_pages:
  assumes "lockup_env K view"
    and "ActiveLocks K ctx w (Some \<lparr>al_Pagination = Some p1\<rparr>) = Inr (l1, nk)" and "nk \<noteq> []"
    and "ActiveLocks K ctx w (Some \<lparr>al_Pagination = Some p2\<rparr>) = Inr (l2, [])" and "page_Key p2 = nk"
    and "ActiveLocks K ctx w (Some \<lparr>al_Pagination = Some p3\<rparr>) = Inr (l3, [])"
    and "page_Key p3 = page_Key p1"
  shows "l3 = l1 @ l2"
proof -
  let ?f = "active_entry K ctx w" and ?e = "prefixEndBytes LocksByDateKey"
  let ?s = "if page_Key p1 \<noteq> [] then page_Key p1 else LocksByDateKey"
  have kv: "kv_store K view" using assms(1) by (rule lockup_env.axioms(1))
  have ne: "LocksByDateKey \<noteq> []" by (simp add: LocksByDateKey_def)
  from assms(2) obtain kvs c where kvs: "kvIterator K w ?s ?e = Inr kvs"
    and "active_loop K ctx w c 0 [] kvs = Inr (l1, nk)"
    by (auto simp: ActiveLocks_def Let_def split: if_splits)
  from active_loop_prefix [OF this(2)] obtain n where n: "n < length kvs" "nk = fst (kvs ! n)"
    and 1: "foldM ?f [] (take n kvs) = Inr l1"
    using assms(3) by (auto split: if_splits)
  from assms(4,5) n obtain kvs' c' where kvs': "kvIterator K w (fst (kvs ! n)) ?e = Inr kvs'"
    and l2: "active_loop K ctx w c' 0 [] kvs' = Inr (l2, [])"
    using assms(3) by (auto simp: ActiveLocks_def Let_def split: if_splits)
  have suffix: "kvs' = drop n kvs" by (rule kv_store.iterator_suffix [OF kv kvs n(1) kvs'])
  have nonempty: "fst (kvs ! i) \<noteq> []" if "i < length kvs" for i
    using kv_store.iterator_entries [OF kv kvs, of "fst (kvs ! i)" "snd (kvs ! i)"] that ne
    by (auto simp: key_in_range_def split: if_splits)
  have 2: "foldM ?f [] (drop n kvs) = Inr l2"
    using active_loop_all [OF l2] nonempty n(1) by (simp add: suffix)
  from assms(6,7) kvs obtain c3 where "active_loop K ctx w c3 0 [] kvs = Inr (l3, [])"
    by (auto simp: ActiveLocks_def Let_def split: if_splits)
  then have "foldM ?f [] (take n kvs @ drop n kvs) = Inr l3"
    unfolding append_take_drop_id by (rule active_loop_all) (rule nonempty)
  then show ?thesis
    using 1 2 active_fold_acc [of K ctx w l1 "[]" "drop n kvs"] unfolding foldM_append by simp
qed

theorem ActiveLocks_pages_witness:
  "\<exists>l1 nk l2. ActiveLocks ref_sdk jan rw2 (Some \<lparr>al_Pagination = Some \<lparr>page_Key = [], page_Offset = 0, page_Limit = 1, page_CountTotal = False, page_Reverse = False\<rparr>\<rparr>) =
       Inr (l1, nk) \<and> nk \<noteq> [] \<and>
     ActiveLocks ref_sdk jan rw2 (Some \<lparr>al_Pagination = Some \<lparr>page_Key = nk, page_Offset = 0, page_Limit = 0, page_CountTotal = False, page_Reverse = False\<rparr>\<rparr>) =
       Inr (l2, []) \<and>
     ActiveLocks ref_sdk jan rw2 (Some \<lparr>al_Pagination = Some \<lparr>page_Key = [], page_Offset = 0, page_Limit = 0, page_CountTotal = False, page_Reverse = False\<rparr>\<rparr>) =
       Inr (l1 @ l2, [])"
proof -
  let ?q = "\<lambda>k n. ActiveLocks ref_sdk jan rw2 (Some \<lparr>al_Pagination = Some \<lparr>page_Key = k, page_Offset = 0, page_Limit = n, page_CountTotal = False, page_Reverse = False\<rparr>\<rparr>)"
  let ?k = "GetLockExpirationKey (midnight 20332) ''alice''"
  let ?r = "\<lambda>d x. \<lparr>ar_Address = ''alice'', ar_UnlockDate = d, ar_Amount = aTSC x\<rparr>"
  have 1: "?q [] 1 = Inr ([?r ''2025-06-30'' 150], ?k)" by code_simp
  have 2: "?q ?k 0 = Inr ([?r ''2025-09-01'' 50], [])" by code_simp
  have ne: "?k \<noteq> []" by (simp add: GetLockExpirationKey_def LocksByDateKey_def)
  have "\<exists>l. ?q [] 0 = Inr (l, [])" by (rule exI [of _ "[?r ''2025-06-30'' 150, ?r ''2025-09-01'' 50]"]) code_simp
  then obtain l where 3: "?q [] 0 = Inr (l, [])" ..
  from ActiveLocks_pages [OF ref_env 1 ne 2 _ 3] have "l = [?r ''2025-06-30'' 150] @ [?r ''2025-09-01'' 50]"
    by simp
  with 1 2 3 ne show ?thesis by blast
qed

end
