(* ===== verification/Distro.thy ===== *)
theory Distro
  imports Sdk
begin

text \<open>
  The distribution module: its parameters (\<open>x/distro/types/params.go\<close>, \<open>msgs.go\<close>, \<open>msg_mint.go\<close>,
  \<open>genesis.go\<close>), its keeper (\<open>x/distro/keeper/keeper.go\<close>, \<open>msg_server.go\<close>, \<open>query_server.go\<close>) and
  minting with the halving schedule (\<open>msg_server_mint.go\<close>). The bank and account keepers, the
  parameter item of the store and the integer parser are fields of the record \<open>distro_env\<close>. Period
  numbers and month counts are 64-bit words, as the shift and the products of the code depend on
  their width; dates are exact for the years a Go time can hold. Every date of the schedule is a
  midnight, for which the floating-point hours of the code are exact.
\<close>

section \<open>Parameters\<close>

record Params =
  MintingAddress :: string
  ReceivingAddress :: string
  p_Denom :: string
  MaxSupply :: string
  DistributionStartDate :: string
  MonthsInHalvingPeriod :: "64 word"

record 'w distro_env =
  ParamsGet :: "'w \<Rightarrow> Params res"
  ParamsSet :: "'w \<Rightarrow> Params \<Rightarrow> 'w res"
  AddrFromBech32 :: "string \<Rightarrow> addr res"
  AddrString :: "addr \<Rightarrow> string"
  NewIntFromString :: "string \<Rightarrow> int option"
  mkCoin :: "string \<Rightarrow> int \<Rightarrow> coin res"
  mkCoins :: "coin \<Rightarrow> coin list res"
  GetSupply :: "'w \<Rightarrow> string \<Rightarrow> int"
  GetModuleAddress :: "string \<Rightarrow> addr option"
  MintCoins :: "'w \<Rightarrow> string \<Rightarrow> coin list \<Rightarrow> 'w res"
  SendCoinsFromModuleToAccount :: "'w \<Rightarrow> string \<Rightarrow> addr \<Rightarrow> coin list \<Rightarrow> 'w res"

definition DefaultMintingAddress :: string where
  "DefaultMintingAddress = ''tsc1cd3de90g8ktz20qtyc945chwg8pg8xn9trwpz4''"

definition DefaultReceivingAddress :: string where
  "DefaultReceivingAddress = ''tsc1grl8wuaj0yg6wvzvyxdtnnajp9em49m5fjz07v''"

definition DefaultDenom :: string where
  "DefaultDenom = ''aTSC''"

definition DefaultMaxSupply :: string where
  "DefaultMaxSupply = ''21000000000000000000000000''"

definition DefaultDistributionStartDate :: string where
  "DefaultDistributionStartDate = ''2025-07-22''"

definition DefaultMonthsInHalvingPeriod :: "64 word" where
  "DefaultMonthsInHalvingPeriod = 48"

definition NewParams :: "string \<Rightarrow> string \<Rightarrow> string \<Rightarrow> string \<Rightarrow> string \<Rightarrow> 64 word \<Rightarrow> Params" where
  "NewParams minting receiving denom max_supply start months =
     \<lparr>MintingAddress = minting, ReceivingAddress = receiving, p_Denom = denom, MaxSupply = max_supply,
      DistributionStartDate = start, MonthsInHalvingPeriod = months\<rparr>"

definition DefaultParams :: Params where
  "DefaultParams = NewParams DefaultMintingAddress DefaultReceivingAddress DefaultDenom
     DefaultMaxSupply DefaultDistributionStartDate DefaultMonthsInHalvingPeriod"

definition validateMintingAddress :: "'w distro_env \<Rightarrow> string \<Rightarrow> unit res" where
  "validateMintingAddress E v =
     bnd (require (v \<noteq> []) (FmtError ''minting address cannot be empty'')) (\<lambda>_.
     bnd (wrap_err (FmtError ''invalid minting address'') (AddrFromBech32 E v)) (\<lambda>_. Inr ()))"

definition validateReceivingAddress :: "'w distro_env \<Rightarrow> string \<Rightarrow> unit res" where
  "validateReceivingAddress E v =
     bnd (require (v \<noteq> []) (FmtError ''receiving address cannot be empty'')) (\<lambda>_.
     bnd (wrap_err (FmtError ''invalid receiving address'') (AddrFromBech32 E v)) (\<lambda>_. Inr ()))"

definition validateDenom :: "string \<Rightarrow> unit res" where
  "validateDenom v =
     bnd (require (v \<noteq> []) (FmtError ''denom cannot be empty'')) (\<lambda>_.
     require (DefaultDenom = v) (FmtError ''denom must be aTSC''))"

definition validateMaxSupply :: "'w distro_env \<Rightarrow> string \<Rightarrow> unit res" where
  "validateMaxSupply E v =
     bnd (require (v \<noteq> []) (FmtError ''max supply cannot be empty'')) (\<lambda>_.
     case NewIntFromString E v of
       None \<Rightarrow> Inl (FmtError ''max supply must be a valid integer'')
     | Some maxSupply \<Rightarrow> require (0 < maxSupply) (FmtError ''max supply must be positive''))"

definition validateDistributionStartDate :: "string \<Rightarrow> unit res" where
  "validateDistributionStartDate v =
     bnd (require (v \<noteq> []) (FmtError ''distribution start date cannot be empty'')) (\<lambda>_.
     bnd (wrap_err (FmtError ''distribution start date must be in YYYY-MM-DD format'')
            (Parse_DateOnly v)) (\<lambda>_. Inr ()))"

definition validateMonthsInHalvingPeriod :: "64 word \<Rightarrow> unit res" where
  "validateMonthsInHalvingPeriod v =
     require (v \<noteq> 0) (FmtError ''months in halving period must be greater than zero'')"

definition Params_Validate :: "'w distro_env \<Rightarrow> Params \<Rightarrow> unit res" where
  "Params_Validate E p =
     bnd (validateMintingAddress E (MintingAddress p)) (\<lambda>_.
     bnd (validateReceivingAddress E (ReceivingAddress p)) (\<lambda>_.
     bnd (validateDenom (p_Denom p)) (\<lambda>_.
     bnd (validateMaxSupply E (MaxSupply p)) (\<lambda>_.
     bnd (validateDistributionStartDate (DistributionStartDate p)) (\<lambda>_.
     validateMonthsInHalvingPeriod (MonthsInHalvingPeriod p))))))"

section \<open>Messages and keeper\<close>

record MsgMint =
  mint_Amount :: string
  Minter :: string

record MsgUpdateParams =
  Authority :: string
  up_Params :: Params

definition NewMsgMint :: "string \<Rightarrow> string \<Rightarrow> string \<Rightarrow> MsgMint" where
  "NewMsgMint fromAddress amount minter = \<lparr>mint_Amount = amount, Minter = minter\<rparr>"

text \<open>A failed address conversion leaves a nil address.\<close>

definition MsgMint_GetSigners :: "'w distro_env \<Rightarrow> MsgMint \<Rightarrow> addr list" where
  "MsgMint_GetSigners E msg =
     [case AddrFromBech32 E (Minter msg) of Inl _ \<Rightarrow> [] | Inr addr \<Rightarrow> addr]"

definition MsgMint_Validate :: "'w distro_env \<Rightarrow> MsgMint \<Rightarrow> int res" where
  "MsgMint_Validate E msg =
     (case NewIntFromString E (mint_Amount msg) of
        None \<Rightarrow> Inl (ErrInvalidRequest ''amount cannot be converted to int'')
      | Some amount \<Rightarrow>
          bnd (require (amount \<noteq> 0) (ErrInvalidRequest ''amount cannot be zero'')) (\<lambda>_.
          bnd (require (\<not> amount < 0) (ErrInvalidRequest ''amount cannot be negative'')) (\<lambda>_.
          bnd (require (Minter msg \<noteq> []) (ErrInvalidRequest ''minter cannot be empty'')) (\<lambda>_.
          bnd (wrap_err (ErrInvalidRequest ''minter is not a valid address'')
                 (AddrFromBech32 E (Minter msg))) (\<lambda>_.
          Inr amount)))))"

definition NewMsgUpdateParams ::
    "'w distro_env \<Rightarrow> addr \<Rightarrow> string \<Rightarrow> string \<Rightarrow> string \<Rightarrow> string \<Rightarrow> string \<Rightarrow> 64 word \<Rightarrow> MsgUpdateParams" where
  "NewMsgUpdateParams E sender minting receiving denom maxSupply start months =
     \<lparr>Authority = AddrString E sender,
      up_Params = \<lparr>MintingAddress = minting, ReceivingAddress = receiving, p_Denom = denom,
        MaxSupply = maxSupply, DistributionStartDate = start, MonthsInHalvingPeriod = months\<rparr>\<rparr>"

definition MsgUpdateParams_GetSigners :: "'w distro_env \<Rightarrow> MsgUpdateParams \<Rightarrow> addr list" where
  "MsgUpdateParams_GetSigners E msg =
     [case AddrFromBech32 E (Authority msg) of Inl _ \<Rightarrow> [] | Inr addr \<Rightarrow> addr]"

definition MsgUpdateParams_ValidateBasic :: "'w distro_env \<Rightarrow> MsgUpdateParams \<Rightarrow> unit res" where
  "MsgUpdateParams_ValidateBasic E msg =
     bnd (AddrFromBech32 E (Authority msg)) (\<lambda>_. Params_Validate E (up_Params msg))"

text \<open>The authority of a new keeper: the given one, or the governance module account's address.\<close>

definition keeper_authority :: "'w distro_env \<Rightarrow> addr \<Rightarrow> string \<Rightarrow> string" where
  "keeper_authority E gov_addr authority = (if authority = [] then AddrString E gov_addr else authority)"

definition UpdateParams :: "'w distro_env \<Rightarrow> string \<Rightarrow> 'w \<Rightarrow> MsgUpdateParams \<Rightarrow> 'w res" where
  "UpdateParams E authority w msg =
     bnd (require (authority = Authority msg) ErrInvalidSigner) (\<lambda>_.
     bnd (Params_Validate E (up_Params msg)) (\<lambda>_.
     ParamsSet E w (up_Params msg)))"

record distro_GenesisState =
  gs_Params :: Params

definition DefaultGenesis :: distro_GenesisState where
  "DefaultGenesis = \<lparr>gs_Params = DefaultParams\<rparr>"

definition GenesisState_Validate :: "'w distro_env \<Rightarrow> distro_GenesisState \<Rightarrow> unit res" where
  "GenesisState_Validate E gs = Params_Validate E (gs_Params gs)"

definition InitGenesis :: "'w distro_env \<Rightarrow> 'w \<Rightarrow> distro_GenesisState \<Rightarrow> 'w res" where
  "InitGenesis E w data =
     bnd (Params_Validate E (gs_Params data)) (\<lambda>_. ParamsSet E w (gs_Params data))"

definition ExportGenesis :: "'w distro_env \<Rightarrow> 'w \<Rightarrow> distro_GenesisState res" where
  "ExportGenesis E w =
     bnd (wrap_err (GoPanic ''params'') (ParamsGet E w)) (\<lambda>params. Inr \<lparr>gs_Params = params\<rparr>)"

definition Query_Params :: "'w distro_env \<Rightarrow> 'w \<Rightarrow> Params res" where
  "Query_Params E w = ParamsGet E w"

section \<open>The halving schedule\<close>

record HalvingSchedule =
  StartDate :: gotime
  MonthsPerPeriod :: "64 word"
  hs_MaxSupply :: int

definition newHalvingSchedule :: "'w distro_env \<Rightarrow> Params \<Rightarrow> HalvingSchedule res" where
  "newHalvingSchedule E params =
     bnd (wrap_err (ErrInvalidRequest ''invalid distribution start date'')
            (Parse_DateOnly (DistributionStartDate params))) (\<lambda>startDate.
     case NewIntFromString E (MaxSupply params) of
       None \<Rightarrow> Inl (ErrInvalidRequest ''invalid max supply'')
     | Some maxSupply \<Rightarrow>
         bnd (require (MonthsInHalvingPeriod params \<noteq> 0)
                (ErrInvalidRequest ''param MonthsInHalvingPeriod must be greater than zero'')) (\<lambda>_.
         Inr \<lparr>StartDate = startDate, MonthsPerPeriod = MonthsInHalvingPeriod params,
              hs_MaxSupply = maxSupply\<rparr>))"

text \<open>\<open>1 << period\<close> on \<open>uint64\<close> is 0 from 64 on.\<close>

definition PeriodAllocation :: "HalvingSchedule \<Rightarrow> 64 word \<Rightarrow> int res" where
  "PeriodAllocation h period =
     (if period = 0 then Inr 0
      else let divisor = uint (push_bit (unat period) 1 :: 64 word) in int_quo (hs_MaxSupply h) divisor)"

definition PeriodBounds :: "HalvingSchedule \<Rightarrow> 64 word \<Rightarrow> gotime \<times> gotime" where
  "PeriodBounds h period =
     (let monthsOffset = sint ((period - 1) * MonthsPerPeriod h)
      in (AddDate (StartDate h) 0 monthsOffset 0,
          AddDate (StartDate h) 0 (wrap64 (monthsOffset + sint (MonthsPerPeriod h))) (- 1)))"

function period_loop :: "HalvingSchedule \<Rightarrow> gotime \<Rightarrow> 64 word \<Rightarrow> 64 word" where
  "period_loop h targetDate period =
     (let (periodStart, periodEnd) = PeriodBounds h period
      in if \<not> targetDate < periodStart \<and> \<not> periodEnd < targetDate then period
         else if 1000 < period + 1 then period + 1
         else period_loop h targetDate (period + 1))"
  by pat_completeness auto
termination
proof (relation "measure (\<lambda>(h, t, p). 1001 - unat (p + 1))")
  fix h t and p :: "64 word" and x s e
  assume "\<not> 1000 < p + 1"
  then have "unat (p + 1) \<le> 1000" by (simp add: word_less_nat_alt not_less)
  moreover from this have "unat (p + 1 + 1) = unat (p + 1) + 1"
    by (subst unat_add_lem [THEN iffD1]) simp_all
  ultimately show "((h, t, p + 1), h, t, p) \<in> measure (\<lambda>(h, t, p). 1001 - unat (p + 1))" by simp
qed simp

declare period_loop.simps [simp del]

definition CurrentPeriod :: "HalvingSchedule \<Rightarrow> gotime \<Rightarrow> 64 word res" where
  "CurrentPeriod h targetDate =
     (if targetDate < StartDate h
      then Inl (ErrInvalidRequest ''target date is before distribution start date'')
      else Inr (period_loop h targetDate 1))"

text \<open>\<open>time.Time.Sub\<close> saturates at the limits of a 64-bit duration.\<close>

definition Sub_sat :: "gotime \<Rightarrow> gotime \<Rightarrow> int" where
  "Sub_sat a b = max (- (2 ^ 63)) (min (2 ^ 63 - 1) (a - b))"

definition daysInRange :: "gotime \<Rightarrow> gotime \<Rightarrow> int" where
  "daysInRange start end_date = trunc_div (Sub_sat end_date start) ns_per_day + 1"

definition daysSinceStart :: "gotime \<Rightarrow> gotime \<Rightarrow> int" where
  "daysSinceStart start target =
     (let days = trunc_div (Sub_sat target start) ns_per_day in if days < 0 then 0 else days)"

definition TotalDistributableAt :: "HalvingSchedule \<Rightarrow> gotime \<Rightarrow> int res" where
  "TotalDistributableAt h targetDate =
     bnd (CurrentPeriod h targetDate) (\<lambda>currentPeriod.
     bnd (foldM (\<lambda>total period. bnd (PeriodAllocation h (of_nat period)) (int_add total)) 0
            [1 ..< unat currentPeriod]) (\<lambda>total.
     let (periodStart, periodEnd) = PeriodBounds h currentPeriod;
         daysInPeriod = daysInRange periodStart periodEnd;
         daysElapsed = daysSinceStart periodStart targetDate + 1
     in if 0 < daysInPeriod then
          bnd (PeriodAllocation h currentPeriod) (\<lambda>periodAllocation.
          bnd (int_mul periodAllocation daysElapsed) (\<lambda>prod.
          bnd (int_quo prod daysInPeriod) (\<lambda>currentPeriodAmount.
          int_add total currentPeriodAmount)))
        else Inr total))"

definition validateMintingLimits ::
    "'w distro_env \<Rightarrow> sdk_ctx \<Rightarrow> int \<Rightarrow> int \<Rightarrow> Params \<Rightarrow> unit res" where
  "validateMintingLimits E ctx currentSupply amount params =
     bnd (newHalvingSchedule E params) (\<lambda>schedule.
     bnd (TotalDistributableAt schedule (Truncate_day (BlockTime ctx))) (\<lambda>totalDistributable.
     bnd (int_add currentSupply amount) (\<lambda>newSupply.
     require (\<not> totalDistributable < newSupply)
       (ErrInvalidRequest ''mint would exceed distributable limit''))))"

section \<open>Minting\<close>

definition IsAuthorized :: "Params \<Rightarrow> string \<Rightarrow> bool" where
  "IsAuthorized params mintingAddress \<longleftrightarrow> MintingAddress params = mintingAddress"

definition depositCoins :: "'w distro_env \<Rightarrow> 'w \<Rightarrow> string \<Rightarrow> int \<Rightarrow> string \<Rightarrow> 'w res" where
  "depositCoins E w toAddress amount denom =
     bnd (wrap_err ErrInvalidAddress (AddrFromBech32 E toAddress)) (\<lambda>acct.
     bnd (require (GetModuleAddress E ''distro'' \<noteq> None) (ErrInvalidRequest ''module account not found'')) (\<lambda>_.
     bnd (bnd (mkCoin E denom amount) (mkCoins E)) (\<lambda>coins.
     SendCoinsFromModuleToAccount E w ''distro'' acct coins)))"

definition Mint :: "'w distro_env \<Rightarrow> sdk_ctx \<Rightarrow> 'w \<Rightarrow> MsgMint \<Rightarrow> 'w res" where
  "Mint E ctx w msg =
     bnd (MsgMint_Validate E msg) (\<lambda>amount.
     let signers = MsgMint_GetSigners E msg
     in bnd (require (length signers \<noteq> 0) (ErrInvalidRequest ''signer is required'')) (\<lambda>_.
        bnd (ParamsGet E w) (\<lambda>params.
        bnd (require (IsAuthorized params (AddrString E (signers ! 0))) ErrUnauthorized) (\<lambda>_.
        let currentSupply = GetSupply E w (p_Denom params)
        in bnd (require (\<not> currentSupply < 0) (ErrInvalidRequest ''current supply is negative'')) (\<lambda>_.
           case NewIntFromString E (MaxSupply params) of
             None \<Rightarrow> Inl (ErrInvalidRequest ''invalid max supply'')
           | Some maxSupply \<Rightarrow>
               bnd (int_add currentSupply amount) (\<lambda>newSupply.
               bnd (require (\<not> maxSupply < newSupply) (ErrInvalidRequest ''max supply exceeded'')) (\<lambda>_.
               bnd (validateMintingLimits E ctx currentSupply amount params) (\<lambda>_.
               bnd (require (GetModuleAddress E ''distro'' \<noteq> None)
                      (ErrInvalidRequest ''module account not found'')) (\<lambda>_.
               bnd (bnd (mkCoin E (p_Denom params) amount) (mkCoins E)) (\<lambda>coins.
               bnd (MintCoins E w ''distro'' coins) (\<lambda>w.
               depositCoins E w (ReceivingAddress params) amount (p_Denom params))))))))))))"

end
