(* ===== verification/Distro_Schedule.thy ===== *)
theory Distro_Schedule
  imports Distro
begin

text \<open>
  The halving schedule of the distribution module as arithmetic on day numbers: the periods follow
  one another without gap or overlap, the search finds the period of a date, and the distributable
  total is the sum of the halvings of the completed periods and the pro-rata part of the current
  one. The lemmas hold while nothing overflows: a period of at most 3000 months (a longer one
  reaches the saturation of a Go duration), period numbers up to 1000, a supply below \<open>2^239\<close>.
\<close>

text \<open>Day number of the first day after \<open>k\<close> periods.\<close>

definition period_day :: "HalvingSchedule \<Rightarrow> nat \<Rightarrow> int" where
  "period_day h k =
     (case civil_from_days (day_number (StartDate h)) of
        (y, m, d) \<Rightarrow> date_days y (m + int (k * unat (MonthsPerPeriod h))) d)"

definition schedule_ok :: "HalvingSchedule \<Rightarrow> bool" where
  "schedule_ok h \<longleftrightarrow> (\<exists>n. StartDate h = midnight n) \<and> 1 \<le> unat (MonthsPerPeriod h) \<and>
     unat (MonthsPerPeriod h) \<le> 3000 \<and> 0 \<le> hs_MaxSupply h \<and> hs_MaxSupply h < 2 ^ 239"

lemma period_day_0: "schedule_ok h \<Longrightarrow> midnight (period_day h 0) = StartDate h"
proof -
  assume "schedule_ok h"
  then obtain n where n: "StartDate h = midnight n" by (auto simp: schedule_ok_def)
  obtain y m d where ymd: "civil_from_days n = (y, m, d)" by (cases "civil_from_days n") auto
  from civil_from_days_valid [OF ymd] show ?thesis
    by (simp add: period_day_def n ymd valid_civil_def)
qed

lemma period_day_Suc:
  "period_day h k + 28 * int (unat (MonthsPerPeriod h)) \<le> period_day h (Suc k)"
  "period_day h (Suc k) \<le> period_day h k + 31 * int (unat (MonthsPerPeriod h))"
proof -
  let ?M = "unat (MonthsPerPeriod h)"
  obtain y m d where ymd: "civil_from_days (day_number (StartDate h)) = (y, m, d)"
    by (cases "civil_from_days (day_number (StartDate h))") auto
  have e: "m + int (Suc k * ?M) = m + int (k * ?M) + int ?M" by simp
  show "period_day h k + 28 * int ?M \<le> period_day h (Suc k)"
    "period_day h (Suc k) \<le> period_day h k + 31 * int ?M"
    unfolding period_day_def ymd prod.case e
    using date_days_add_months [of y "m + int (k * ?M)" d ?M] by auto
qed

lemma period_day_strict:
  assumes "1 \<le> unat (MonthsPerPeriod h)" "j < k"
  shows "period_day h j < period_day h k"
  using assms(2)
proof (induction k)
  case 0
  then show ?case by simp
next
  case (Suc k)
  have "period_day h k < period_day h (Suc k)" using period_day_Suc(1) [of h k] assms(1) by linarith
  with Suc show ?case by (cases "j = k") auto
qed

lemma period_day_mono:
  "1 \<le> unat (MonthsPerPeriod h) \<Longrightarrow> j \<le> k \<Longrightarrow> period_day h j \<le> period_day h k"
  using period_day_strict [of h j k] by (cases "j = k") auto

lemma sint_unat: "unat (v :: 64 word) < 2 ^ 63 \<Longrightarrow> sint v = int (unat v)"
  by (simp add: sint_uint signed_take_bit_int_eq_self uint_nat del: of_nat_unat)

text \<open>The bounds of a period, without the words.\<close>

lemma PeriodBounds_days:
  assumes h: "schedule_ok h" and p: "1 \<le> unat p" "unat p \<le> 1001"
  shows "PeriodBounds h p =
    (midnight (period_day h (unat p - 1)), midnight (period_day h (unat p) - 1))"
proof -
  let ?M = "MonthsPerPeriod h"
  obtain n where n: "StartDate h = midnight n" and M: "1 \<le> unat ?M" "unat ?M \<le> 3000"
    using h by (auto simp: schedule_ok_def)
  obtain y m d where ymd: "civil_from_days n = (y, m, d)" by (cases "civil_from_days n") auto
  have p1: "unat (p - 1) = unat p - 1"
    using p by (subst unat_sub) (simp_all add: word_le_nat_alt)
  have bound: "(unat p - 1) * unat ?M \<le> 1000 * 3000" using p M by (intro mult_le_mono) auto
  have "unat ((p - 1) * ?M) = (unat p - 1) * unat ?M"
    using bound by (subst unat_mult_lem [THEN iffD1]) (simp_all add: p1)
  then have off: "sint ((p - 1) * ?M) = int ((unat p - 1) * unat ?M)"
    using bound by (subst sint_unat) simp_all
  have M': "sint ?M = int (unat ?M)" using M by (subst sint_unat) simp_all
  have "(unat p - 1) * unat ?M + unat ?M = unat p * unat ?M"
    using p by (cases "unat p") simp_all
  then have "int ((unat p - 1) * unat ?M) + int (unat ?M) = int (unat p * unat ?M)"
    by (metis of_nat_add)
  moreover have "unat p * unat ?M \<le> 1001 * 3000" using p M by (intro mult_le_mono)
  ultimately have off': "wrap64 (sint ((p - 1) * ?M) + sint ?M) = int (unat p * unat ?M)"
    unfolding off M' by (subst wrap64_id) (simp_all del: of_nat_unat of_nat_mult)
  show ?thesis
    unfolding PeriodBounds_def Let_def off' unfolding off
    by (simp add: AddDate_def n ymd go_Date_def period_day_def date_days_add_day [of _ _ _ "- 1", simplified])
qed

section \<open>The search\<close>

lemma period_loop_finds:
  assumes h: "schedule_ok h" and p: "1 \<le> unat p" "unat p \<le> 1000"
    and n: "period_day h (unat p - 1) \<le> n" "n < period_day h 1000"
  shows "unat p \<le> unat (period_loop h (midnight n) p) \<and> unat (period_loop h (midnight n) p) \<le> 1000 \<and>
    period_day h (unat (period_loop h (midnight n) p) - 1) \<le> n \<and>
    n < period_day h (unat (period_loop h (midnight n) p))"
  using p n
proof (induction "1000 - unat p" arbitrary: p rule: less_induct)
  case less
  note bounds = PeriodBounds_days [OF h less.prems(1)]
  show ?case
  proof (cases "n < period_day h (unat p)")
    case True
    then have "period_loop h (midnight n) p = p"
      using bounds less.prems by (subst period_loop.simps) simp
    with True less.prems show ?thesis by simp
  next
    case False
    have "unat p \<noteq> 1000" using False less.prems(4) by auto
    with less.prems(2) have lt: "unat p < 1000" by simp
    then have p': "unat (p + 1) = unat p + 1"
      by (subst unat_add_lem [THEN iffD1]) simp_all
    with lt have "\<not> 1000 < p + 1" by (simp add: word_less_nat_alt)
    then have step: "period_loop h (midnight n) p = period_loop h (midnight n) (p + 1)"
      using bounds less.prems False by (subst period_loop.simps) simp
    have "unat (p + 1) \<le> unat (period_loop h (midnight n) (p + 1)) \<and>
        unat (period_loop h (midnight n) (p + 1)) \<le> 1000 \<and>
        period_day h (unat (period_loop h (midnight n) (p + 1)) - 1) \<le> n \<and>
        n < period_day h (unat (period_loop h (midnight n) (p + 1)))"
      using p' lt False by (intro less.hyps) (simp_all add: less.prems(4))
    then show ?thesis unfolding step p' by simp
  qed
qed

lemma CurrentPeriod_finds:
  assumes h: "schedule_ok h" and n: "period_day h 0 \<le> n" "n < period_day h 1000"
  obtains q where "CurrentPeriod h (midnight n) = Inr q" "1 \<le> unat q" "unat q \<le> 1000"
    "period_day h (unat q - 1) \<le> n" "n < period_day h (unat q)"
proof -
  have "\<not> midnight n < StartDate h" using n(1) by (simp add: period_day_0 [OF h, symmetric])
  then have "CurrentPeriod h (midnight n) = Inr (period_loop h (midnight n) 1)"
    by (simp add: CurrentPeriod_def)
  with period_loop_finds [OF h, of 1 n] n that show thesis by auto
qed

section \<open>Allocations\<close>

lemma shift_1: "uint (push_bit n (1 :: 64 word)) = (if n < 64 then 2 ^ n else 0)"
proof -
  have "uint (push_bit n (1 :: 64 word)) = push_bit n (take_bit (64 - n) 1)"
    unfolding unsigned_push_bit_eq take_bit_push_bit by simp
  then show ?thesis by (simp add: push_bit_eq_mult)
qed

lemma PeriodAllocation_halving:
  assumes "0 \<le> hs_MaxSupply h" "1 \<le> unat p" "unat p \<le> 63"
  shows "PeriodAllocation h p = Inr (hs_MaxSupply h div 2 ^ unat p)"
proof -
  have "uint (push_bit (unat p) 1 :: 64 word) = 2 ^ unat p"
    using assms(3) unfolding shift_1 by simp
  moreover have "p \<noteq> 0" using assms(2) by auto
  ultimately show ?thesis
    using assms(1) by (simp add: PeriodAllocation_def Let_def int_quo_def trunc_div_nonneg)
qed

lemma PeriodAllocation_overflow:
  assumes "64 \<le> unat p"
  shows "PeriodAllocation h p = Inl (GoPanic ''division by zero'')"
proof -
  have "uint (push_bit (unat p) (1 :: 64 word)) = 0"
    using assms unfolding shift_1 by simp
  moreover have "p \<noteq> 0" using assms by auto
  ultimately show ?thesis by (simp add: PeriodAllocation_def int_quo_def)
qed

text \<open>The halvings together stay below the supply.\<close>

lemma halvings_bound:
  assumes "0 \<le> (x :: int)"
  shows "(\<Sum>p \<leftarrow> [1..<Suc q]. x div 2 ^ p) + x div 2 ^ q \<le> x"
proof (induction q)
  case 0
  then show ?case by simp
next
  case (Suc q)
  have "x div 2 ^ Suc q = x div (2 ^ q * 2)" by (simp add: mult.commute)
  also have "\<dots> = x div 2 ^ q div 2" by (rule zdiv_zmult2_eq) simp
  finally have "x div 2 ^ Suc q = x div 2 ^ q div 2" .
  then have "2 * (x div 2 ^ Suc q) \<le> x div 2 ^ q" by simp
  with Suc show ?case by simp
qed

section \<open>The distributable total\<close>

text \<open>Full halvings of the completed periods and the pro-rata part of the current one.\<close>

definition distributable :: "HalvingSchedule \<Rightarrow> nat \<Rightarrow> int \<Rightarrow> int" where
  "distributable h q n =
     (\<Sum>p \<leftarrow> [1..<q]. hs_MaxSupply h div 2 ^ p) +
     (hs_MaxSupply h div 2 ^ q) * (n - period_day h (q - 1) + 1)
       div (period_day h q - period_day h (q - 1))"

lemma Sub_sat_days: "\<bar>a - b\<bar> \<le> 106751 \<Longrightarrow> Sub_sat (midnight a) (midnight b) = (a - b) * ns_per_day"
  by (auto simp: Sub_sat_def midnight_def ns_per_day_def algebra_simps max_def min_def)

lemma trunc_div_days: "trunc_div (a * ns_per_day) ns_per_day = a"
  by (rule trunc_div_mult) simp

lemma alloc_fold:
  assumes "0 \<le> hs_MaxSupply h" "hs_MaxSupply h < 2 ^ 239" "q \<le> 64"
  shows "foldM (\<lambda>s p. bnd (PeriodAllocation h (of_nat p)) (int_add s)) 0 [1..<q] =
    Inr (\<Sum>p \<leftarrow> [1..<q]. hs_MaxSupply h div 2 ^ p)"
proof -
  let ?X = "hs_MaxSupply h"
  have "foldM (\<lambda>s p. bnd (PeriodAllocation h (of_nat p)) (int_add s)) 0 [1..<q] =
      foldM (\<lambda>s p. int_add s (?X div 2 ^ p)) 0 [1..<q]"
  proof (rule foldM_cong)
    fix s p assume p: "p \<in> set [1..<q]"
    then have "unat (of_nat p :: 64 word) = p" using assms(3) by (simp add: unat_of_nat)
    with p assms(1,3) show "bnd (PeriodAllocation h (of_nat p)) (int_add s) = int_add s (?X div 2 ^ p)"
      by (simp add: PeriodAllocation_halving)
  qed
  also have "\<dots> = Inr (0 + (\<Sum>p \<leftarrow> [1..<q]. ?X div 2 ^ p))"
  proof (rule foldM_int_add_fits)
    have pos: "0 \<le> ?X div 2 ^ p" for p using assms(1) by (simp add: pos_imp_zdiv_nonneg_iff)
    have "(\<Sum>p \<leftarrow> [1..<q]. ?X div 2 ^ p) \<le> ?X"
    proof (cases q)
      case (Suc r)
      then show ?thesis using halvings_bound [OF assms(1), of r] pos [of r] by simp
    qed (use assms(1) in simp)
    moreover have "0 \<le> (\<Sum>p \<leftarrow> [1..<q]. ?X div 2 ^ p)" by (rule sum_list_map_nonneg) (rule pos)
    ultimately show "int_fits (0 + (\<Sum>p \<leftarrow> [1..<q]. ?X div 2 ^ p))"
      using assms(2) by (simp add: int_fits_def)
    show "0 \<le> ?X div 2 ^ p" for p by (rule pos)
  qed simp
  finally show ?thesis by simp
qed

text \<open>The pro-rata part does not exceed the allocation of the period.\<close>

lemma pro_rata_bounds:
  assumes "0 \<le> (x::int)" "0 < e" "e \<le> d"
  shows "0 \<le> x * e div d" "x * e div d \<le> x"
proof -
  show "0 \<le> x * e div d" using assms by (simp add: pos_imp_zdiv_nonneg_iff)
  have "x * e div d \<le> x * d div d" using assms by (intro zdiv_mono1 mult_left_mono) auto
  then show "x * e div d \<le> x" using assms by simp
qed

lemma TotalDistributableAt_eq:
  assumes h: "schedule_ok h" and c: "CurrentPeriod h (midnight n) = Inr q"
    and q: "1 \<le> unat q" "unat q \<le> 63" "period_day h (unat q - 1) \<le> n" "n < period_day h (unat q)"
  shows "TotalDistributableAt h (midnight n) = Inr (distributable h (unat q) n)"
proof -
  let ?X = "hs_MaxSupply h" and ?k = "unat q - 1"
  let ?d = "period_day h (unat q) - period_day h ?k" and ?e = "n - period_day h ?k + 1"
  have X: "0 \<le> ?X" "?X < 2 ^ 239" and M: "unat (MonthsPerPeriod h) \<le> 3000"
    using h by (auto simp: schedule_ok_def)
  have k: "Suc ?k = unat q" using q by simp
  have "int (unat (MonthsPerPeriod h)) \<le> 3000" using M by linarith
  with period_day_Suc(2) [of h ?k] have d: "?d \<le> 93000" unfolding k by linarith
  have de: "0 < ?e" "?e \<le> ?d" using q by simp_all
  have days: "daysInRange (midnight (period_day h ?k)) (midnight (period_day h (unat q) - 1)) = ?d"
    "daysSinceStart (midnight (period_day h ?k)) (midnight n) + 1 = ?e"
    using d de by (simp_all add: daysInRange_def daysSinceStart_def Sub_sat_days trunc_div_days Let_def)
  let ?a = "?X div 2 ^ unat q"
  have a: "0 \<le> ?a" using X(1) by (simp add: pos_imp_zdiv_nonneg_iff)
  have aX: "?a \<le> ?X" using X(1) zdiv_mono2 [of ?X 1 "2 ^ unat q"] by simp
  have "?a * ?e \<le> ?X * 93000" using a aX de d X by (intro mult_mono) auto
  also have "\<dots> < 2 ^ 239 * 93000" using X by simp
  finally have fits: "int_fits (?a * ?e)" using a de by (simp add: int_fits_def)
  have pr: "0 \<le> ?a * ?e div ?d" "?a * ?e div ?d \<le> ?a" using pro_rata_bounds [OF a de] by auto
  have "(\<Sum>p \<leftarrow> [1..<Suc ?k]. ?X div 2 ^ p) + ?X div 2 ^ ?k \<le> ?X" by (rule halvings_bound [OF X(1)])
  then have s: "(\<Sum>p \<leftarrow> [1..<unat q]. ?X div 2 ^ p) \<le> ?X"
    using X(1) k pos_imp_zdiv_nonneg_iff [of "2 ^ ?k" ?X] by simp
  have "0 \<le> (\<Sum>p \<leftarrow> [1..<unat q]. ?X div 2 ^ p)"
    by (rule sum_list_map_nonneg) (use X in \<open>simp add: pos_imp_zdiv_nonneg_iff\<close>)
  with s pr a aX X(2) have fits2: "int_fits ((\<Sum>p \<leftarrow> [1..<unat q]. ?X div 2 ^ p) + ?a * ?e div ?d)"
    by (simp add: int_fits_def)
  show ?thesis
    using c q h X alloc_fold [OF X, of "unat q"] PeriodAllocation_halving [OF X(1) q(1,2)] days de
      fits fits2 a
    by (simp add: TotalDistributableAt_def PeriodBounds_days [OF h] int_op_defs int_quo_def
        trunc_div_nonneg distributable_def)
qed

text \<open>Every day before the end of period \<open>k\<close> lies in one of the first \<open>k\<close> periods.\<close>

lemma period_of_day:
  assumes "schedule_ok h" "period_day h 0 \<le> n" "n < period_day h k"
  obtains q where "1 \<le> q" "q \<le> k" "period_day h (q - 1) \<le> n" "n < period_day h q"
proof -
  let ?q = "LEAST q. n < period_day h q"
  have q: "n < period_day h ?q" "?q \<le> k" using assms(3) by (auto intro: LeastI Least_le)
  have "?q \<noteq> 0" using q(1) assms(2) by (metis not_less)
  then have "\<not> n < period_day h (?q - 1)" by (intro not_less_Least) simp
  with q \<open>?q \<noteq> 0\<close> that show thesis by (metis not_less One_nat_def Suc_leI gr0I)
qed

lemma TotalDistributableAt_period:
  assumes h: "schedule_ok h" and q: "1 \<le> q" "q \<le> 63" "period_day h (q - 1) \<le> n" "n < period_day h q"
  shows "TotalDistributableAt h (midnight n) = Inr (distributable h q n)"
proof -
  have M: "1 \<le> unat (MonthsPerPeriod h)" using h by (simp add: schedule_ok_def)
  have "period_day h 0 \<le> n" "n < period_day h 1000"
    using period_day_mono [OF M, of 0 "q - 1"] period_day_mono [OF M, of q 1000] q by linarith+
  then obtain r where r: "CurrentPeriod h (midnight n) = Inr r" "1 \<le> unat r"
    "period_day h (unat r - 1) \<le> n" "n < period_day h (unat r)"
    using CurrentPeriod_finds [OF h] by metis
  have "\<not> unat r < q" "\<not> q < unat r"
    using period_day_mono [OF M, of "unat r" "q - 1"] period_day_mono [OF M, of q "unat r - 1"] q r
    by linarith+
  then have "unat r = q" by simp
  with TotalDistributableAt_eq [OF h r(1,2)] r q show ?thesis by simp
qed

lemma distributable_bounds:
  assumes h: "schedule_ok h" and q: "1 \<le> q" "period_day h (q - 1) \<le> n" "n < period_day h q"
  shows "0 \<le> distributable h q n"
    and "(\<Sum>p \<leftarrow> [1..<q]. hs_MaxSupply h div 2 ^ p) \<le> distributable h q n"
    and "distributable h q n \<le> (\<Sum>p \<leftarrow> [1..<Suc q]. hs_MaxSupply h div 2 ^ p)"
    and "distributable h q n \<le> hs_MaxSupply h"
proof -
  let ?X = "hs_MaxSupply h"
  have X: "0 \<le> ?X" using h by (simp add: schedule_ok_def)
  have nn: "0 \<le> ?X div 2 ^ p" for p using X by (simp add: pos_imp_zdiv_nonneg_iff)
  have de: "0 < n - period_day h (q - 1) + 1"
    "n - period_day h (q - 1) + 1 \<le> period_day h q - period_day h (q - 1)" using q by simp_all
  note pr = pro_rata_bounds [OF nn [of q] de]
  have "0 \<le> (\<Sum>p \<leftarrow> [1..<q]. ?X div 2 ^ p)" by (rule sum_list_map_nonneg) (rule nn)
  with pr q show "0 \<le> distributable h q n" "(\<Sum>p \<leftarrow> [1..<q]. ?X div 2 ^ p) \<le> distributable h q n"
    "distributable h q n \<le> (\<Sum>p \<leftarrow> [1..<Suc q]. ?X div 2 ^ p)"
    by (simp_all add: distributable_def)
  with halvings_bound [OF X, of q] nn [of q] show "distributable h q n \<le> ?X" by linarith
qed

lemma distributable_mono:
  assumes h: "schedule_ok h" and q: "1 \<le> q" "period_day h (q - 1) \<le> n" "n < period_day h q"
    and q': "1 \<le> q'" "period_day h (q' - 1) \<le> n'" "n' < period_day h q'" and le: "n \<le> n'"
  shows "distributable h q n \<le> distributable h q' n'"
proof -
  let ?X = "hs_MaxSupply h"
  have M: "1 \<le> unat (MonthsPerPeriod h)" and X: "0 \<le> ?X" using h by (auto simp: schedule_ok_def)
  have nn: "0 \<le> ?X div 2 ^ p" for p using X by (simp add: pos_imp_zdiv_nonneg_iff)
  have "q \<le> q'"
  proof (rule ccontr)
    assume "\<not> q \<le> q'"
    then have "period_day h q' \<le> period_day h (q - 1)" by (intro period_day_mono [OF M]) simp
    with q q' le show False by simp
  qed
  then consider "q = q'" | "q < q'" by linarith
  then show ?thesis
  proof cases
    case 1
    have "(?X div 2 ^ q) * (n - period_day h (q - 1) + 1) div (period_day h q - period_day h (q - 1))
        \<le> (?X div 2 ^ q) * (n' - period_day h (q - 1) + 1) div (period_day h q - period_day h (q - 1))"
      using nn [of q] le q by (intro zdiv_mono1 mult_left_mono) auto
    with 1 show ?thesis by (simp add: distributable_def)
  next
    case 2
    then have "[1..<q'] = [1..<Suc q] @ [Suc q..<q']"
      using upt_add_eq_append [of 1 "Suc q" "q' - Suc q"] by simp
    then have "(\<Sum>p \<leftarrow> [1..<Suc q]. ?X div 2 ^ p) \<le> (\<Sum>p \<leftarrow> [1..<q']. ?X div 2 ^ p)"
      using sum_list_map_nonneg [of "[Suc q..<q']" "\<lambda>p. ?X div 2 ^ p"] nn by simp
    with distributable_bounds(3) [OF h q] distributable_bounds(2) [OF h q'] show ?thesis by linarith
  qed
qed

section \<open>Past the 63rd period\<close>

text \<open>The search returns the period it starts from or a later one, at most 1001.\<close>

lemma period_loop_ge:
  "1 \<le> unat p \<Longrightarrow> unat p \<le> 1000 \<Longrightarrow>
   unat p \<le> unat (period_loop h t p) \<and> unat (period_loop h t p) \<le> 1001"
proof (induction h t p rule: period_loop.induct)
  case (1 h t p)
  obtain s e where b: "PeriodBounds h p = (s, e)" by (cases "PeriodBounds h p")
  have p': "unat (p + 1) = unat p + 1"
    using "1.prems" by (subst unat_add_lem [THEN iffD1]) simp_all
  show ?case
  proof (cases "\<not> t < s \<and> \<not> e < t \<or> 1000 < p + 1")
    case True
    then show ?thesis using "1.prems" b p' by (subst (1 2) period_loop.simps) auto
  next
    case False
    then have *: "period_loop h t p = period_loop h t (p + 1)"
      by (subst period_loop.simps) (auto simp: b)
    have "unat (p + 1) \<le> unat (period_loop h t (p + 1)) \<and> unat (period_loop h t (p + 1)) \<le> 1001"
      using False "1.prems" b p' by (intro "1.IH" [OF b [symmetric] refl]) (auto simp: word_less_nat_alt)
    with p' show ?thesis by (simp add: *)
  qed
qed

text \<open>From the day a period starts on, it is that period or a later one.\<close>

lemma period_loop_reaches:
  assumes h: "schedule_ok h" and k: "k \<le> 1000" "period_day h (k - 1) \<le> n"
    and p: "1 \<le> unat p" "unat p \<le> k"
  shows "k \<le> unat (period_loop h (midnight n) p)"
  using p
proof (induction "k - unat p" arbitrary: p)
  case 0
  then show ?case using k(1) period_loop_ge [of p h "midnight n"] by simp
next
  case (Suc d)
  have M: "1 \<le> unat (MonthsPerPeriod h)" using h by (simp add: schedule_ok_def)
  have lt: "unat p < k" using Suc.hyps(2) by simp
  then have p': "unat (p + 1) = unat p + 1"
    using k(1) by (subst unat_add_lem [THEN iffD1]) simp_all
  from lt have "unat p \<le> k - 1" by linarith
  from period_day_mono [OF M this] k(2) have "period_day h (unat p) \<le> n" by linarith
  moreover from lt k(1) p' have "\<not> 1000 < p + 1" by (simp add: word_less_nat_alt)
  ultimately have "period_loop h (midnight n) p = period_loop h (midnight n) (p + 1)"
    using PeriodBounds_days [OF h Suc.prems(1)] Suc.prems lt k(1) by (subst period_loop.simps) simp
  with Suc.hyps(1) [of "p + 1"] Suc.hyps(2) p' lt show ?case by simp
qed

text \<open>From the start of the 64th period on, the limit cannot be computed any more.\<close>

lemma TotalDistributableAt_panics:
  assumes h: "schedule_ok h" and n: "period_day h 63 \<le> n"
  shows "TotalDistributableAt h (midnight n) = Inl (GoPanic ''division by zero'')"
proof -
  let ?q = "period_loop h (midnight n) 1"
  let ?f = "\<lambda>s p. bnd (PeriodAllocation h (of_nat p)) (int_add s)"
  have M: "1 \<le> unat (MonthsPerPeriod h)" and X: "0 \<le> hs_MaxSupply h" "hs_MaxSupply h < 2 ^ 239"
    using h by (auto simp: schedule_ok_def)
  have "period_day h 0 \<le> n" using period_day_mono [OF M, of 0 63] n by simp
  then have c: "CurrentPeriod h (midnight n) = Inr ?q"
    by (simp add: CurrentPeriod_def period_day_0 [OF h, symmetric])
  have q: "64 \<le> unat ?q" "unat ?q \<le> 1001"
    using period_loop_reaches [OF h, of 64 n 1] period_loop_ge [of 1 h "midnight n"] n by simp_all
  show ?thesis
  proof (cases "unat ?q = 64")
    case True
    have "period_day h 63 < period_day h 64" by (rule period_day_strict [OF M]) simp
    then have "0 < daysInRange (midnight (period_day h 63)) (midnight (period_day h 64 - 1))"
      by (simp add: daysInRange_def Sub_sat_def trunc_div_nonneg midnight_def ns_per_day_def
          pos_imp_zdiv_nonneg_iff add_pos_nonneg min_def max_def)
    with True c q show ?thesis
      using alloc_fold [OF X, of 64] PeriodBounds_days [OF h, of ?q] PeriodAllocation_overflow [of ?q h]
      by (simp add: TotalDistributableAt_def)
  next
    case False
    with q have "[1..<unat ?q] = [1..<64] @ 64 # [65..<unat ?q]"
      using upt_add_eq_append [of 1 64 "unat ?q - 64"] by (simp add: upt_conv_Cons)
    then have "foldM ?f 0 [1..<unat ?q] = Inl (GoPanic ''division by zero'')"
      using alloc_fold [OF X, of 64] PeriodAllocation_overflow [of 64 h]
      by (simp add: foldM_append del: upt_Suc)
    with c show ?thesis by (simp add: TotalDistributableAt_def)
  qed
qed

end
