(* ===== verification/Distro_Mint.thy ===== *)
theory Distro_Mint
  imports Distro_Schedule
begin

text \<open>
  Minting against its environment. The locale \<open>distro_bank\<close> states what the distribution module
  relies on: the parameter item returns what was stored, the bank's supply and balances change by
  exactly the coins that are minted or sent, and neither touches the other's state. Inside it, the
  effect of a successful \<open>Mint\<close>, and that every reachable state has validated parameters.
\<close>

lemma MsgMint_Validate_Inr:
  "MsgMint_Validate E msg = Inr amount \<longleftrightarrow>
     NewIntFromString E (mint_Amount msg) = Some amount \<and> 0 < amount \<and> Minter msg \<noteq> [] \<and>
     (\<exists>a. AddrFromBech32 E (Minter msg) = Inr a)"
  by (auto simp: MsgMint_Validate_def res_iffs split: option.splits)

text \<open>What a successful \<open>Mint\<close> passed through.\<close>

lemma Mint_InrE:
  assumes "Mint E ctx w msg = Inr w'"
  obtains amount minter params maxSupply schedule limit coins w1 where
    "NewIntFromString E (mint_Amount msg) = Some amount" "0 < amount"
    "AddrFromBech32 E (Minter msg) = Inr minter" "ParamsGet E w = Inr params"
    "MintingAddress params = AddrString E minter"
    "NewIntFromString E (MaxSupply params) = Some maxSupply"
    "0 \<le> GetSupply E w (p_Denom params)" "GetSupply E w (p_Denom params) + amount \<le> maxSupply"
    "newHalvingSchedule E params = Inr schedule"
    "TotalDistributableAt schedule (Truncate_day (BlockTime ctx)) = Inr limit"
    "GetSupply E w (p_Denom params) + amount \<le> limit"
    "bnd (mkCoin E (p_Denom params) amount) (mkCoins E) = Inr coins"
    "MintCoins E w ''distro'' coins = Inr w1"
    "depositCoins E w1 (ReceivingAddress params) amount (p_Denom params) = Inr w'"
  using assms unfolding Mint_def validateMintingLimits_def Let_def
  by (elim bnd_InrE) (auto simp: MsgMint_Validate_Inr MsgMint_GetSigners_def IsAuthorized_def int_op_defs
      split: option.splits if_splits)

lemma newHalvingSchedule_Inr:
  "newHalvingSchedule E params = Inr h \<longleftrightarrow>
     Parse_DateOnly (DistributionStartDate params) = Inr (StartDate h) \<and>
     NewIntFromString E (MaxSupply params) = Some (hs_MaxSupply h) \<and>
     MonthsPerPeriod h = MonthsInHalvingPeriod params \<and> MonthsInHalvingPeriod params \<noteq> 0"
  by (cases h) (auto simp: newHalvingSchedule_def res_iffs split: option.splits)

lemma Params_Validate_Inr:
  "Params_Validate E p = Inr () \<longleftrightarrow>
     MintingAddress p \<noteq> [] \<and> (\<exists>a. AddrFromBech32 E (MintingAddress p) = Inr a) \<and>
     ReceivingAddress p \<noteq> [] \<and> (\<exists>a. AddrFromBech32 E (ReceivingAddress p) = Inr a) \<and>
     p_Denom p = DefaultDenom \<and> MaxSupply p \<noteq> [] \<and>
     (\<exists>x. NewIntFromString E (MaxSupply p) = Some x \<and> 0 < x) \<and>
     (\<exists>t. Parse_DateOnly (DistributionStartDate p) = Inr t) \<and> MonthsInHalvingPeriod p \<noteq> 0"
proof -
  have e: "DefaultDenom \<noteq> []" by (simp add: DefaultDenom_def)
  have d: "Parse_DateOnly [] \<noteq> Inr t" for t by (simp add: Parse_DateOnly_def)
  show ?thesis
    using d by (auto simp: Params_Validate_def validateMintingAddress_def validateReceivingAddress_def
        validateDenom_def validateMaxSupply_def validateDistributionStartDate_def
        validateMonthsInHalvingPeriod_def res_iffs e e [symmetric] split: option.splits)
qed

section \<open>The environment\<close>

locale distro_bank =
  fixes E :: "'w distro_env" and stored :: "'w \<Rightarrow> Params option"
    and bal :: "'w \<Rightarrow> addr \<Rightarrow> string \<Rightarrow> int"
  assumes params_get: "ParamsGet E w = Inr p \<Longrightarrow> stored w = Some p"
    and params_set: "ParamsSet E w p = Inr w' \<Longrightarrow>
      stored w' = Some p \<and> GetSupply E w' = GetSupply E w \<and> bal w' = bal w"
    and mk_coin: "mkCoin E d x = Inr c \<Longrightarrow> c = \<lparr>Denom = d, CoinAmount = x\<rparr>"
    and mk_coins: "mkCoins E c = Inr cs \<Longrightarrow> 0 < CoinAmount c \<Longrightarrow> cs = [c]"
    and mint_stored: "MintCoins E w m cs = Inr w' \<Longrightarrow> stored w' = stored w"
    and mint_supply: "MintCoins E w m [c] = Inr w' \<Longrightarrow>
      GetSupply E w' d = GetSupply E w d + (if d = Denom c then CoinAmount c else 0)"
    and mint_bal: "MintCoins E w m [c] = Inr w' \<Longrightarrow> GetModuleAddress E m = Some a \<Longrightarrow>
      bal w' b d = bal w b d + (if b = a \<and> d = Denom c then CoinAmount c else 0)"
    and send_stored: "SendCoinsFromModuleToAccount E w m r cs = Inr w' \<Longrightarrow> stored w' = stored w"
    and send_supply: "SendCoinsFromModuleToAccount E w m r cs = Inr w' \<Longrightarrow>
      GetSupply E w' = GetSupply E w"
    and send_bal: "SendCoinsFromModuleToAccount E w m r [c] = Inr w' \<Longrightarrow>
      GetModuleAddress E m = Some a \<Longrightarrow>
      bal w' b d = bal w b d + (if b = r \<and> d = Denom c then CoinAmount c else 0)
        - (if b = a \<and> d = Denom c then CoinAmount c else 0)"
begin

lemma one_coin:
  assumes "bnd (mkCoin E d x) (mkCoins E) = Inr cs" "0 < x"
  shows "cs = [\<lparr>Denom = d, CoinAmount = x\<rparr>]"
  using assms mk_coin mk_coins by fastforce

lemma deposit_effect:
  assumes "depositCoins E w r x d = Inr w'" "0 < x"
  obtains a m where "AddrFromBech32 E r = Inr a" "GetModuleAddress E ''distro'' = Some m"
    "stored w' = stored w" "GetSupply E w' = GetSupply E w"
    "\<And>b e. bal w' b e = bal w b e + (if b = a \<and> e = d then x else 0) - (if b = m \<and> e = d then x else 0)"
proof -
  from assms(1) obtain a cs m where *: "AddrFromBech32 E r = Inr a" "GetModuleAddress E ''distro'' = Some m"
    "bnd (mkCoin E d x) (mkCoins E) = Inr cs" "SendCoinsFromModuleToAccount E w ''distro'' a cs = Inr w'"
    unfolding depositCoins_def by (elim bnd_InrE wrap_err_InrE require_InrE) auto
  note cs = one_coin [OF *(3) assms(2)]
  from * that show thesis
    using send_stored [OF *(4)] send_supply [OF *(4)] send_bal [OF *(4) [unfolded cs] *(2)] by simp
qed

text \<open>
  A successful mint raises the supply of the denom and the receiver's balance by the amount and
  changes nothing else; the module account is only passed through.
\<close>

lemma Mint_effect:
  assumes m: "Mint E ctx w msg = Inr w'"
  obtains params amount r where "stored w = Some params"
    "NewIntFromString E (mint_Amount msg) = Some amount" "0 < amount"
    "AddrFromBech32 E (ReceivingAddress params) = Inr r" "stored w' = stored w"
    "\<And>d. GetSupply E w' d = GetSupply E w d + (if d = p_Denom params then amount else 0)"
    "\<And>b d. bal w' b d = bal w b d + (if b = r \<and> d = p_Denom params then amount else 0)"
  using m
proof (rule Mint_InrE)
  fix amount minter params maxSupply schedule limit coins w1
  assume a: "NewIntFromString E (mint_Amount msg) = Some amount" "0 < amount"
    and p: "ParamsGet E w = Inr params"
    and c: "bnd (mkCoin E (p_Denom params) amount) (mkCoins E) = Inr coins"
    and w1: "MintCoins E w ''distro'' coins = Inr w1"
    and dep: "depositCoins E w1 (ReceivingAddress params) amount (p_Denom params) = Inr w'"
  note cs = one_coin [OF c a(2)]
  obtain r m where r: "AddrFromBech32 E (ReceivingAddress params) = Inr r"
    and m: "GetModuleAddress E ''distro'' = Some m"
    and w': "stored w' = stored w1" "GetSupply E w' = GetSupply E w1"
    and b: "\<And>b e. bal w' b e = bal w1 b e + (if b = r \<and> e = p_Denom params then amount else 0)
      - (if b = m \<and> e = p_Denom params then amount else 0)"
    using deposit_effect [OF dep a(2)] by metis
  have "stored w' = stored w" using w' mint_stored [OF w1] by simp
  moreover have "GetSupply E w' d = GetSupply E w d + (if d = p_Denom params then amount else 0)" for d
    using w' mint_supply [OF w1 [unfolded cs]] by simp
  moreover have "bal w' b d = bal w b d + (if b = r \<and> d = p_Denom params then amount else 0)" for b d
    using b mint_bal [OF w1 [unfolded cs] m] by simp
  ultimately show thesis using that params_get [OF p] a r by blast
qed

lemma InitGenesis_stored:
  "InitGenesis E w data = Inr w' \<Longrightarrow>
     stored w' = Some (gs_Params data) \<and> Params_Validate E (gs_Params data) = Inr ()"
  using params_set by (auto simp: InitGenesis_def)

lemma UpdateParams_stored:
  "UpdateParams E authority w msg = Inr w' \<Longrightarrow>
     stored w' = Some (up_Params msg) \<and> Params_Validate E (up_Params msg) = Inr () \<and>
     Authority msg = authority \<and> GetSupply E w' = GetSupply E w \<and> bal w' = bal w"
  using params_set by (auto simp: UpdateParams_def)

end

section \<open>The states of the module\<close>

text \<open>
  The states after genesis: the module's two messages, and any step of another module, which holds
  no key to this module's store.
\<close>

inductive distro_reachable ::
    "'w distro_env \<Rightarrow> ('w \<Rightarrow> Params option) \<Rightarrow> string \<Rightarrow> 'w \<Rightarrow> bool"
  for E stored authority where
  genesis: "InitGenesis E w data = Inr w' \<Longrightarrow> distro_reachable E stored authority w'"
| mint: "distro_reachable E stored authority w \<Longrightarrow> Mint E ctx w msg = Inr w' \<Longrightarrow>
    distro_reachable E stored authority w'"
| update: "distro_reachable E stored authority w \<Longrightarrow> UpdateParams E authority w up = Inr w' \<Longrightarrow>
    distro_reachable E stored authority w'"
| other: "distro_reachable E stored authority w \<Longrightarrow> stored w' = stored w \<Longrightarrow>
    distro_reachable E stored authority w'"

context distro_bank
begin

lemma reachable_valid:
  "distro_reachable E stored authority w \<Longrightarrow> \<exists>p. stored w = Some p \<and> Params_Validate E p = Inr ()"
proof (induction rule: distro_reachable.induct)
  case (genesis w data w')
  then show ?case using InitGenesis_stored by blast
next
  case (mint w ctx msg w')
  then show ?case by (metis Mint_effect)
next
  case (update w up w')
  then show ?case using UpdateParams_stored by blast
next
  case (other w w')
  then show ?case by simp
qed

end

end
