(* ===== verification/Ref_Distro.thy ===== *)
theory Ref_Distro
  imports Distro_Mint Ref_World
begin

text \<open>
  A concrete environment of the distribution module: a parameter item, supplies and balances as
  association lists, a module account named after the module. It satisfies \<open>distro_bank\<close>, and one
  mint on it is evaluated.
\<close>

record dworld =
  dw_params :: "Params option"
  dw_supply :: "(string \<times> int) list"
  dw_bal :: "((addr \<times> string) \<times> int) list"

definition dw_add :: "addr \<Rightarrow> string \<Rightarrow> int \<Rightarrow> dworld \<Rightarrow> dworld" where
  "dw_add a d x w = w\<lparr>dw_bal := alist_put (a, d) (alist_or 0 (dw_bal w) (a, d) + x) (dw_bal w)\<rparr>"

definition dw_mint :: "string \<Rightarrow> dworld \<Rightarrow> coin \<Rightarrow> dworld res" where
  "dw_mint m w c = Inr (dw_add m (Denom c) (CoinAmount c)
     (w\<lparr>dw_supply := alist_put (Denom c) (alist_or 0 (dw_supply w) (Denom c) + CoinAmount c) (dw_supply w)\<rparr>))"

definition dw_send :: "string \<Rightarrow> addr \<Rightarrow> dworld \<Rightarrow> coin \<Rightarrow> dworld res" where
  "dw_send m r w c =
     (if alist_or 0 (dw_bal w) (m, Denom c) < CoinAmount c then Inl ErrInsufficientFunds
      else Inr (dw_add r (Denom c) (CoinAmount c) (dw_add m (Denom c) (- CoinAmount c) w)))"

definition ref_distro :: "dworld distro_env" where
  "ref_distro = \<lparr>
     ParamsGet = (\<lambda>w. case dw_params w of None \<Rightarrow> Inl ErrNotFound | Some p \<Rightarrow> Inr p),
     ParamsSet = (\<lambda>w p. Inr (w\<lparr>dw_params := Some p\<rparr>)),
     AddrFromBech32 = ref_bech32,
     AddrString = (\<lambda>a. a),
     NewIntFromString = (\<lambda>s. case ref_IntUnmarshal s of Inl _ \<Rightarrow> None | Inr x \<Rightarrow> Some x),
     mkCoin = ref_NewCoin,
     mkCoins = ref_NewCoins,
     GetSupply = (\<lambda>w d. alist_or 0 (dw_supply w) d),
     GetModuleAddress = Some,
     MintCoins = (\<lambda>w m cs. foldM (dw_mint m) w cs),
     SendCoinsFromModuleToAccount = (\<lambda>w m r cs. foldM (dw_send m r) w cs)\<rparr>"

abbreviation dw_balance :: "dworld \<Rightarrow> addr \<Rightarrow> string \<Rightarrow> int" where
  "dw_balance w a d \<equiv> alist_or 0 (dw_bal w) (a, d)"

lemma alist_or_put: "alist_or z (alist_put k v xs) l = (if l = k then v else alist_or z xs l)"
  by (simp add: alist_or_def map_of_alist_put)

lemma dw_mint_keeps: "foldM (dw_mint m) w cs = Inr w' \<Longrightarrow> dw_params w' = dw_params w"
  by (rule foldM_invariant [where P = "\<lambda>t. dw_params t = dw_params w"]) (auto simp: dw_mint_def dw_add_def)

lemma dw_send_keeps:
  "foldM (dw_send m r) w cs = Inr w' \<Longrightarrow> dw_params w' = dw_params w \<and> dw_supply w' = dw_supply w"
  by (rule foldM_invariant [where P = "\<lambda>t. dw_params t = dw_params w \<and> dw_supply t = dw_supply w"])
    (auto simp: dw_send_def dw_add_def split: if_splits)

interpretation dist: distro_bank ref_distro dw_params dw_balance
  by unfold_locales
    (auto simp: ref_distro_def ref_NewCoin_def ref_NewCoins_def alist_or_put dw_mint_def dw_send_def
      dw_add_def split: option.splits if_splits dest: dw_mint_keeps dw_send_keeps)

lemma ref_bank: "distro_bank ref_distro dw_params dw_balance"
  by (rule dist.distro_bank_axioms)

section \<open>A run\<close>

text \<open>The default schedule: 21 million tokens, from 22 July 2025, halving every four years.\<close>

definition tsc_schedule :: HalvingSchedule where
  "tsc_schedule = \<lparr>StartDate = midnight 20291, MonthsPerPeriod = 48,
     hs_MaxSupply = 21000000000000000000000000\<rparr>"

lemma tsc_schedule_ok: "schedule_ok tsc_schedule"
  by (auto simp: schedule_ok_def tsc_schedule_def)

definition dw0 :: dworld where
  "dw0 = \<lparr>dw_params = Some DefaultParams, dw_supply = [], dw_bal = []\<rparr>"

definition mint_1000 :: MsgMint where
  "mint_1000 = \<lparr>mint_Amount = ''1000'', Minter = DefaultMintingAddress\<rparr>"

definition aug_ctx :: sdk_ctx where
  "aug_ctx = \<lparr>BlockTime = midnight 20300 + 5, BlockHeight = 1, redelegatingSet = {}\<rparr>"

definition dw1 :: dworld where
  "dw1 = \<lparr>dw_params = Some DefaultParams, dw_supply = [(''aTSC'', 1000)],
     dw_bal = [((DefaultReceivingAddress, ''aTSC''), 1000), ((''distro'', ''aTSC''), 0)]\<rparr>"

lemma ref_default_schedule: "newHalvingSchedule ref_distro DefaultParams = Inr tsc_schedule"
  by code_simp

lemma ref_distributable:
  "TotalDistributableAt tsc_schedule (midnight 20300) = Inr 71868583162217659137577"
  by code_simp

lemma ref_limits: "validateMintingLimits ref_distro aug_ctx 0 1000 DefaultParams = Inr ()"
proof -
  have "Truncate_day (BlockTime aug_ctx) = midnight 20300" by code_simp
  with ref_distributable show ?thesis
    by (simp add: validateMintingLimits_def ref_default_schedule int_op_defs int_fits_def)
qed

lemma ref_mint: "Mint ref_distro aug_ctx dw0 mint_1000 = Inr dw1"
proof -
  have "MsgMint_Validate ref_distro mint_1000 = Inr 1000"
    "MsgMint_GetSigners ref_distro mint_1000 = [DefaultMintingAddress]"
    "ParamsGet ref_distro dw0 = Inr DefaultParams"
    "IsAuthorized DefaultParams (AddrString ref_distro DefaultMintingAddress)"
    "GetSupply ref_distro dw0 (p_Denom DefaultParams) = 0"
    "NewIntFromString ref_distro (MaxSupply DefaultParams) = Some 21000000000000000000000000"
    "GetModuleAddress ref_distro ''distro'' \<noteq> None"
    "bnd (mkCoin ref_distro (p_Denom DefaultParams) 1000) (mkCoins ref_distro) =
       Inr [\<lparr>Denom = ''aTSC'', CoinAmount = 1000\<rparr>]"
    "bnd (MintCoins ref_distro dw0 ''distro'' [\<lparr>Denom = ''aTSC'', CoinAmount = 1000\<rparr>]) (\<lambda>w.
       depositCoins ref_distro w (ReceivingAddress DefaultParams) 1000 (p_Denom DefaultParams)) = Inr dw1"
    by code_simp+
  with ref_limits show ?thesis by (simp add: Mint_def int_op_defs int_fits_def)
qed

lemma ref_genesis:
  "InitGenesis ref_distro \<lparr>dw_params = None, dw_supply = [], dw_bal = []\<rparr> DefaultGenesis = Inr dw0"
proof -
  have "Params_Validate ref_distro DefaultParams = Inr ()" by code_simp
  then show ?thesis by (simp add: InitGenesis_def DefaultGenesis_def ref_distro_def dw0_def)
qed

end
