(* ===== verification/Distro_Props.thy ===== *)
theory Distro_Props
  imports Ref_Distro
begin

text \<open>
  The properties of the distribution module, each applied to the reference environment: what a mint
  needs and does, the parameters of every reachable state, and the halving schedule.
\<close>

section \<open>Minting\<close>

text \<open>
  C5. A successful \<open>Mint\<close> was sent by the minting address of the stored parameters with a positive
  amount; the new supply exceeds neither the maximum supply nor what the halving schedule of the
  parameters allows up to the day of the block.
\<close>

theorem Mint_within_limits:
  assumes "distro_bank E stored bal" and "Mint E ctx w msg = Inr w'"
  shows "\<exists>params minter amount maxSupply schedule limit.
    stored w = Some params \<and> AddrFromBech32 E (Minter msg) = Inr minter \<and>
    MintingAddress params = AddrString E minter \<and>
    NewIntFromString E (mint_Amount msg) = Some amount \<and> 0 < amount \<and>
    NewIntFromString E (MaxSupply params) = Some maxSupply \<and>
    GetSupply E w' (p_Denom params) \<le> maxSupply \<and>
    newHalvingSchedule E params = Inr schedule \<and>
    TotalDistributableAt schedule (midnight (day_number (BlockTime ctx))) = Inr limit \<and>
    GetSupply E w' (p_Denom params) \<le> limit"
  using assms(2)
proof (rule Mint_InrE)
  fix amount minter params maxSupply schedule limit coins w1
  assume *: "NewIntFromString E (mint_Amount msg) = Some amount" "0 < amount"
    "AddrFromBech32 E (Minter msg) = Inr minter" "ParamsGet E w = Inr params"
    "MintingAddress params = AddrString E minter"
    "NewIntFromString E (MaxSupply params) = Some maxSupply"
    "GetSupply E w (p_Denom params) + amount \<le> maxSupply"
    "newHalvingSchedule E params = Inr schedule"
    "TotalDistributableAt schedule (Truncate_day (BlockTime ctx)) = Inr limit"
    "GetSupply E w (p_Denom params) + amount \<le> limit"
  obtain p x where p: "stored w = Some p" "NewIntFromString E (mint_Amount msg) = Some x"
    "GetSupply E w' (p_Denom p) = GetSupply E w (p_Denom p) + x"
    using distro_bank.Mint_effect [OF assms] by (metis (full_types))
  have "p = params" "x = amount" using distro_bank.params_get [OF assms(1) *(4)] p *(1) by auto
  with * p show ?thesis by (auto simp: Truncate_day_eq)
qed

theorem Mint_within_limits_witness:
  "\<exists>minter. AddrFromBech32 ref_distro (Minter mint_1000) = Inr minter \<and>
     MintingAddress DefaultParams = AddrString ref_distro minter"
  using Mint_within_limits [OF ref_bank ref_mint] by (auto simp: dw0_def)

text \<open>
  C24. A successful \<open>Mint\<close> raises the supply of the parameters' denom and the balance of the
  receiving address by exactly the amount; every other supply and balance, the module account's
  included, and the parameters stay as they were.
\<close>

theorem Mint_exact:
  assumes "distro_bank E stored bal" and "Mint E ctx w msg = Inr w'"
  shows "\<exists>params amount r. stored w = Some params \<and> stored w' = Some params \<and>
    NewIntFromString E (mint_Amount msg) = Some amount \<and> 0 < amount \<and>
    AddrFromBech32 E (ReceivingAddress params) = Inr r \<and>
    (\<forall>d. GetSupply E w' d = GetSupply E w d + (if d = p_Denom params then amount else 0)) \<and>
    (\<forall>b d. bal w' b d = bal w b d + (if b = r \<and> d = p_Denom params then amount else 0))"
  using distro_bank.Mint_effect [OF assms] by metis

theorem Mint_exact_witness:
  "\<exists>amount. GetSupply ref_distro dw1 ''aTSC'' = GetSupply ref_distro dw0 ''aTSC'' + amount \<and> 0 < amount"
  using Mint_exact [OF ref_bank ref_mint]
  by (auto simp: dw0_def DefaultParams_def NewParams_def DefaultDenom_def)

text \<open>
  \<open>Mint\<close> refuses every sender but the minting address: with a well-formed message and stored
  parameters that name another address, it returns \<open>ErrUnauthorized\<close>.
\<close>

theorem Mint_unauthorized:
  assumes "MsgMint_Validate E msg = Inr amount" and "AddrFromBech32 E (Minter msg) = Inr minter"
    and "ParamsGet E w = Inr params" and "AddrString E minter \<noteq> MintingAddress params"
  shows "Mint E ctx w msg = Inl ErrUnauthorized"
  using assms by (simp add: Mint_def MsgMint_GetSigners_def IsAuthorized_def)

theorem Mint_unauthorized_witness:
  "Mint ref_distro aug_ctx dw0 \<lparr>mint_Amount = ''5'', Minter = ''mallory''\<rparr> = Inl ErrUnauthorized"
proof (rule Mint_unauthorized)
  show "MsgMint_Validate ref_distro \<lparr>mint_Amount = ''5'', Minter = ''mallory''\<rparr> = Inr 5" by code_simp
  show "AddrFromBech32 ref_distro (Minter \<lparr>mint_Amount = ''5'', Minter = ''mallory''\<rparr>) = Inr ''mallory''"
    by code_simp
  show "ParamsGet ref_distro dw0 = Inr DefaultParams" by code_simp
  show "AddrString ref_distro ''mallory'' \<noteq> MintingAddress DefaultParams" by code_simp
qed

section \<open>Parameters\<close>

text \<open>
  C25. In every state reached from a genesis the stored parameters passed validation: both addresses
  parse, the denom is \<open>aTSC\<close>, the maximum supply is a positive integer, the start date a calendar
  date and the halving period not zero; so the halving schedule of a mint can always be built.
\<close>

theorem reachable_params_valid:
  assumes "distro_bank E stored bal" and "distro_reachable E stored authority w"
  shows "\<exists>p h. stored w = Some p \<and> Params_Validate E p = Inr () \<and> p_Denom p = ''aTSC'' \<and>
    newHalvingSchedule E p = Inr h \<and> 0 < hs_MaxSupply h"
proof -
  obtain p where p: "stored w = Some p" "Params_Validate E p = Inr ()"
    using distro_bank.reachable_valid [OF assms] by blast
  then obtain x t where "NewIntFromString E (MaxSupply p) = Some x" "0 < x"
    "Parse_DateOnly (DistributionStartDate p) = Inr t"
    by (auto simp: Params_Validate_Inr)
  then have "newHalvingSchedule E p = Inr \<lparr>StartDate = t,
      MonthsPerPeriod = MonthsInHalvingPeriod p, hs_MaxSupply = x\<rparr>"
    using p by (simp add: newHalvingSchedule_def Params_Validate_Inr)
  with p \<open>0 < x\<close> show ?thesis by (auto simp: Params_Validate_Inr DefaultDenom_def)
qed

theorem reachable_params_valid_witness:
  "\<exists>h. newHalvingSchedule ref_distro DefaultParams = Inr h \<and> 0 < hs_MaxSupply h"
proof -
  have "distro_reachable ref_distro dw_params ''gov'' dw1"
    by (rule distro_reachable.mint [OF distro_reachable.genesis [OF ref_genesis] ref_mint])
  from reachable_params_valid [OF ref_bank this] show ?thesis by (auto simp: dw1_def)
qed

section \<open>The halving schedule\<close>

text \<open>
  C26. The periods tile the calendar: for a date from the start on (and before the end of period
  1000) \<open>CurrentPeriod\<close> returns a period that contains it, no other period contains it, and the
  period's end is the day before the next one's start.
\<close>

theorem CurrentPeriod_unique:
  assumes "schedule_ok h" and "period_day h 0 \<le> n" and "n < period_day h 1000"
  shows "\<exists>q. CurrentPeriod h (midnight n) = Inr q \<and> 1 \<le> q \<and> q \<le> 1000 \<and>
    fst (PeriodBounds h q) \<le> midnight n \<and> midnight n \<le> snd (PeriodBounds h q) \<and>
    fst (PeriodBounds h (q + 1)) = snd (PeriodBounds h q) + ns_per_day \<and>
    (\<forall>p. 1 \<le> p \<and> p \<le> 1000 \<and> fst (PeriodBounds h p) \<le> midnight n \<and>
       midnight n \<le> snd (PeriodBounds h p) \<longrightarrow> p = q)"
proof -
  have M: "1 \<le> unat (MonthsPerPeriod h)" using assms(1) by (simp add: schedule_ok_def)
  obtain q where q: "CurrentPeriod h (midnight n) = Inr q" "1 \<le> unat q" "unat q \<le> 1000"
    "period_day h (unat q - 1) \<le> n" "n < period_day h (unat q)"
    using CurrentPeriod_finds [OF assms] by metis
  have q1: "unat (q + 1) = unat q + 1" using q by (subst unat_add_lem [THEN iffD1]) simp_all
  have next_start: "fst (PeriodBounds h (q + 1)) = snd (PeriodBounds h q) + ns_per_day"
    using PeriodBounds_days [OF assms(1), of q] PeriodBounds_days [OF assms(1), of "q + 1"] q q1
    by (simp add: midnight_def algebra_simps)
  have "p = q" if p: "1 \<le> p" "p \<le> 1000" "fst (PeriodBounds h p) \<le> midnight n"
    "midnight n \<le> snd (PeriodBounds h p)" for p
  proof -
    have u: "1 \<le> unat p" "unat p \<le> 1000" using p by (simp_all add: word_le_nat_alt)
    with p have b: "period_day h (unat p - 1) \<le> n" "n < period_day h (unat p)"
      using PeriodBounds_days [OF assms(1), of p] by simp_all
    have "\<not> unat p < unat q" using period_day_mono [OF M, of "unat p" "unat q - 1"] b q by linarith
    moreover have "\<not> unat q < unat p" using period_day_mono [OF M, of "unat q" "unat p - 1"] b q by linarith
    ultimately have "unat p = unat q" by simp
    then show ?thesis by (simp add: word_unat_eq_iff)
  qed
  moreover have "fst (PeriodBounds h q) \<le> midnight n" "midnight n \<le> snd (PeriodBounds h q)"
    using PeriodBounds_days [OF assms(1), of q] q by simp_all
  moreover have "1 \<le> q" "q \<le> 1000" using q by (simp_all add: word_le_nat_alt)
  ultimately show ?thesis using q(1) next_start by blast
qed

theorem CurrentPeriod_unique_witness:
  "\<exists>q. CurrentPeriod tsc_schedule (midnight 20300) = Inr q \<and> 1 \<le> q \<and> q \<le> 1000"
proof -
  have "period_day tsc_schedule 0 \<le> 20300" "20300 < period_day tsc_schedule 1" by code_simp+
  moreover have "period_day tsc_schedule 1 \<le> period_day tsc_schedule 1000"
    by (rule period_day_mono) (simp_all add: tsc_schedule_def)
  ultimately show ?thesis using CurrentPeriod_unique [OF tsc_schedule_ok, of 20300] by auto
qed

text \<open>
  C27. Up to the end of period 63 the limit the code computes is the specified one: the sum of
  \<open>MaxSupply / 2^p\<close> over the completed periods, plus the share of the current period's allocation
  that belongs to the days elapsed in it, the current day included.
\<close>

theorem TotalDistributableAt_spec:
  assumes "schedule_ok h" and "1 \<le> q" and "q \<le> 63"
    and "period_day h (q - 1) \<le> n" and "n < period_day h q"
  shows "TotalDistributableAt h (midnight n) =
    Inr ((\<Sum>p \<leftarrow> [1..<q]. hs_MaxSupply h div 2 ^ p) +
      (hs_MaxSupply h div 2 ^ q) * (n - period_day h (q - 1) + 1)
        div (period_day h q - period_day h (q - 1)))"
  using TotalDistributableAt_period [OF assms] by (simp add: distributable_def)

theorem TotalDistributableAt_spec_witness:
  "TotalDistributableAt tsc_schedule (midnight 20291) =
     Inr (10500000000000000000000000 * (20291 - 20291 + 1) div 1461)"
proof -
  have "period_day tsc_schedule 0 = 20291" "period_day tsc_schedule 1 = 21752" by code_simp+
  then show ?thesis
    using TotalDistributableAt_spec [OF tsc_schedule_ok, of 1 20291] by (simp add: tsc_schedule_def)
qed

text \<open>
  C28. The limit never exceeds the maximum supply and never decreases: for two days in the first 63
  periods, the later one's limit is at least the earlier one's.
\<close>

theorem TotalDistributableAt_bounds:
  assumes h: "schedule_ok h" and n: "period_day h 0 \<le> n" "n \<le> n'" "n' < period_day h 63"
  shows "\<exists>a b. TotalDistributableAt h (midnight n) = Inr a \<and> TotalDistributableAt h (midnight n') = Inr b \<and>
    0 \<le> a \<and> a \<le> b \<and> b \<le> hs_MaxSupply h"
proof -
  obtain q where q: "1 \<le> q" "q \<le> 63" "period_day h (q - 1) \<le> n" "n < period_day h q"
    using period_of_day [OF h, of n 63] n by auto
  obtain q' where q': "1 \<le> q'" "q' \<le> 63" "period_day h (q' - 1) \<le> n'" "n' < period_day h q'"
    using period_of_day [OF h, of n' 63] n by auto
  show ?thesis
    using TotalDistributableAt_period [OF h q] TotalDistributableAt_period [OF h q']
      distributable_bounds(1) [OF h q(1,3,4)] distributable_bounds(4) [OF h q'(1,3,4)]
      distributable_mono [OF h q(1,3,4) q'(1,3,4) n(2)] by blast
qed

theorem TotalDistributableAt_bounds_witness:
  "\<exists>a b. TotalDistributableAt tsc_schedule (midnight 20291) = Inr a \<and>
     TotalDistributableAt tsc_schedule (midnight 21000) = Inr b \<and> a \<le> b"
proof -
  have "period_day tsc_schedule 0 = 20291" "21000 < period_day tsc_schedule 1" by code_simp+
  moreover have "period_day tsc_schedule 1 \<le> period_day tsc_schedule 63"
    by (rule period_day_mono) (simp_all add: tsc_schedule_def)
  ultimately show ?thesis using TotalDistributableAt_bounds [OF tsc_schedule_ok, of 20291 21000] by auto
qed

text \<open>
  C29. From the start of period 64 on every mint panics with a division by zero, because \<open>1 << period\<close>
  is 0 on 64 bits: with a halving period of one month, which validation accepts, minting stops for
  good after 63 months, whatever is left to distribute.
\<close>

theorem Mint_stops_at_period_64:
  assumes "MsgMint_Validate E msg = Inr amount" and "AddrFromBech32 E (Minter msg) = Inr minter"
    and "ParamsGet E w = Inr params" and "AddrString E minter = MintingAddress params"
    and "NewIntFromString E (MaxSupply params) = Some maxSupply"
    and "0 \<le> GetSupply E w (p_Denom params)" and "GetSupply E w (p_Denom params) + amount \<le> maxSupply"
    and "newHalvingSchedule E params = Inr h" and "schedule_ok h"
    and "period_day h 63 \<le> day_number (BlockTime ctx)"
  shows "Mint E ctx w msg = Inl (GoPanic ''division by zero'')"
proof -
  have "maxSupply = hs_MaxSupply h" using assms(5,8) by (simp add: newHalvingSchedule_Inr)
  moreover have "0 < amount" using assms(1) by (simp add: MsgMint_Validate_Inr)
  ultimately have "int_fits (GetSupply E w (p_Denom params) + amount)"
    using assms(6,7,9) by (simp add: int_fits_def schedule_ok_def)
  moreover have "TotalDistributableAt h (Truncate_day (BlockTime ctx)) = Inl (GoPanic ''division by zero'')"
    unfolding Truncate_day_eq by (rule TotalDistributableAt_panics [OF assms(9,10)])
  ultimately show ?thesis
    using assms by (simp add: Mint_def MsgMint_GetSigners_def IsAuthorized_def validateMintingLimits_def
        int_op_defs)
qed

definition monthly_params :: Params where
  "monthly_params = DefaultParams\<lparr>MonthsInHalvingPeriod := 1\<rparr>"

theorem Mint_stops_at_period_64_witness:
  "Params_Validate ref_distro monthly_params = Inr () \<and>
   Mint ref_distro \<lparr>BlockTime = midnight 22300, BlockHeight = 1, redelegatingSet = {}\<rparr>
     (dw0\<lparr>dw_params := Some monthly_params\<rparr>) mint_1000 = Inl (GoPanic ''division by zero'')"
proof
  show "Params_Validate ref_distro monthly_params = Inr ()" by code_simp
  let ?h = "tsc_schedule\<lparr>MonthsPerPeriod := 1\<rparr>"
  show "Mint ref_distro \<lparr>BlockTime = midnight 22300, BlockHeight = 1, redelegatingSet = {}\<rparr>
     (dw0\<lparr>dw_params := Some monthly_params\<rparr>) mint_1000 = Inl (GoPanic ''division by zero'')"
  proof (rule Mint_stops_at_period_64)
    show "MsgMint_Validate ref_distro mint_1000 = Inr 1000"
      "AddrFromBech32 ref_distro (Minter mint_1000) = Inr DefaultMintingAddress"
      "ParamsGet ref_distro (dw0\<lparr>dw_params := Some monthly_params\<rparr>) = Inr monthly_params"
      "AddrString ref_distro DefaultMintingAddress = MintingAddress monthly_params"
      "NewIntFromString ref_distro (MaxSupply monthly_params) = Some 21000000000000000000000000"
      "0 \<le> GetSupply ref_distro (dw0\<lparr>dw_params := Some monthly_params\<rparr>) (p_Denom monthly_params)"
      "GetSupply ref_distro (dw0\<lparr>dw_params := Some monthly_params\<rparr>) (p_Denom monthly_params) + 1000
        \<le> 21000000000000000000000000"
      "newHalvingSchedule ref_distro monthly_params = Inr ?h" by code_simp+
    show "schedule_ok ?h" by (auto simp: schedule_ok_def tsc_schedule_def)
    show "period_day ?h 63 \<le> day_number (BlockTime
        \<lparr>BlockTime = midnight 22300, BlockHeight = 1, redelegatingSet = {}\<rparr>)" by code_simp
  qed
qed

end
