(* ===== verification/Legacy_Wire.thy ===== *)
theory Legacy_Wire
  imports Proto_Wire
begin

text \<open>
  The hand-written protobuf reader of \<open>app/legacy_ethtx.go\<close>: varints, length-delimited fields,
  skipping, and the loop over the fields of a message that every decoder of the file runs. Indexes
  are Go \<open>int\<close>s: a length read from the data is converted with its sign and the sums wrap, so the
  index can move backwards; a slice expression with bounds out of order panics. The loop is a
  partial function: \<open>None\<close> means it runs forever, which its callers turn into \<open>NoReturn\<close>.
\<close>

section \<open>Varints and skipping\<close>

fun varint_loop :: "64 word \<Rightarrow> nat \<Rightarrow> bytes \<Rightarrow> 64 word \<times> int" where
  "varint_loop val i [] = (0, 0)"
| "varint_loop val i (b # bs) =
     (if i < 10 then
        let val = val OR push_bit (i * 7) (of_nat (byte_val b) AND 127)
        in if byte_val b < 128 then (val, int i + 1) else varint_loop val (i + 1) bs
      else (0, 0))"

definition protoDecodeVarint :: "bytes \<Rightarrow> 64 word \<times> int" where
  "protoDecodeVarint data = varint_loop 0 0 data"

definition readLenDelimited :: "bytes \<Rightarrow> (bytes \<times> int) res" where
  "readLenDelimited data =
     (let (len, n) = protoDecodeVarint data
      in bnd (require (n \<noteq> 0) (FmtError ''bad length varint'')) (\<lambda>_.
         let end_i = wrap64 (n + sint len)
         in bnd (require (\<not> int (length data) < end_i) ErrUnexpectedEOF) (\<lambda>_.
            bnd (slice_range data n end_i) (\<lambda>b. Inr (b, end_i)))))"

definition skipProtoField :: "bytes \<Rightarrow> int \<Rightarrow> int res" where
  "skipProtoField data wireType =
     (if wireType = 0 then
        let (_, n) = protoDecodeVarint data
        in bnd (require (n \<noteq> 0) (FmtError ''bad varint skip'')) (\<lambda>_. Inr n)
      else if wireType = 1 then Inr 8
      else if wireType = 2 then
        let (len, n) = protoDecodeVarint data
        in bnd (require (n \<noteq> 0) (FmtError ''bad length skip'')) (\<lambda>_. Inr (wrap64 (n + sint len)))
      else if wireType = 5 then Inr 4
      else Inl (FmtError ''unsupported wire type''))"

section \<open>The field loop\<close>

text \<open>A field handler continues with a new state and index, or returns from the function.\<close>

datatype ('s, 'r) ctl = Continue 's int | Return 'r

text \<open>The tag at an index: field number, wire type and the index behind it.\<close>

definition read_tag :: "bytes \<Rightarrow> int \<Rightarrow> (int \<times> int \<times> int) res" where
  "read_tag data i =
     bnd (slice_from data i) (\<lambda>d.
     let (tag, n) = protoDecodeVarint d
     in bnd (require (n \<noteq> 0) (FmtError ''bad varint'')) (\<lambda>_.
        Inr (uint (drop_bit 3 tag), uint (tag AND 7), i + n)))"

type_synonym ('s, 'r) field_body = "bytes \<Rightarrow> 's \<Rightarrow> int \<Rightarrow> int \<Rightarrow> int \<Rightarrow> ('s, 'r) ctl res"

partial_function (option) field_loop ::
    "('s, 'r) field_body \<Rightarrow> ('s \<Rightarrow> 'r res) \<Rightarrow> bytes \<Rightarrow> 's \<Rightarrow> int \<Rightarrow> 'r res option" where
  "field_loop body finish data s i =
     (if i < int (length data) then
        (case read_tag data i of
           Inl e \<Rightarrow> Some (Inl e)
         | Inr (fieldNum, wireType, j) \<Rightarrow>
             (case body data s fieldNum wireType j of
                Inl e \<Rightarrow> Some (Inl e)
              | Inr (Return r) \<Rightarrow> Some (Inr r)
              | Inr (Continue s' k) \<Rightarrow> field_loop body finish data s' k))
      else Some (finish s))"

declare field_loop.simps [code]

definition run_fields :: "('s, 'r) field_body \<Rightarrow> ('s \<Rightarrow> 'r res) \<Rightarrow> bytes \<Rightarrow> 's \<Rightarrow> 'r res" where
  "run_fields body finish data s =
     (case field_loop body finish data s 0 of None \<Rightarrow> Inl NoReturn | Some r \<Rightarrow> r)"

section \<open>Reading a field's value\<close>

text \<open>
  The two shapes a decoder's case has after the field number: a check of the wire type followed by
  a varint, or by a length-delimited value; both give the value and the next index.
\<close>

definition varint_value :: "string \<Rightarrow> int \<Rightarrow> bytes \<Rightarrow> int \<Rightarrow> (64 word \<times> int) res" where
  "varint_value name wireType data i =
     bnd (require (wireType = 0) (FmtError (''wrong wire type for '' @ name))) (\<lambda>_.
     bnd (slice_from data i) (\<lambda>d.
     let (v, n) = protoDecodeVarint d
     in bnd (require (n \<noteq> 0) (FmtError (''bad varint for '' @ name))) (\<lambda>_. Inr (v, i + n))))"

definition len_value :: "string \<Rightarrow> int \<Rightarrow> bytes \<Rightarrow> int \<Rightarrow> (bytes \<times> int) res" where
  "len_value name wireType data i =
     bnd (require (wireType = 2) (FmtError (''wrong wire type for '' @ name))) (\<lambda>_.
     bnd (slice_from data i) (\<lambda>d.
     bnd (readLenDelimited d) (\<lambda>(b, n). Inr (b, i + n))))"

definition skip_value :: "int \<Rightarrow> bytes \<Rightarrow> int \<Rightarrow> int res" where
  "skip_value wireType data i =
     bnd (slice_from data i) (\<lambda>d. bnd (skipProtoField d wireType) (\<lambda>n. Inr (wrap64 (i + n))))"

text \<open>A length prefix at an index and the window it announces, as the outer decoders read it.\<close>

definition len_window :: "string \<Rightarrow> bytes \<Rightarrow> int \<Rightarrow> (int \<times> int) res" where
  "len_window name data i =
     bnd (slice_from data i) (\<lambda>d.
     let (len, n) = protoDecodeVarint d
     in bnd (require (n \<noteq> 0) (FmtError (''bad length for '' @ name))) (\<lambda>_.
        let i = i + n; end_i = wrap64 (i + sint len)
        in bnd (require (\<not> int (length data) < end_i) ErrUnexpectedEOF) (\<lambda>_. Inr (i, end_i))))"

section \<open>Extracting one field\<close>

definition extract_body :: "int \<Rightarrow> int \<Rightarrow> (unit, bytes) field_body" where
  "extract_body targetFieldNum targetWireType data s fieldNum wireType i =
     (if wireType = 0 then
        bnd (slice_from data i) (\<lambda>d.
        let (_, n) = protoDecodeVarint d
        in bnd (require (n \<noteq> 0) (FmtError ''bad varint value'')) (\<lambda>_.
           if fieldNum = targetFieldNum \<and> targetWireType = 0
           then bnd (slice_range data i (i + n)) (\<lambda>b. Inr (Return b))
           else Inr (Continue () (i + n))))
      else if wireType = 1 then
        bnd (require (\<not> int (length data) < i + 8) ErrUnexpectedEOF) (\<lambda>_.
        if fieldNum = targetFieldNum \<and> targetWireType = 1
        then bnd (slice_range data i (i + 8)) (\<lambda>b. Inr (Return b))
        else Inr (Continue () (i + 8)))
      else if wireType = 2 then
        bnd (len_window ''field'' data i) (\<lambda>(i, end_i).
        if fieldNum = targetFieldNum \<and> targetWireType = 2
        then bnd (slice_range data i end_i) (\<lambda>b. Inr (Return b))
        else Inr (Continue () end_i))
      else if wireType = 5 then
        bnd (require (\<not> int (length data) < i + 4) ErrUnexpectedEOF) (\<lambda>_.
        if fieldNum = targetFieldNum \<and> targetWireType = 5
        then bnd (slice_range data i (i + 4)) (\<lambda>b. Inr (Return b))
        else Inr (Continue () (i + 4)))
      else Inl (FmtError ''unsupported wire type''))"

definition extractProtoField :: "bytes \<Rightarrow> int \<Rightarrow> int \<Rightarrow> bytes res" where
  "extractProtoField data targetFieldNum targetWireType =
     run_fields (extract_body targetFieldNum targetWireType) (\<lambda>_. Inl (FmtError ''field not found'')) data ()"

definition extractMsgAnyValue :: "bytes \<Rightarrow> bytes res" where
  "extractMsgAnyValue txBytes =
     bnd (wrap_err (FmtError ''cannot extract tx body'') (extractProtoField txBytes 1 2)) (\<lambda>bodyBytes.
     bnd (wrap_err (FmtError ''cannot extract first message Any'') (extractProtoField bodyBytes 1 2)) (\<lambda>anyBytes.
     wrap_err (FmtError ''cannot extract Any value'') (extractProtoField anyBytes 2 2)))"

end
