(* ===== verification/Legacy_Tx.thy ===== *)
theory Legacy_Tx
  imports Legacy_Wire
begin

text \<open>
  The fallback decoder for transactions of the old EVM module (\<open>app/legacy_ethtx.go\<close>): the old
  protobuf messages, their decoders, the conversion to a go-ethereum transaction and the decoder
  that wraps the standard one. go-ethereum, the \<open>math.Int\<close> text codec and the Cosmos transaction
  builder are the fields of the record \<open>eth_lib\<close>. A \<open>*math.Int\<close> is an option (nil pointer) of an
  option (an \<open>Int\<close> without a value, which \<open>Unmarshal\<close> leaves on empty input).
\<close>

section \<open>The old messages\<close>

record proto_any =
  TypeUrl :: string
  any_Value :: bytes

record legacyMsgEthereumTx =
  lm_Data :: "proto_any option"
  lm_Size :: "64 word"
  lm_Hash :: string
  lm_From :: string

type_synonym int_ptr = "int option option"

record legacyLegacyTx =
  lt_Nonce :: "64 word"
  lt_GasPrice :: int_ptr
  lt_GasLimit :: "64 word"
  lt_To :: string
  lt_Amount :: int_ptr
  lt_Data :: bytes
  lt_V :: bytes
  lt_R :: bytes
  lt_S :: bytes

record legacyAccessTuple =
  at_Address :: string
  StorageKeys :: "string list"

record legacyAccessListTx =
  al_ChainID :: int_ptr
  al_Nonce :: "64 word"
  al_GasPrice :: int_ptr
  al_GasLimit :: "64 word"
  al_To :: string
  al_Amount :: int_ptr
  al_Data :: bytes
  al_Accesses :: "legacyAccessTuple list"
  al_V :: bytes
  al_R :: bytes
  al_S :: bytes

record legacyDynamicFeeTx =
  df_ChainID :: int_ptr
  df_Nonce :: "64 word"
  df_GasTipCap :: int_ptr
  df_GasFeeCap :: int_ptr
  df_GasLimit :: "64 word"
  df_To :: string
  df_Amount :: int_ptr
  df_Data :: bytes
  df_Accesses :: "legacyAccessTuple list"
  df_V :: bytes
  df_R :: bytes
  df_S :: bytes

text \<open>The zero values the decoders start from.\<close>

definition no_any :: proto_any where
  "no_any = \<lparr>TypeUrl = [], any_Value = []\<rparr>"

definition no_msg :: legacyMsgEthereumTx where
  "no_msg = \<lparr>lm_Data = None, lm_Size = 0, lm_Hash = [], lm_From = []\<rparr>"

definition no_legacy :: legacyLegacyTx where
  "no_legacy = \<lparr>lt_Nonce = 0, lt_GasPrice = None, lt_GasLimit = 0, lt_To = [], lt_Amount = None,
     lt_Data = [], lt_V = [], lt_R = [], lt_S = []\<rparr>"

definition no_tuple :: legacyAccessTuple where
  "no_tuple = \<lparr>at_Address = [], StorageKeys = []\<rparr>"

definition no_access_list :: legacyAccessListTx where
  "no_access_list = \<lparr>al_ChainID = None, al_Nonce = 0, al_GasPrice = None, al_GasLimit = 0, al_To = [],
     al_Amount = None, al_Data = [], al_Accesses = [], al_V = [], al_R = [], al_S = []\<rparr>"

definition no_dynamic_fee :: legacyDynamicFeeTx where
  "no_dynamic_fee = \<lparr>df_ChainID = None, df_Nonce = 0, df_GasTipCap = None, df_GasFeeCap = None,
     df_GasLimit = 0, df_To = [], df_Amount = None, df_Data = [], df_Accesses = [], df_V = [],
     df_R = [], df_S = []\<rparr>"

section \<open>go-ethereum and the transaction builder\<close>

record eth_AccessTuple =
  eth_Address :: bytes
  eth_StorageKeys :: "bytes list"

text \<open>The transaction data handed to \<open>ethtypes.NewTx\<close>; a \<open>*big.Int\<close> may be nil.\<close>

type_synonym bigint = "int option"

record EthLegacyTx =
  el_Nonce :: "64 word"
  el_GasPrice :: bigint
  el_Gas :: "64 word"
  el_To :: "bytes option"
  el_Value :: bigint
  el_Data :: bytes
  el_V :: bigint
  el_R :: bigint
  el_S :: bigint

record EthAccessListTx = EthLegacyTx +
  el_ChainID :: bigint
  el_AccessList :: "eth_AccessTuple list"

record EthDynamicFeeTx =
  ed_ChainID :: bigint
  ed_Nonce :: "64 word"
  ed_GasTipCap :: bigint
  ed_GasFeeCap :: bigint
  ed_Gas :: "64 word"
  ed_To :: "bytes option"
  ed_Value :: bigint
  ed_Data :: bytes
  ed_AccessList :: "eth_AccessTuple list"
  ed_V :: bigint
  ed_R :: bigint
  ed_S :: bigint

datatype eth_txdata = LegacyTx EthLegacyTx | AccessListTx EthAccessListTx | DynamicFeeTx EthDynamicFeeTx

record 'e MsgEthereumTx =
  RawTransaction :: "'e option"
  eth_From :: bytes

datatype 'e sdk_msg = EthMsg "'e MsgEthereumTx" | OtherMsg

record ('e, 'g, 't) eth_lib =
  Int_Unmarshal :: "bytes \<Rightarrow> int option res"
  HexToAddress :: "string \<Rightarrow> bytes"
  HexToHash :: "string \<Rightarrow> bytes"
  NewTx :: "eth_txdata \<Rightarrow> 'e"
  ChainId :: "'e \<Rightarrow> int"
  LatestSignerForChainID :: "int \<Rightarrow> 'g"
  Sender :: "'g \<Rightarrow> 'e \<Rightarrow> bytes res"
  FromEthereumTx :: "'e \<Rightarrow> 'e MsgEthereumTx \<Rightarrow> 'e MsgEthereumTx"
  build_tx :: "'e MsgEthereumTx \<Rightarrow> 't res"
  GetMsgs :: "'t \<Rightarrow> 'e sdk_msg list"
  Error :: "go_err \<Rightarrow> string"

definition int_value ::
    "('e, 'g, 't) eth_lib \<Rightarrow> string \<Rightarrow> int \<Rightarrow> bytes \<Rightarrow> int \<Rightarrow> (int option \<times> int) res" where
  "int_value L name wireType data i =
     bnd (len_value name wireType data i) (\<lambda>(b, i).
     bnd (wrap_err (FmtError (''failed to unmarshal '' @ name)) (Int_Unmarshal L b)) (\<lambda>v. Inr (v, i)))"

section \<open>Decoding the outer message\<close>

definition any_body :: "(proto_any, proto_any) field_body" where
  "any_body data any fieldNum wireType i =
     (if wireType \<noteq> 2 then
        (if wireType = 0 then
           bnd (slice_from data i) (\<lambda>d. let (_, n) = protoDecodeVarint d in Inr (Continue any (i + n)))
         else if wireType = 1 then Inr (Continue any (i + 8))
         else if wireType = 5 then Inr (Continue any (i + 4))
         else Inl (FmtError ''unsupported wire type in Any''))
      else
        bnd (len_window ''Any'' data i) (\<lambda>(i, end_i).
        if fieldNum = 1 then
          bnd (slice_range data i end_i) (\<lambda>b. Inr (Continue (any\<lparr>TypeUrl := b\<rparr>) end_i))
        else if fieldNum = 2 then
          bnd (slice_range data i end_i) (\<lambda>b. Inr (Continue (any\<lparr>any_Value := b\<rparr>) end_i))
        else Inr (Continue any end_i)))"

definition unmarshalAny :: "bytes \<Rightarrow> proto_any res" where
  "unmarshalAny data = run_fields any_body Inr data no_any"

text \<open>\<open>binary.LittleEndian.Uint64\<close>\<close>

definition le_uint64 :: "bytes \<Rightarrow> 64 word" where
  "le_uint64 bs = of_nat (horner_sum byte_val 256 (take 8 bs))"

definition msg_body :: "(legacyMsgEthereumTx, legacyMsgEthereumTx) field_body" where
  "msg_body data msg fieldNum wireType i =
     (if fieldNum = 1 then
        bnd (require (wireType = 2) (FmtError ''wrong wire type for Data field'')) (\<lambda>_.
        bnd (len_window ''Data'' data i) (\<lambda>(i, end_i).
        bnd (slice_range data i end_i) (\<lambda>b.
        bnd (wrap_err (FmtError ''failed to unmarshal Any'') (unmarshalAny b)) (\<lambda>any.
        Inr (Continue (msg\<lparr>lm_Data := Some any\<rparr>) end_i)))))
      else if fieldNum = 2 then
        bnd (require (wireType = 1) (FmtError ''wrong wire type for Size field'')) (\<lambda>_.
        bnd (require (\<not> int (length data) < i + 8) ErrUnexpectedEOF) (\<lambda>_.
        bnd (slice_from data i) (\<lambda>d.
        Inr (Continue (msg\<lparr>lm_Size := le_uint64 d\<rparr>) (i + 8)))))
      else if fieldNum = 3 then
        bnd (require (wireType = 2) (FmtError ''wrong wire type for Hash field'')) (\<lambda>_.
        bnd (len_window ''Hash'' data i) (\<lambda>(i, end_i).
        bnd (slice_range data i end_i) (\<lambda>b. Inr (Continue (msg\<lparr>lm_Hash := b\<rparr>) end_i))))
      else if fieldNum = 4 then
        bnd (require (wireType = 2) (FmtError ''wrong wire type for From field'')) (\<lambda>_.
        bnd (len_window ''From'' data i) (\<lambda>(i, end_i).
        bnd (slice_range data i end_i) (\<lambda>b. Inr (Continue (msg\<lparr>lm_From := b\<rparr>) end_i))))
      else bnd (skip_value wireType data i) (\<lambda>i. Inr (Continue msg i)))"

definition unmarshalLegacyMsgEthereumTx :: "bytes \<Rightarrow> legacyMsgEthereumTx res" where
  "unmarshalLegacyMsgEthereumTx data = run_fields msg_body Inr data no_msg"

section \<open>Decoding the transaction data\<close>

definition legacy_body :: "('e, 'g, 't) eth_lib \<Rightarrow> (legacyLegacyTx, legacyLegacyTx) field_body" where
  "legacy_body L data tx fieldNum wireType i =
     (if fieldNum = 1 then bnd (varint_value ''nonce'' wireType data i)
        (\<lambda>(v, i). Inr (Continue (tx\<lparr>lt_Nonce := v\<rparr>) i))
      else if fieldNum = 2 then bnd (int_value L ''gas_price'' wireType data i)
        (\<lambda>(v, i). Inr (Continue (tx\<lparr>lt_GasPrice := Some v\<rparr>) i))
      else if fieldNum = 3 then bnd (varint_value ''gas'' wireType data i)
        (\<lambda>(v, i). Inr (Continue (tx\<lparr>lt_GasLimit := v\<rparr>) i))
      else if fieldNum = 4 then bnd (len_value ''to'' wireType data i)
        (\<lambda>(b, i). Inr (Continue (tx\<lparr>lt_To := b\<rparr>) i))
      else if fieldNum = 5 then bnd (int_value L ''amount'' wireType data i)
        (\<lambda>(v, i). Inr (Continue (tx\<lparr>lt_Amount := Some v\<rparr>) i))
      else if fieldNum = 6 then bnd (len_value ''data'' wireType data i)
        (\<lambda>(b, i). Inr (Continue (tx\<lparr>lt_Data := b\<rparr>) i))
      else if fieldNum = 7 then bnd (len_value ''V'' wireType data i)
        (\<lambda>(b, i). Inr (Continue (tx\<lparr>lt_V := b\<rparr>) i))
      else if fieldNum = 8 then bnd (len_value ''R'' wireType data i)
        (\<lambda>(b, i). Inr (Continue (tx\<lparr>lt_R := b\<rparr>) i))
      else if fieldNum = 9 then bnd (len_value ''S'' wireType data i)
        (\<lambda>(b, i). Inr (Continue (tx\<lparr>lt_S := b\<rparr>) i))
      else bnd (skip_value wireType data i) (\<lambda>i. Inr (Continue tx i)))"

definition unmarshalLegacyTx :: "('e, 'g, 't) eth_lib \<Rightarrow> bytes \<Rightarrow> legacyLegacyTx res" where
  "unmarshalLegacyTx L data = run_fields (legacy_body L) Inr data no_legacy"

definition tuple_body :: "(legacyAccessTuple, legacyAccessTuple) field_body" where
  "tuple_body data at fieldNum wireType i =
     (if fieldNum = 1 then bnd (len_value ''address'' wireType data i)
        (\<lambda>(b, i). Inr (Continue (at\<lparr>at_Address := b\<rparr>) i))
      else if fieldNum = 2 then bnd (len_value ''storage_keys'' wireType data i)
        (\<lambda>(b, i). Inr (Continue (at\<lparr>StorageKeys := StorageKeys at @ [b]\<rparr>) i))
      else bnd (skip_value wireType data i) (\<lambda>i. Inr (Continue at i)))"

definition unmarshalAccessTuple :: "bytes \<Rightarrow> legacyAccessTuple res" where
  "unmarshalAccessTuple data = run_fields tuple_body Inr data no_tuple"

definition access_list_body ::
    "('e, 'g, 't) eth_lib \<Rightarrow> (legacyAccessListTx, legacyAccessListTx) field_body" where
  "access_list_body L data tx fieldNum wireType i =
     (if fieldNum = 1 then bnd (int_value L ''chain_id'' wireType data i)
        (\<lambda>(v, i). Inr (Continue (tx\<lparr>al_ChainID := Some v\<rparr>) i))
      else if fieldNum = 2 then bnd (varint_value ''nonce'' wireType data i)
        (\<lambda>(v, i). Inr (Continue (tx\<lparr>al_Nonce := v\<rparr>) i))
      else if fieldNum = 3 then bnd (int_value L ''gas_price'' wireType data i)
        (\<lambda>(v, i). Inr (Continue (tx\<lparr>al_GasPrice := Some v\<rparr>) i))
      else if fieldNum = 4 then bnd (varint_value ''gas'' wireType data i)
        (\<lambda>(v, i). Inr (Continue (tx\<lparr>al_GasLimit := v\<rparr>) i))
      else if fieldNum = 5 then bnd (len_value ''to'' wireType data i)
        (\<lambda>(b, i). Inr (Continue (tx\<lparr>al_To := b\<rparr>) i))
      else if fieldNum = 6 then bnd (int_value L ''amount'' wireType data i)
        (\<lambda>(v, i). Inr (Continue (tx\<lparr>al_Amount := Some v\<rparr>) i))
      else if fieldNum = 7 then bnd (len_value ''data'' wireType data i)
        (\<lambda>(b, i). Inr (Continue (tx\<lparr>al_Data := b\<rparr>) i))
      else if fieldNum = 8 then bnd (len_value ''accesses'' wireType data i)
        (\<lambda>(b, i). bnd (unmarshalAccessTuple b) (\<lambda>at.
           Inr (Continue (tx\<lparr>al_Accesses := al_Accesses tx @ [at]\<rparr>) i)))
      else if fieldNum = 9 then bnd (len_value ''V'' wireType data i)
        (\<lambda>(b, i). Inr (Continue (tx\<lparr>al_V := b\<rparr>) i))
      else if fieldNum = 10 then bnd (len_value ''R'' wireType data i)
        (\<lambda>(b, i). Inr (Continue (tx\<lparr>al_R := b\<rparr>) i))
      else if fieldNum = 11 then bnd (len_value ''S'' wireType data i)
        (\<lambda>(b, i). Inr (Continue (tx\<lparr>al_S := b\<rparr>) i))
      else bnd (skip_value wireType data i) (\<lambda>i. Inr (Continue tx i)))"

definition unmarshalAccessListTx :: "('e, 'g, 't) eth_lib \<Rightarrow> bytes \<Rightarrow> legacyAccessListTx res" where
  "unmarshalAccessListTx L data = run_fields (access_list_body L) Inr data no_access_list"

definition dynamic_fee_body ::
    "('e, 'g, 't) eth_lib \<Rightarrow> (legacyDynamicFeeTx, legacyDynamicFeeTx) field_body" where
  "dynamic_fee_body L data tx fieldNum wireType i =
     (if fieldNum = 1 then bnd (int_value L ''chain_id'' wireType data i)
        (\<lambda>(v, i). Inr (Continue (tx\<lparr>df_ChainID := Some v\<rparr>) i))
      else if fieldNum = 2 then bnd (varint_value ''nonce'' wireType data i)
        (\<lambda>(v, i). Inr (Continue (tx\<lparr>df_Nonce := v\<rparr>) i))
      else if fieldNum = 3 then bnd (int_value L ''gas_tip_cap'' wireType data i)
        (\<lambda>(v, i). Inr (Continue (tx\<lparr>df_GasTipCap := Some v\<rparr>) i))
      else if fieldNum = 4 then bnd (int_value L ''gas_fee_cap'' wireType data i)
        (\<lambda>(v, i). Inr (Continue (tx\<lparr>df_GasFeeCap := Some v\<rparr>) i))
      else if fieldNum = 5 then bnd (varint_value ''gas'' wireType data i)
        (\<lambda>(v, i). Inr (Continue (tx\<lparr>df_GasLimit := v\<rparr>) i))
      else if fieldNum = 6 then bnd (len_value ''to'' wireType data i)
        (\<lambda>(b, i). Inr (Continue (tx\<lparr>df_To := b\<rparr>) i))
      else if fieldNum = 7 then bnd (int_value L ''amount'' wireType data i)
        (\<lambda>(v, i). Inr (Continue (tx\<lparr>df_Amount := Some v\<rparr>) i))
      else if fieldNum = 8 then bnd (len_value ''data'' wireType data i)
        (\<lambda>(b, i). Inr (Continue (tx\<lparr>df_Data := b\<rparr>) i))
      else if fieldNum = 9 then bnd (len_value ''accesses'' wireType data i)
        (\<lambda>(b, i). bnd (unmarshalAccessTuple b) (\<lambda>at.
           Inr (Continue (tx\<lparr>df_Accesses := df_Accesses tx @ [at]\<rparr>) i)))
      else if fieldNum = 10 then bnd (len_value ''V'' wireType data i)
        (\<lambda>(b, i). Inr (Continue (tx\<lparr>df_V := b\<rparr>) i))
      else if fieldNum = 11 then bnd (len_value ''R'' wireType data i)
        (\<lambda>(b, i). Inr (Continue (tx\<lparr>df_R := b\<rparr>) i))
      else if fieldNum = 12 then bnd (len_value ''S'' wireType data i)
        (\<lambda>(b, i). Inr (Continue (tx\<lparr>df_S := b\<rparr>) i))
      else bnd (skip_value wireType data i) (\<lambda>i. Inr (Continue tx i)))"

definition unmarshalDynamicFeeTx :: "('e, 'g, 't) eth_lib \<Rightarrow> bytes \<Rightarrow> legacyDynamicFeeTx res" where
  "unmarshalDynamicFeeTx L data = run_fields (dynamic_fee_body L) Inr data no_dynamic_fee"

section \<open>Conversion\<close>

definition sdkIntToBigInt :: "int_ptr \<Rightarrow> bigint" where
  "sdkIntToBigInt v = (case v of None \<Rightarrow> Some 0 | Some x \<Rightarrow> x)"

text \<open>\<open>big.Int.SetBytes\<close>: a big-endian natural number.\<close>

definition set_bytes :: "bytes \<Rightarrow> int" where
  "set_bytes bs = foldl (\<lambda>acc b. acc * 256 + int (byte_val b)) 0 bs"

definition decodeSigBytes :: "bytes \<Rightarrow> bytes \<Rightarrow> bytes \<Rightarrow> bigint \<times> bigint \<times> bigint" where
  "decodeSigBytes vb rb sb =
     (let dec = (\<lambda>b. if 0 < length b then Some (set_bytes b) else Some 0) in (dec vb, dec rb, dec sb))"

definition convertLegacyAccessList ::
    "('e, 'g, 't) eth_lib \<Rightarrow> legacyAccessTuple list \<Rightarrow> eth_AccessTuple list" where
  "convertLegacyAccessList L tuples =
     (if length tuples = 0 then []
      else map (\<lambda>t. \<lparr>eth_Address = HexToAddress L (at_Address t),
                      eth_StorageKeys = map (HexToHash L) (StorageKeys t)\<rparr>) tuples)"

definition zero_address :: bytes where
  "zero_address = replicate 20 (char_of (0::nat))"

text \<open>The destination: nil for the empty string. The sender, when the message names none.\<close>

definition to_address :: "('e, 'g, 't) eth_lib \<Rightarrow> string \<Rightarrow> bytes option" where
  "to_address L s = (if s \<noteq> [] then Some (HexToAddress L s) else None)"

definition recover_from :: "('e, 'g, 't) eth_lib \<Rightarrow> 'e \<Rightarrow> bytes \<Rightarrow> bytes" where
  "recover_from L tx from_addr =
     (if from_addr = zero_address then
        (case Sender L (LatestSignerForChainID L (ChainId L tx)) tx of
           Inr sender \<Rightarrow> sender | Inl _ \<Rightarrow> from_addr)
      else from_addr)"

definition decodeLegacyTxInner :: "('e, 'g, 't) eth_lib \<Rightarrow> bytes \<Rightarrow> bytes \<Rightarrow> ('e \<times> bytes) res" where
  "decodeLegacyTxInner L data from_addr =
     bnd (unmarshalLegacyTx L data) (\<lambda>lt.
     let (v, r, s) = decodeSigBytes (lt_V lt) (lt_R lt) (lt_S lt);
         tx = NewTx L (LegacyTx \<lparr>el_Nonce = lt_Nonce lt, el_GasPrice = sdkIntToBigInt (lt_GasPrice lt),
           el_Gas = lt_GasLimit lt, el_To = to_address L (lt_To lt),
           el_Value = sdkIntToBigInt (lt_Amount lt), el_Data = lt_Data lt,
           el_V = v, el_R = r, el_S = s\<rparr>)
     in Inr (tx, recover_from L tx from_addr))"

definition decodeAccessListTxInner :: "('e, 'g, 't) eth_lib \<Rightarrow> bytes \<Rightarrow> bytes \<Rightarrow> ('e \<times> bytes) res" where
  "decodeAccessListTxInner L data from_addr =
     bnd (unmarshalAccessListTx L data) (\<lambda>alt.
     let (v, r, s) = decodeSigBytes (al_V alt) (al_R alt) (al_S alt);
         tx = NewTx L (AccessListTx \<lparr>el_Nonce = al_Nonce alt, el_GasPrice = sdkIntToBigInt (al_GasPrice alt),
           el_Gas = al_GasLimit alt, el_To = to_address L (al_To alt),
           el_Value = sdkIntToBigInt (al_Amount alt), el_Data = al_Data alt,
           el_V = v, el_R = r, el_S = s, el_ChainID = sdkIntToBigInt (al_ChainID alt),
           el_AccessList = convertLegacyAccessList L (al_Accesses alt)\<rparr>)
     in Inr (tx, recover_from L tx from_addr))"

definition decodeDynamicFeeTxInner :: "('e, 'g, 't) eth_lib \<Rightarrow> bytes \<Rightarrow> bytes \<Rightarrow> ('e \<times> bytes) res" where
  "decodeDynamicFeeTxInner L data from_addr =
     bnd (unmarshalDynamicFeeTx L data) (\<lambda>dft.
     let (v, r, s) = decodeSigBytes (df_V dft) (df_R dft) (df_S dft);
         tx = NewTx L (DynamicFeeTx \<lparr>ed_ChainID = sdkIntToBigInt (df_ChainID dft), ed_Nonce = df_Nonce dft,
           ed_GasTipCap = sdkIntToBigInt (df_GasTipCap dft),
           ed_GasFeeCap = sdkIntToBigInt (df_GasFeeCap dft), ed_Gas = df_GasLimit dft,
           ed_To = to_address L (df_To dft), ed_Value = sdkIntToBigInt (df_Amount dft),
           ed_Data = df_Data dft, ed_AccessList = convertLegacyAccessList L (df_Accesses dft),
           ed_V = v, ed_R = r, ed_S = s\<rparr>)
     in Inr (tx, recover_from L tx from_addr))"

definition legacyMsgToEthTransaction ::
    "('e, 'g, 't) eth_lib \<Rightarrow> legacyMsgEthereumTx \<Rightarrow> ('e \<times> bytes) res" where
  "legacyMsgToEthTransaction L msg =
     (case lm_Data msg of
        None \<Rightarrow> Inl (FmtError ''legacy MsgEthereumTx has nil Data'')
      | Some any \<Rightarrow>
          let from_addr = (if lm_From msg \<noteq> [] then HexToAddress L (lm_From msg) else zero_address)
          in if TypeUrl any = ''/cosmos.evm.vm.v1.LegacyTx''
             then decodeLegacyTxInner L (any_Value any) from_addr
             else if TypeUrl any = ''/cosmos.evm.vm.v1.AccessListTx''
             then decodeAccessListTxInner L (any_Value any) from_addr
             else if TypeUrl any = ''/cosmos.evm.vm.v1.DynamicFeeTx''
             then decodeDynamicFeeTxInner L (any_Value any) from_addr
             else Inl (FmtError ''unknown legacy tx data type''))"

definition decodeLegacyEthTx :: "('e, 'g, 't) eth_lib \<Rightarrow> bytes \<Rightarrow> 't res" where
  "decodeLegacyEthTx L txBytes =
     bnd (wrap_err (FmtError ''failed to extract msg bytes'') (extractMsgAnyValue txBytes)) (\<lambda>rawMsgBytes.
     bnd (wrap_err (FmtError ''failed to decode old format'')
            (unmarshalLegacyMsgEthereumTx rawMsgBytes)) (\<lambda>legacyMsg.
     bnd (wrap_err (FmtError ''failed to convert'') (legacyMsgToEthTransaction L legacyMsg)) (\<lambda>(ethTx, from_addr).
     let newMsg = FromEthereumTx L ethTx \<lparr>RawTransaction = None, eth_From = []\<rparr>
     in wrap_err (FmtError ''failed to set msgs'') (build_tx L (newMsg\<lparr>eth_From := from_addr\<rparr>)))))"

section \<open>The wrapping decoder\<close>

text \<open>\<open>strings.Contains\<close>\<close>

fun contains_str :: "string \<Rightarrow> string \<Rightarrow> bool" where
  "contains_str [] sub \<longleftrightarrow> sub = []"
| "contains_str (c # s) sub \<longleftrightarrow> take (length sub) (c # s) = sub \<or> contains_str s sub"

fun empty_eth_msg :: "'e sdk_msg \<Rightarrow> bool" where
  "empty_eth_msg (EthMsg m) \<longleftrightarrow> RawTransaction m = None \<and> length (eth_From m) = 0"
| "empty_eth_msg OtherMsg \<longleftrightarrow> False"

definition LegacyAwareTxDecoder ::
    "('e, 'g, 't) eth_lib \<Rightarrow> (bytes \<Rightarrow> 't res) \<Rightarrow> bytes \<Rightarrow> 't res" where
  "LegacyAwareTxDecoder L original txBytes =
     (case original txBytes of
        Inl err \<Rightarrow>
          if stops err then Inl err
          else if contains_str (Error L err) ''MsgEthereumTx'' \<or> contains_str (Error L err) ''unknown field'' \<or>
             contains_str (Error L err) ''errUnknownField''
          then decodeLegacyEthTx L txBytes else Inl err
      | Inr tx \<Rightarrow>
          if list_ex empty_eth_msg (GetMsgs L tx) then decodeLegacyEthTx L txBytes else Inr tx)"

text \<open>
  The transaction configuration: the two decoders are wrapped, the encoders and the other services
  (\<open>'x\<close>: builder, signature JSON, signing handlers) handed through.
\<close>

record ('t, 'x) tx_config =
  TxDecoder :: "bytes \<Rightarrow> 't res"
  TxJSONDecoder :: "bytes \<Rightarrow> 't res"
  TxEncoder :: "'t \<Rightarrow> bytes res"
  TxJSONEncoder :: "'t \<Rightarrow> bytes res"
  tx_services :: 'x

definition NewLegacyAwareTxConfig ::
    "('e, 'g, 't) eth_lib \<Rightarrow> ('t, 'x) tx_config \<Rightarrow> ('t, 'x) tx_config" where
  "NewLegacyAwareTxConfig L inner =
     \<lparr>TxDecoder = LegacyAwareTxDecoder L (TxDecoder inner),
      TxJSONDecoder = LegacyAwareTxDecoder L (TxJSONDecoder inner),
      TxEncoder = TxEncoder inner, TxJSONEncoder = TxJSONEncoder inner, tx_services = tx_services inner\<rparr>"

end
