(* ===== verification/Legacy_Fields.thy ===== *)
theory Legacy_Fields
  imports Legacy_Tx
begin

text \<open>
  The old messages as lists of protobuf fields, and the reference decoders: what a list of fields
  does to the message being built. The locale \<open>field_decoder\<close> states that a field handler reads an
  encoded field as its reference does; in it the loop over the encoding of a field list is proved
  equal to the fold of the reference over the list. Every decoder of the file is an instance.
\<close>

section \<open>Encoded fields\<close>

datatype payload = VarP "64 word" | Fix64P bytes | LenP bytes | Fix32P bytes

type_synonym pb_field = "nat \<times> payload"

fun wire_type :: "payload \<Rightarrow> nat" where
  "wire_type (VarP v) = 0"
| "wire_type (Fix64P b) = 1"
| "wire_type (LenP b) = 2"
| "wire_type (Fix32P b) = 5"

fun enc_payload :: "payload \<Rightarrow> bytes" where
  "enc_payload (VarP v) = varint v"
| "enc_payload (Fix64P b) = b"
| "enc_payload (LenP b) = varint (of_nat (length b)) @ b"
| "enc_payload (Fix32P b) = b"

definition tag_of :: "nat \<Rightarrow> payload \<Rightarrow> 64 word" where
  "tag_of num pl = of_nat (num * 8 + wire_type pl)"

fun enc_field :: "pb_field \<Rightarrow> bytes" where
  "enc_field (num, pl) = varint (tag_of num pl) @ enc_payload pl"

abbreviation enc_fields :: "pb_field list \<Rightarrow> bytes" where
  "enc_fields flds \<equiv> concat (map enc_field flds)"

fun payload_ok :: "payload \<Rightarrow> bool" where
  "payload_ok (VarP v) \<longleftrightarrow> True"
| "payload_ok (Fix64P b) \<longleftrightarrow> length b = 8"
| "payload_ok (LenP b) \<longleftrightarrow> True"
| "payload_ok (Fix32P b) \<longleftrightarrow> length b = 4"

fun field_ok :: "pb_field \<Rightarrow> bool" where
  "field_ok (num, pl) \<longleftrightarrow> num < 2 ^ 61 \<and> payload_ok pl"

text \<open>Messages far below the limit of an index.\<close>

definition small :: "bytes \<Rightarrow> bool" where
  "small bs \<longleftrightarrow> length bs < 2 ^ 62"

lemma wire_type_less: "wire_type pl < 8"
  by (cases pl) auto

section \<open>Varints\<close>

lemma and_127: "(of_nat n :: 64 word) AND 127 = of_nat (n mod 128)"
proof -
  have "(127 :: 64 word) = mask 7" by (simp add: mask_eq_exp_minus_1)
  then have "(of_nat n :: 64 word) AND 127 = take_bit 7 (of_nat n)" by (simp add: take_bit_eq_mask)
  also have "\<dots> = of_nat (take_bit 7 n)" by (simp add: take_bit_of_nat)
  finally show ?thesis by (simp add: take_bit_eq_mod)
qed

text \<open>Where the generated reader of the module codecs succeeds, the hand-written one agrees.\<close>

lemma varint_loop_rd:
  "rd_varint data i shift acc = Inr (v, j) \<Longrightarrow> shift = k * 7 \<Longrightarrow> 0 \<le> i \<Longrightarrow>
     varint_loop acc k (drop (nat i) data) = (v, int k + (j - i))"
proof (induction data i shift acc arbitrary: k rule: rd_varint.induct)
  case (1 data i shift acc)
  have lt: "\<not> 64 \<le> shift" "i < int (length data)"
    using "1.prems"(1) by (auto simp: rd_varint.simps [of data i] split: if_splits)
  let ?b = "byte_val (data ! nat i)"
  let ?acc = "acc OR push_bit shift (of_nat (?b mod 128))"
  have d: "drop (nat i) data = data ! nat i # drop (nat (i + 1)) data"
    using lt(2) "1.prems"(3) by (simp add: Cons_nth_drop_Suc nat_add_distrib)
  have k: "k < 10" using lt(1) "1.prems"(2) by simp
  show ?case
  proof (cases "?b < 128")
    case True
    then have "v = ?acc \<and> j = i + 1"
      using "1.prems"(1) lt by (simp add: rd_varint.simps [of data i] Let_def)
    with True k "1.prems"(2) show ?thesis by (simp add: d and_127)
  next
    case False
    then have "rd_varint data (i + 1) (shift + 7) ?acc = Inr (v, j)"
      using "1.prems"(1) lt by (simp add: rd_varint.simps [of data i] Let_def)
    then have "varint_loop ?acc (k + 1) (drop (nat (i + 1)) data) = (v, int (k + 1) + (j - (i + 1)))"
      using False lt "1.prems"(2,3) by (intro "1.IH") auto
    with False k "1.prems"(2) show ?thesis by (simp add: d and_127)
  qed
qed

lemma protoDecodeVarint_varint: "protoDecodeVarint (varint v @ q) = (v, int (sov v))"
  using varint_loop_rd [OF rd_varint_varint [of "[]" v q, simplified]]
  by (simp add: protoDecodeVarint_def)

declare sov_pos [simp]

section \<open>Values\<close>

definition as_varint :: "string \<Rightarrow> payload \<Rightarrow> 64 word res" where
  "as_varint name pl =
     (case pl of VarP v \<Rightarrow> Inr v | _ \<Rightarrow> Inl (FmtError (''wrong wire type for '' @ name)))"

definition as_len :: "string \<Rightarrow> payload \<Rightarrow> bytes res" where
  "as_len name pl =
     (case pl of LenP b \<Rightarrow> Inr b | _ \<Rightarrow> Inl (FmtError (''wrong wire type for '' @ name)))"

definition as_int :: "('e, 'g, 't) eth_lib \<Rightarrow> string \<Rightarrow> payload \<Rightarrow> int option res" where
  "as_int L name pl =
     bnd (as_len name pl) (\<lambda>b. wrap_err (FmtError (''failed to unmarshal '' @ name)) (Int_Unmarshal L b))"

lemma sint_of_nat_small: "n < 2 ^ 62 \<Longrightarrow> sint (of_nat n :: 64 word) = int n"
proof -
  assume n: "n < 2 ^ 62"
  then have "unat (of_nat n :: 64 word) = n" by (simp add: unat_of_nat)
  with n show ?thesis
    by (simp add: sint_uint signed_take_bit_int_eq_self uint_nat del: of_nat_unat)
qed

lemma wrap64_small: "0 \<le> x \<Longrightarrow> x < 2 ^ 62 \<Longrightarrow> wrap64 x = x"
  by (rule wrap64_id) auto

lemma wrap64_len:
  "0 \<le> k \<Longrightarrow> k + int n < 2 ^ 62 \<Longrightarrow> wrap64 (k + sint (of_nat n :: 64 word)) = k + int n"
  by (simp add: sint_of_nat_small wrap64_small)

lemma slice_from_append: "slice_from (p @ q) (int (length p)) = Inr q"
  by (simp add: slice_from_def)

lemma slice_range_append:
  "slice_range (p @ b @ q) (int (length p)) (int (length p) + int (length b)) = Inr b"
  using slice_range_nat [of "length p" "length p + length b" "p @ b @ q"] by simp

lemma readLenDelimited_enc:
  assumes "small (enc_payload (LenP b) @ q)"
  shows "readLenDelimited (enc_payload (LenP b) @ q) = Inr (b, int (length (enc_payload (LenP b))))"
proof -
  let ?v = "of_nat (length b) :: 64 word"
  have "sov ?v + length b < 2 ^ 62" using assms by (simp add: small_def length_varint)
  then have w: "wrap64 (int (sov ?v) + sint ?v) = int (sov ?v) + int (length b)"
    by (intro wrap64_len) simp_all
  show ?thesis
    using slice_range_append [of "varint ?v" b q]
    by (simp add: readLenDelimited_def protoDecodeVarint_varint Let_def w length_varint)
qed

lemma varint_value_enc:
  "varint_value name (int (wire_type pl)) (p @ enc_payload pl @ q) (int (length p)) =
     bnd (as_varint name pl) (\<lambda>v. Inr (v, int (length p + length (enc_payload pl))))"
  by (cases pl) (simp_all add: varint_value_def as_varint_def slice_from_append
      protoDecodeVarint_varint Let_def length_varint)

lemma len_value_enc:
  assumes "small (p @ enc_payload pl @ q)"
  shows "len_value name (int (wire_type pl)) (p @ enc_payload pl @ q) (int (length p)) =
     bnd (as_len name pl) (\<lambda>b. Inr (b, int (length p + length (enc_payload pl))))"
proof (cases pl)
  case (LenP b)
  have "small (enc_payload (LenP b) @ q)" using assms LenP by (simp add: small_def)
  from readLenDelimited_enc [OF this] LenP show ?thesis
    by (simp add: len_value_def as_len_def slice_from_append del: enc_payload.simps)
qed (simp_all add: len_value_def as_len_def)

lemma int_value_enc:
  assumes "small (p @ enc_payload pl @ q)"
  shows "int_value L name (int (wire_type pl)) (p @ enc_payload pl @ q) (int (length p)) =
     bnd (as_int L name pl) (\<lambda>v. Inr (v, int (length p + length (enc_payload pl))))"
  by (simp add: int_value_def as_int_def len_value_enc [OF assms] bnd_assoc)

lemma skip_value_enc:
  assumes "small (p @ enc_payload pl @ q)" "payload_ok pl"
  shows "skip_value (int (wire_type pl)) (p @ enc_payload pl @ q) (int (length p)) =
     Inr (int (length p + length (enc_payload pl)))"
proof (cases pl)
  case (LenP b)
  let ?v = "of_nat (length b) :: 64 word"
  have len: "length p + sov ?v + length b < 2 ^ 62"
    using assms(1) LenP by (simp add: small_def length_varint)
  then have "wrap64 (int (sov ?v) + sint ?v) = int (sov ?v) + int (length b)"
    by (intro wrap64_len) simp_all
  moreover have "wrap64 (int (length p) + (int (sov ?v) + int (length b))) =
      int (length p) + (int (sov ?v) + int (length b))"
    using len by (subst wrap64_small) simp_all
  ultimately show ?thesis
    using LenP by (simp add: skip_value_def slice_from_append skipProtoField_def
        protoDecodeVarint_varint Let_def length_varint)
qed (use assms in \<open>simp_all add: skip_value_def slice_from_append skipProtoField_def small_def
      protoDecodeVarint_varint Let_def length_varint wrap64_small\<close>)

lemma len_window_at:
  assumes "small (p @ enc_payload (LenP b) @ q)"
  shows "len_window name (p @ enc_payload (LenP b) @ q) (int (length p)) =
    Inr (int (length p + sov (of_nat (length b))), int (length p + length (enc_payload (LenP b))))"
proof -
  let ?v = "of_nat (length b) :: 64 word"
  have "length p + sov ?v + length b < 2 ^ 62" using assms by (simp add: small_def length_varint)
  then have "wrap64 (int (length p) + int (sov ?v) + sint ?v) =
      int (length p) + int (sov ?v) + int (length b)"
    by (intro wrap64_len) simp_all
  then show ?thesis
    by (simp add: len_window_def slice_from_append protoDecodeVarint_varint Let_def length_varint)
qed

lemma slice_window:
  "slice_range (p @ enc_payload (LenP b) @ q) (int (length p + sov (of_nat (length b))))
     (int (length p + length (enc_payload (LenP b)))) = Inr b"
  using slice_range_append [of "p @ varint (of_nat (length b))" b q]
  by (simp add: length_varint add.assoc)

lemma read_tag_enc:
  assumes "num < 2 ^ 61"
  shows "read_tag (p @ enc_field (num, pl) @ q) (int (length p)) =
    Inr (int num, int (wire_type pl), int (length (p @ varint (tag_of num pl))))"
proof -
  have "num * 8 + wire_type pl < 2 ^ 64" using assms wire_type_less [of pl] by simp
  then have u: "unat (tag_of num pl) = num * 8 + wire_type pl"
    by (simp only: tag_of_def unat_of_nat) simp
  have "unat (drop_bit 3 (tag_of num pl)) = num"
    using wire_type_less [of pl] by (subst unat_drop_bit_eq) (simp add: u drop_bit_eq_div)
  moreover have "unat (tag_of num pl AND 7) = wire_type pl"
  proof -
    have "tag_of num pl AND 7 = take_bit 3 (tag_of num pl)"
      using take_bit_eq_mask [of 3 "tag_of num pl"] by (simp add: mask_eq_exp_minus_1)
    moreover have "unat (take_bit 3 (tag_of num pl)) = wire_type pl"
      using wire_type_less [of pl] by (subst unsigned_take_bit_eq) (simp add: u take_bit_eq_mod)
    ultimately show ?thesis by simp
  qed
  ultimately show ?thesis
    by (simp add: read_tag_def slice_from_append protoDecodeVarint_varint Let_def length_varint
        uint_nat del: of_nat_unat)
qed

end
