(* ===== verification/Legacy_Decode.thy ===== *)
theory Legacy_Decode
  imports Legacy_Fields
begin

text \<open>
  The locale \<open>field_decoder\<close> and its instances for the six message decoders of
  \<open>app/legacy_ethtx.go\<close>, and the extraction of a field: on an encoded field list each of them does
  what its reference does, field by field and in order.
\<close>

section \<open>The loop\<close>

locale field_decoder =
  fixes body :: "('s, 'r) field_body" and upd :: "'s \<Rightarrow> pb_field \<Rightarrow> 's res"
  assumes step: "num < 2 ^ 61 \<Longrightarrow> payload_ok pl \<Longrightarrow> small (p @ enc_payload pl @ q) \<Longrightarrow>
    body (p @ enc_payload pl @ q) s (int num) (int (wire_type pl)) (int (length p)) =
      bnd (upd s (num, pl)) (\<lambda>s'. Inr (Continue s' (int (length p + length (enc_payload pl)))))"
begin

lemma loop:
  assumes "list_all field_ok flds" "small (p @ enc_fields flds)"
  shows "field_loop body finish (p @ enc_fields flds) s (int (length p)) =
    Some (bnd (foldM upd s flds) finish)"
  using assms
proof (induction flds arbitrary: p s)
  case Nil
  then show ?case by (subst field_loop.simps) simp
next
  case (Cons fld flds)
  obtain num pl where fld: "fld = (num, pl)" by (cases fld)
  let ?d = "p @ enc_fields (fld # flds)" and ?p = "p @ varint (tag_of num pl)"
  have ok: "num < 2 ^ 61" "payload_ok pl" using Cons.prems(1) fld by auto
  have d: "?d = ?p @ enc_payload pl @ enc_fields flds" by (simp add: fld)
  have tag: "read_tag ?d (int (length p)) = Inr (int num, int (wire_type pl), int (length ?p))"
    using read_tag_enc [OF ok(1), of p pl "enc_fields flds"] by (simp add: fld)
  have lt: "int (length p) < int (length ?d)"
    by (simp add: fld length_varint add_pos_nonneg)
  have body: "body ?d s (int num) (int (wire_type pl)) (int (length ?p)) =
      bnd (upd s fld) (\<lambda>s'. Inr (Continue s' (int (length (p @ enc_field fld)))))"
    using step [OF ok, of ?p "enc_fields flds" s] Cons.prems(2) unfolding d by (simp add: fld add.assoc)
  show ?case
  proof (cases "upd s fld")
    case (Inl e)
    then show ?thesis using lt tag body by (subst field_loop.simps) simp
  next
    case (Inr s')
    have "field_loop body finish ((p @ enc_field fld) @ enc_fields flds) s' (int (length (p @ enc_field fld))) =
        Some (bnd (foldM upd s' flds) finish)"
      using Cons.prems by (intro Cons.IH) simp_all
    then show ?thesis using lt tag body Inr by (subst field_loop.simps) simp
  qed
qed

lemma run:
  assumes "list_all field_ok flds" "small (enc_fields flds)"
  shows "run_fields body finish (enc_fields flds) s = bnd (foldM upd s flds) finish"
  using loop [of flds "[]" finish s] assms by (simp add: run_fields_def)

end

lemma bnd_Inr_right [simp]: "bnd m Inr = m"
  by (cases m) simp_all

section \<open>The reference decoders\<close>

definition any_upd :: "proto_any \<Rightarrow> pb_field \<Rightarrow> proto_any res" where
  "any_upd any fld =
     (case fld of
        (num, LenP b) \<Rightarrow> Inr (if num = 1 then any\<lparr>TypeUrl := b\<rparr>
                              else if num = 2 then any\<lparr>any_Value := b\<rparr> else any)
      | _ \<Rightarrow> Inr any)"

definition msg_upd :: "legacyMsgEthereumTx \<Rightarrow> pb_field \<Rightarrow> legacyMsgEthereumTx res" where
  "msg_upd msg fld =
     (case fld of (num, pl) \<Rightarrow>
        if num = 1 then
          (case pl of
             LenP b \<Rightarrow> bnd (wrap_err (FmtError ''failed to unmarshal Any'') (unmarshalAny b)) (\<lambda>any.
               Inr (msg\<lparr>lm_Data := Some any\<rparr>))
           | _ \<Rightarrow> Inl (FmtError ''wrong wire type for Data field''))
        else if num = 2 then
          (case pl of Fix64P b \<Rightarrow> Inr (msg\<lparr>lm_Size := le_uint64 b\<rparr>)
           | _ \<Rightarrow> Inl (FmtError ''wrong wire type for Size field''))
        else if num = 3 then
          (case pl of LenP b \<Rightarrow> Inr (msg\<lparr>lm_Hash := b\<rparr>)
           | _ \<Rightarrow> Inl (FmtError ''wrong wire type for Hash field''))
        else if num = 4 then
          (case pl of LenP b \<Rightarrow> Inr (msg\<lparr>lm_From := b\<rparr>)
           | _ \<Rightarrow> Inl (FmtError ''wrong wire type for From field''))
        else Inr msg)"

definition legacy_upd :: "('e, 'g, 't) eth_lib \<Rightarrow> legacyLegacyTx \<Rightarrow> pb_field \<Rightarrow> legacyLegacyTx res" where
  "legacy_upd L tx fld =
     (case fld of (num, pl) \<Rightarrow>
        if num = 1 then bnd (as_varint ''nonce'' pl) (\<lambda>v. Inr (tx\<lparr>lt_Nonce := v\<rparr>))
        else if num = 2 then bnd (as_int L ''gas_price'' pl) (\<lambda>v. Inr (tx\<lparr>lt_GasPrice := Some v\<rparr>))
        else if num = 3 then bnd (as_varint ''gas'' pl) (\<lambda>v. Inr (tx\<lparr>lt_GasLimit := v\<rparr>))
        else if num = 4 then bnd (as_len ''to'' pl) (\<lambda>b. Inr (tx\<lparr>lt_To := b\<rparr>))
        else if num = 5 then bnd (as_int L ''amount'' pl) (\<lambda>v. Inr (tx\<lparr>lt_Amount := Some v\<rparr>))
        else if num = 6 then bnd (as_len ''data'' pl) (\<lambda>b. Inr (tx\<lparr>lt_Data := b\<rparr>))
        else if num = 7 then bnd (as_len ''V'' pl) (\<lambda>b. Inr (tx\<lparr>lt_V := b\<rparr>))
        else if num = 8 then bnd (as_len ''R'' pl) (\<lambda>b. Inr (tx\<lparr>lt_R := b\<rparr>))
        else if num = 9 then bnd (as_len ''S'' pl) (\<lambda>b. Inr (tx\<lparr>lt_S := b\<rparr>))
        else Inr tx)"

definition tuple_upd :: "legacyAccessTuple \<Rightarrow> pb_field \<Rightarrow> legacyAccessTuple res" where
  "tuple_upd at fld =
     (case fld of (num, pl) \<Rightarrow>
        if num = 1 then bnd (as_len ''address'' pl) (\<lambda>b. Inr (at\<lparr>at_Address := b\<rparr>))
        else if num = 2 then bnd (as_len ''storage_keys'' pl) (\<lambda>b.
          Inr (at\<lparr>StorageKeys := StorageKeys at @ [b]\<rparr>))
        else Inr at)"

definition access_list_upd ::
    "('e, 'g, 't) eth_lib \<Rightarrow> legacyAccessListTx \<Rightarrow> pb_field \<Rightarrow> legacyAccessListTx res" where
  "access_list_upd L tx fld =
     (case fld of (num, pl) \<Rightarrow>
        if num = 1 then bnd (as_int L ''chain_id'' pl) (\<lambda>v. Inr (tx\<lparr>al_ChainID := Some v\<rparr>))
        else if num = 2 then bnd (as_varint ''nonce'' pl) (\<lambda>v. Inr (tx\<lparr>al_Nonce := v\<rparr>))
        else if num = 3 then bnd (as_int L ''gas_price'' pl) (\<lambda>v. Inr (tx\<lparr>al_GasPrice := Some v\<rparr>))
        else if num = 4 then bnd (as_varint ''gas'' pl) (\<lambda>v. Inr (tx\<lparr>al_GasLimit := v\<rparr>))
        else if num = 5 then bnd (as_len ''to'' pl) (\<lambda>b. Inr (tx\<lparr>al_To := b\<rparr>))
        else if num = 6 then bnd (as_int L ''amount'' pl) (\<lambda>v. Inr (tx\<lparr>al_Amount := Some v\<rparr>))
        else if num = 7 then bnd (as_len ''data'' pl) (\<lambda>b. Inr (tx\<lparr>al_Data := b\<rparr>))
        else if num = 8 then bnd (as_len ''accesses'' pl) (\<lambda>b. bnd (unmarshalAccessTuple b) (\<lambda>at.
          Inr (tx\<lparr>al_Accesses := al_Accesses tx @ [at]\<rparr>)))
        else if num = 9 then bnd (as_len ''V'' pl) (\<lambda>b. Inr (tx\<lparr>al_V := b\<rparr>))
        else if num = 10 then bnd (as_len ''R'' pl) (\<lambda>b. Inr (tx\<lparr>al_R := b\<rparr>))
        else if num = 11 then bnd (as_len ''S'' pl) (\<lambda>b. Inr (tx\<lparr>al_S := b\<rparr>))
        else Inr tx)"

definition dynamic_fee_upd ::
    "('e, 'g, 't) eth_lib \<Rightarrow> legacyDynamicFeeTx \<Rightarrow> pb_field \<Rightarrow> legacyDynamicFeeTx res" where
  "dynamic_fee_upd L tx fld =
     (case fld of (num, pl) \<Rightarrow>
        if num = 1 then bnd (as_int L ''chain_id'' pl) (\<lambda>v. Inr (tx\<lparr>df_ChainID := Some v\<rparr>))
        else if num = 2 then bnd (as_varint ''nonce'' pl) (\<lambda>v. Inr (tx\<lparr>df_Nonce := v\<rparr>))
        else if num = 3 then bnd (as_int L ''gas_tip_cap'' pl) (\<lambda>v. Inr (tx\<lparr>df_GasTipCap := Some v\<rparr>))
        else if num = 4 then bnd (as_int L ''gas_fee_cap'' pl) (\<lambda>v. Inr (tx\<lparr>df_GasFeeCap := Some v\<rparr>))
        else if num = 5 then bnd (as_varint ''gas'' pl) (\<lambda>v. Inr (tx\<lparr>df_GasLimit := v\<rparr>))
        else if num = 6 then bnd (as_len ''to'' pl) (\<lambda>b. Inr (tx\<lparr>df_To := b\<rparr>))
        else if num = 7 then bnd (as_int L ''amount'' pl) (\<lambda>v. Inr (tx\<lparr>df_Amount := Some v\<rparr>))
        else if num = 8 then bnd (as_len ''data'' pl) (\<lambda>b. Inr (tx\<lparr>df_Data := b\<rparr>))
        else if num = 9 then bnd (as_len ''accesses'' pl) (\<lambda>b. bnd (unmarshalAccessTuple b) (\<lambda>at.
          Inr (tx\<lparr>df_Accesses := df_Accesses tx @ [at]\<rparr>)))
        else if num = 10 then bnd (as_len ''V'' pl) (\<lambda>b. Inr (tx\<lparr>df_V := b\<rparr>))
        else if num = 11 then bnd (as_len ''R'' pl) (\<lambda>b. Inr (tx\<lparr>df_R := b\<rparr>))
        else if num = 12 then bnd (as_len ''S'' pl) (\<lambda>b. Inr (tx\<lparr>df_S := b\<rparr>))
        else Inr tx)"

section \<open>Instances\<close>

lemmas value_enc = varint_value_enc len_value_enc int_value_enc skip_value_enc

interpretation legacy_dec: field_decoder "legacy_body L" "legacy_upd L" for L
  by unfold_locales (simp add: legacy_body_def legacy_upd_def value_enc bnd_assoc)

interpretation tuple_dec: field_decoder tuple_body tuple_upd
  by unfold_locales (simp add: tuple_body_def tuple_upd_def value_enc bnd_assoc)

interpretation access_list_dec: field_decoder "access_list_body L" "access_list_upd L" for L
  by unfold_locales (simp add: access_list_body_def access_list_upd_def value_enc bnd_assoc)

interpretation dynamic_fee_dec: field_decoder "dynamic_fee_body L" "dynamic_fee_upd L" for L
  by unfold_locales (simp add: dynamic_fee_body_def dynamic_fee_upd_def value_enc bnd_assoc)

lemma any_step:
  assumes "payload_ok pl" and small: "small (p @ enc_payload pl @ q)"
  shows "any_body (p @ enc_payload pl @ q) any (int num) (int (wire_type pl)) (int (length p)) =
    bnd (any_upd any (num, pl)) (\<lambda>any'. Inr (Continue any' (int (length p + length (enc_payload pl)))))"
proof (cases pl)
  case (LenP b)
  have "small (p @ enc_payload (LenP b) @ q)" using small LenP by simp
  note w = len_window_at [OF this] slice_window [of p b q]
  show ?thesis by (simp add: LenP any_body_def any_upd_def w del: enc_payload.simps of_nat_add)
qed (use assms in \<open>simp_all add: any_body_def any_upd_def slice_from_append protoDecodeVarint_varint
      length_varint\<close>)

interpretation any_dec: field_decoder any_body any_upd
  by unfold_locales (rule any_step)

lemma le_uint64_append: "length b = 8 \<Longrightarrow> le_uint64 (b @ q) = le_uint64 b"
  by (simp add: le_uint64_def)

lemma msg_step:
  assumes ok: "payload_ok pl" and small: "small (p @ enc_payload pl @ q)"
  shows "msg_body (p @ enc_payload pl @ q) msg (int num) (int (wire_type pl)) (int (length p)) =
    bnd (msg_upd msg (num, pl)) (\<lambda>msg'. Inr (Continue msg' (int (length p + length (enc_payload pl)))))"
proof (cases pl)
  case (LenP b)
  have "small (p @ enc_payload (LenP b) @ q)" using small LenP by simp
  note w = len_window_at [OF this] slice_window [of p b q]
  show ?thesis
    using skip_value_enc [OF small ok]
    by (simp add: LenP msg_body_def msg_upd_def w bnd_assoc del: enc_payload.simps of_nat_add)
next
  case (Fix64P b)
  then show ?thesis
    using skip_value_enc [OF small ok] ok
    by (simp add: msg_body_def msg_upd_def slice_from_append le_uint64_append)
qed (use skip_value_enc [OF small ok] in \<open>simp_all add: msg_body_def msg_upd_def\<close>)

interpretation msg_dec: field_decoder msg_body msg_upd
  by unfold_locales (rule msg_step)

end
