(* ===== verification/Legacy_Codec.thy ===== *)
theory Legacy_Codec
  imports Legacy_Decode
begin

text \<open>
  The encodings the old EVM module produced (zero values left out, as the builder of
  \<open>app/legacy_ethtx_test.go\<close> does), and that the decoders invert them: the three transaction types,
  the message around them, and the whole old transaction.
\<close>

definition var_field :: "nat \<Rightarrow> 64 word \<Rightarrow> pb_field list" where
  "var_field num v = (if v \<noteq> 0 then [(num, VarP v)] else [])"

definition bytes_field :: "nat \<Rightarrow> bytes \<Rightarrow> pb_field list" where
  "bytes_field num b = (if b \<noteq> [] then [(num, LenP b)] else [])"

definition int_field :: "(int \<Rightarrow> bytes) \<Rightarrow> nat \<Rightarrow> int_ptr \<Rightarrow> pb_field list" where
  "int_field M num x = (case x of Some (Some v) \<Rightarrow> [(num, LenP (M v))] | _ \<Rightarrow> [])"

text \<open>A pointer that is nil or to a value the codec \<open>M\<close> and the library's \<open>Unmarshal\<close> agree on.\<close>

definition int_ok :: "('e, 'g, 't) eth_lib \<Rightarrow> (int \<Rightarrow> bytes) \<Rightarrow> int_ptr \<Rightarrow> bool" where
  "int_ok L M x \<longleftrightarrow>
     (case x of None \<Rightarrow> True | Some None \<Rightarrow> False | Some (Some v) \<Rightarrow> Int_Unmarshal L (M v) = Inr (Some v))"

text \<open>A pointer that is nil or to a value in the range of the library's integers.\<close>

definition ptr_fits :: "int_ptr \<Rightarrow> bool" where
  "ptr_fits x \<longleftrightarrow> (case x of None \<Rightarrow> True | Some None \<Rightarrow> False | Some (Some v) \<Rightarrow> int_fits v)"

lemmas field_list_defs = var_field_def bytes_field_def int_field_def

section \<open>Access tuples\<close>

definition tuple_fields :: "legacyAccessTuple \<Rightarrow> pb_field list" where
  "tuple_fields t = bytes_field 1 (at_Address t) @ map (\<lambda>k. (2, LenP k)) (StorageKeys t)"

lemma length_enc_member: "(num, LenP b) \<in> set flds \<Longrightarrow> length b \<le> length (enc_fields flds)"
  by (induction flds) auto

lemma small_member: "small (enc_fields flds) \<Longrightarrow> (num, LenP b) \<in> set flds \<Longrightarrow> small b"
  using length_enc_member [of num b flds] by (simp add: small_def)

lemma tuple_keys_fold:
  "foldM tuple_upd t (map (\<lambda>k. (2, LenP k)) ks) = Inr (t\<lparr>StorageKeys := StorageKeys t @ ks\<rparr>)"
  by (induction ks arbitrary: t) (simp_all add: tuple_upd_def as_len_def)

lemma tuple_roundtrip:
  assumes "small (enc_fields (tuple_fields t))"
  shows "unmarshalAccessTuple (enc_fields (tuple_fields t)) = Inr t"
proof -
  have "list_all field_ok (tuple_fields t)"
    by (auto simp: tuple_fields_def bytes_field_def list_all_iff)
  then have "unmarshalAccessTuple (enc_fields (tuple_fields t)) = foldM tuple_upd no_tuple (tuple_fields t)"
    unfolding unmarshalAccessTuple_def using assms by (simp add: tuple_dec.run)
  also have "foldM tuple_upd no_tuple (bytes_field 1 (at_Address t)) =
      Inr (no_tuple\<lparr>at_Address := at_Address t\<rparr>)"
    by (simp add: bytes_field_def tuple_upd_def as_len_def no_tuple_def)
  then have "foldM tuple_upd no_tuple (tuple_fields t) = Inr t"
    by (simp add: tuple_fields_def foldM_append tuple_keys_fold no_tuple_def del: One_nat_def)
  finally show ?thesis .
qed

section \<open>Transaction data\<close>

definition legacy_fields :: "(int \<Rightarrow> bytes) \<Rightarrow> legacyLegacyTx \<Rightarrow> pb_field list" where
  "legacy_fields M tx =
     var_field 1 (lt_Nonce tx) @ int_field M 2 (lt_GasPrice tx) @ var_field 3 (lt_GasLimit tx) @
     bytes_field 4 (lt_To tx) @ int_field M 5 (lt_Amount tx) @ bytes_field 6 (lt_Data tx) @
     bytes_field 7 (lt_V tx) @ bytes_field 8 (lt_R tx) @ bytes_field 9 (lt_S tx)"

definition access_fields :: "nat \<Rightarrow> legacyAccessTuple list \<Rightarrow> pb_field list" where
  "access_fields num ts = map (\<lambda>t. (num, LenP (enc_fields (tuple_fields t)))) ts"

definition access_list_fields :: "(int \<Rightarrow> bytes) \<Rightarrow> legacyAccessListTx \<Rightarrow> pb_field list" where
  "access_list_fields M tx =
     int_field M 1 (al_ChainID tx) @ var_field 2 (al_Nonce tx) @ int_field M 3 (al_GasPrice tx) @
     var_field 4 (al_GasLimit tx) @ bytes_field 5 (al_To tx) @ int_field M 6 (al_Amount tx) @
     bytes_field 7 (al_Data tx) @ access_fields 8 (al_Accesses tx) @
     bytes_field 9 (al_V tx) @ bytes_field 10 (al_R tx) @ bytes_field 11 (al_S tx)"

definition dynamic_fee_fields :: "(int \<Rightarrow> bytes) \<Rightarrow> legacyDynamicFeeTx \<Rightarrow> pb_field list" where
  "dynamic_fee_fields M tx =
     int_field M 1 (df_ChainID tx) @ var_field 2 (df_Nonce tx) @ int_field M 3 (df_GasTipCap tx) @
     int_field M 4 (df_GasFeeCap tx) @ var_field 5 (df_GasLimit tx) @ bytes_field 6 (df_To tx) @
     int_field M 7 (df_Amount tx) @ bytes_field 8 (df_Data tx) @ access_fields 9 (df_Accesses tx) @
     bytes_field 10 (df_V tx) @ bytes_field 11 (df_R tx) @ bytes_field 12 (df_S tx)"

lemma field_list_ok [simp]:
  "num < 2 ^ 61 \<Longrightarrow> list_all field_ok (var_field num v)"
  "num < 2 ^ 61 \<Longrightarrow> list_all field_ok (bytes_field num b)"
  "num < 2 ^ 61 \<Longrightarrow> list_all field_ok (int_field M num x)"
  "num < 2 ^ 61 \<Longrightarrow> list_all field_ok (access_fields num ts)"
  by (auto simp: field_list_defs access_fields_def list_all_iff split: option.split)

text \<open>A field list that sets one component, on a message that has the zero value there.\<close>

lemma legacy_put:
  "lt_Nonce s = 0 \<Longrightarrow> foldM (legacy_upd L) s (var_field 1 v) = Inr (s\<lparr>lt_Nonce := v\<rparr>)"
  "lt_GasPrice s = None \<Longrightarrow> int_ok L M x \<Longrightarrow>
     foldM (legacy_upd L) s (int_field M 2 x) = Inr (s\<lparr>lt_GasPrice := x\<rparr>)"
  "lt_GasLimit s = 0 \<Longrightarrow> foldM (legacy_upd L) s (var_field 3 v) = Inr (s\<lparr>lt_GasLimit := v\<rparr>)"
  "lt_To s = [] \<Longrightarrow> foldM (legacy_upd L) s (bytes_field 4 b) = Inr (s\<lparr>lt_To := b\<rparr>)"
  "lt_Amount s = None \<Longrightarrow> int_ok L M x \<Longrightarrow>
     foldM (legacy_upd L) s (int_field M 5 x) = Inr (s\<lparr>lt_Amount := x\<rparr>)"
  "lt_Data s = [] \<Longrightarrow> foldM (legacy_upd L) s (bytes_field 6 b) = Inr (s\<lparr>lt_Data := b\<rparr>)"
  "lt_V s = [] \<Longrightarrow> foldM (legacy_upd L) s (bytes_field 7 b) = Inr (s\<lparr>lt_V := b\<rparr>)"
  "lt_R s = [] \<Longrightarrow> foldM (legacy_upd L) s (bytes_field 8 b) = Inr (s\<lparr>lt_R := b\<rparr>)"
  "lt_S s = [] \<Longrightarrow> foldM (legacy_upd L) s (bytes_field 9 b) = Inr (s\<lparr>lt_S := b\<rparr>)"
  by (cases s; simp add: field_list_defs legacy_upd_def as_varint_def as_len_def as_int_def int_ok_def
      split: option.splits)+

lemma legacy_roundtrip:
  assumes "small (enc_fields (legacy_fields M tx))" "int_ok L M (lt_GasPrice tx)" "int_ok L M (lt_Amount tx)"
  shows "unmarshalLegacyTx L (enc_fields (legacy_fields M tx)) = Inr tx"
proof -
  have "list_all field_ok (legacy_fields M tx)" by (simp add: legacy_fields_def)
  then have "unmarshalLegacyTx L (enc_fields (legacy_fields M tx)) =
      foldM (legacy_upd L) no_legacy (legacy_fields M tx)"
    unfolding unmarshalLegacyTx_def using assms(1) by (simp add: legacy_dec.run)
  also have "\<dots> = Inr tx"
    using assms(2,3) by (simp add: legacy_fields_def foldM_append legacy_put no_legacy_def del: One_nat_def)
  finally show ?thesis .
qed

lemma access_list_put:
  "al_ChainID s = None \<Longrightarrow> int_ok L M x \<Longrightarrow>
     foldM (access_list_upd L) s (int_field M 1 x) = Inr (s\<lparr>al_ChainID := x\<rparr>)"
  "al_Nonce s = 0 \<Longrightarrow> foldM (access_list_upd L) s (var_field 2 v) = Inr (s\<lparr>al_Nonce := v\<rparr>)"
  "al_GasPrice s = None \<Longrightarrow> int_ok L M x \<Longrightarrow>
     foldM (access_list_upd L) s (int_field M 3 x) = Inr (s\<lparr>al_GasPrice := x\<rparr>)"
  "al_GasLimit s = 0 \<Longrightarrow> foldM (access_list_upd L) s (var_field 4 v) = Inr (s\<lparr>al_GasLimit := v\<rparr>)"
  "al_To s = [] \<Longrightarrow> foldM (access_list_upd L) s (bytes_field 5 b) = Inr (s\<lparr>al_To := b\<rparr>)"
  "al_Amount s = None \<Longrightarrow> int_ok L M x \<Longrightarrow>
     foldM (access_list_upd L) s (int_field M 6 x) = Inr (s\<lparr>al_Amount := x\<rparr>)"
  "al_Data s = [] \<Longrightarrow> foldM (access_list_upd L) s (bytes_field 7 b) = Inr (s\<lparr>al_Data := b\<rparr>)"
  "al_V s = [] \<Longrightarrow> foldM (access_list_upd L) s (bytes_field 9 b) = Inr (s\<lparr>al_V := b\<rparr>)"
  "al_R s = [] \<Longrightarrow> foldM (access_list_upd L) s (bytes_field 10 b) = Inr (s\<lparr>al_R := b\<rparr>)"
  "al_S s = [] \<Longrightarrow> foldM (access_list_upd L) s (bytes_field 11 b) = Inr (s\<lparr>al_S := b\<rparr>)"
  by (cases s; simp add: field_list_defs access_list_upd_def as_varint_def as_len_def as_int_def int_ok_def
      split: option.splits)+

lemma access_list_accesses:
  assumes "\<And>t. t \<in> set ts \<Longrightarrow> small (enc_fields (tuple_fields t))"
  shows "foldM (access_list_upd L) s (access_fields 8 ts) = Inr (s\<lparr>al_Accesses := al_Accesses s @ ts\<rparr>)"
  using assms
  by (induction ts arbitrary: s)
    (simp_all add: access_fields_def access_list_upd_def as_len_def tuple_roundtrip)

lemma access_list_roundtrip:
  assumes small: "small (enc_fields (access_list_fields M tx))"
    and "int_ok L M (al_ChainID tx)" "int_ok L M (al_GasPrice tx)" "int_ok L M (al_Amount tx)"
  shows "unmarshalAccessListTx L (enc_fields (access_list_fields M tx)) = Inr tx"
proof -
  have "list_all field_ok (access_list_fields M tx)" by (simp add: access_list_fields_def)
  then have "unmarshalAccessListTx L (enc_fields (access_list_fields M tx)) =
      foldM (access_list_upd L) no_access_list (access_list_fields M tx)"
    unfolding unmarshalAccessListTx_def using small by (simp add: access_list_dec.run)
  moreover have "small (enc_fields (tuple_fields t))" if "t \<in> set (al_Accesses tx)" for t
    using that by (intro small_member [OF small, of 8]) (auto simp: access_list_fields_def access_fields_def)
  then have "foldM (access_list_upd L) no_access_list (access_list_fields M tx) = Inr tx"
    using assms(2-4)
    by (simp add: access_list_fields_def foldM_append access_list_put access_list_accesses no_access_list_def
        del: One_nat_def)
  ultimately show ?thesis by simp
qed

lemma dynamic_fee_put:
  "df_ChainID s = None \<Longrightarrow> int_ok L M x \<Longrightarrow>
     foldM (dynamic_fee_upd L) s (int_field M 1 x) = Inr (s\<lparr>df_ChainID := x\<rparr>)"
  "df_Nonce s = 0 \<Longrightarrow> foldM (dynamic_fee_upd L) s (var_field 2 v) = Inr (s\<lparr>df_Nonce := v\<rparr>)"
  "df_GasTipCap s = None \<Longrightarrow> int_ok L M x \<Longrightarrow>
     foldM (dynamic_fee_upd L) s (int_field M 3 x) = Inr (s\<lparr>df_GasTipCap := x\<rparr>)"
  "df_GasFeeCap s = None \<Longrightarrow> int_ok L M x \<Longrightarrow>
     foldM (dynamic_fee_upd L) s (int_field M 4 x) = Inr (s\<lparr>df_GasFeeCap := x\<rparr>)"
  "df_GasLimit s = 0 \<Longrightarrow> foldM (dynamic_fee_upd L) s (var_field 5 v) = Inr (s\<lparr>df_GasLimit := v\<rparr>)"
  "df_To s = [] \<Longrightarrow> foldM (dynamic_fee_upd L) s (bytes_field 6 b) = Inr (s\<lparr>df_To := b\<rparr>)"
  "df_Amount s = None \<Longrightarrow> int_ok L M x \<Longrightarrow>
     foldM (dynamic_fee_upd L) s (int_field M 7 x) = Inr (s\<lparr>df_Amount := x\<rparr>)"
  "df_Data s = [] \<Longrightarrow> foldM (dynamic_fee_upd L) s (bytes_field 8 b) = Inr (s\<lparr>df_Data := b\<rparr>)"
  "df_V s = [] \<Longrightarrow> foldM (dynamic_fee_upd L) s (bytes_field 10 b) = Inr (s\<lparr>df_V := b\<rparr>)"
  "df_R s = [] \<Longrightarrow> foldM (dynamic_fee_upd L) s (bytes_field 11 b) = Inr (s\<lparr>df_R := b\<rparr>)"
  "df_S s = [] \<Longrightarrow> foldM (dynamic_fee_upd L) s (bytes_field 12 b) = Inr (s\<lparr>df_S := b\<rparr>)"
  by (cases s; simp add: field_list_defs dynamic_fee_upd_def as_varint_def as_len_def as_int_def int_ok_def
      split: option.splits)+

lemma dynamic_fee_accesses:
  assumes "\<And>t. t \<in> set ts \<Longrightarrow> small (enc_fields (tuple_fields t))"
  shows "foldM (dynamic_fee_upd L) s (access_fields 9 ts) = Inr (s\<lparr>df_Accesses := df_Accesses s @ ts\<rparr>)"
  using assms
  by (induction ts arbitrary: s)
    (simp_all add: access_fields_def dynamic_fee_upd_def as_len_def tuple_roundtrip)

lemma dynamic_fee_roundtrip:
  assumes small: "small (enc_fields (dynamic_fee_fields M tx))"
    and "int_ok L M (df_ChainID tx)" "int_ok L M (df_GasTipCap tx)" "int_ok L M (df_GasFeeCap tx)"
    "int_ok L M (df_Amount tx)"
  shows "unmarshalDynamicFeeTx L (enc_fields (dynamic_fee_fields M tx)) = Inr tx"
proof -
  have "list_all field_ok (dynamic_fee_fields M tx)" by (simp add: dynamic_fee_fields_def)
  then have "unmarshalDynamicFeeTx L (enc_fields (dynamic_fee_fields M tx)) =
      foldM (dynamic_fee_upd L) no_dynamic_fee (dynamic_fee_fields M tx)"
    unfolding unmarshalDynamicFeeTx_def using small by (simp add: dynamic_fee_dec.run)
  moreover have "small (enc_fields (tuple_fields t))" if "t \<in> set (df_Accesses tx)" for t
    using that by (intro small_member [OF small, of 9]) (auto simp: dynamic_fee_fields_def access_fields_def)
  then have "foldM (dynamic_fee_upd L) no_dynamic_fee (dynamic_fee_fields M tx) = Inr tx"
    using assms(2-5)
    by (simp add: dynamic_fee_fields_def foldM_append dynamic_fee_put dynamic_fee_accesses no_dynamic_fee_def
        del: One_nat_def)
  ultimately show ?thesis by simp
qed

end
