(* ===== verification/Legacy_Safe.thy ===== *)
theory Legacy_Safe
  imports Legacy_Tx
begin

text \<open>
  When the decoders of \<open>app/legacy_ethtx.go\<close> return normally. The loop only moves forward if no
  varint of the data, read at any position, has its topmost bits set: then no length is negative
  and no sum wraps, no slice expression panics and the loop ends. The locale \<open>safe_decoder\<close> states
  that of a field handler, and every handler of the file is an instance. A length that brings the
  index back to where the field started makes the loop run forever.
\<close>

section \<open>Normal results\<close>

text \<open>A normal result: a value or an error, no panic and no running forever.\<close>

definition calm :: "'a res \<Rightarrow> bool" where
  "calm r \<longleftrightarrow> (case r of Inl e \<Rightarrow> \<not> stops e | Inr _ \<Rightarrow> True)"

text \<open>A reader that gives a value and an index not before \<open>i\<close>; a handler that does not go back.\<close>

definition moves :: "int \<Rightarrow> ('a \<times> int) res \<Rightarrow> bool" where
  "moves i r \<longleftrightarrow> (case r of Inl e \<Rightarrow> \<not> stops e | Inr (x, j) \<Rightarrow> i \<le> j)"

definition goes :: "int \<Rightarrow> ('s, 'r) ctl res \<Rightarrow> bool" where
  "goes i r \<longleftrightarrow> (case r of Inl e \<Rightarrow> \<not> stops e | Inr (Return _) \<Rightarrow> True | Inr (Continue s j) \<Rightarrow> i \<le> j)"

definition small_varints :: "bytes \<Rightarrow> bool" where
  "small_varints data \<longleftrightarrow> int (length data) < 4611686018427387904 \<and>
     list_all (\<lambda>k. uint (fst (protoDecodeVarint (drop k data))) < 4611686018427387904) [0..<length data]"

lemma calm_simps [simp]: "calm (Inr x)" "calm (Inl e) \<longleftrightarrow> \<not> stops e"
  by (simp_all add: calm_def)

lemma calm_bnd: "calm m \<Longrightarrow> (\<And>x. m = Inr x \<Longrightarrow> calm (f x)) \<Longrightarrow> calm (bnd m f)"
  by (cases m) simp_all

lemma calm_wrap_err: "calm m \<Longrightarrow> \<not> stops e \<Longrightarrow> calm (wrap_err e m)"
  by (cases m) simp_all

lemma calm_require: "\<not> stops e \<Longrightarrow> calm (require b e)"
  by (cases b) simp_all

lemma goes_bnd:
  "calm m \<Longrightarrow> (\<And>x. m = Inr x \<Longrightarrow> goes i (f x)) \<Longrightarrow> goes i (bnd m f)"
  by (cases m) (simp_all add: goes_def)

lemma goes_moves:
  "moves i m \<Longrightarrow> (\<And>x j. m = Inr (x, j) \<Longrightarrow> i \<le> j \<Longrightarrow> goes i (f (x, j))) \<Longrightarrow> goes i (bnd m f)"
  by (cases m) (auto simp: goes_def moves_def)

lemma goes_Inr [simp]: "goes i (Inr (Continue s j)) \<longleftrightarrow> i \<le> j" "goes i (Inr (Return r))"
  by (simp_all add: goes_def)

lemma goes_Inl [simp]: "goes i (Inl e) \<longleftrightarrow> \<not> stops e"
  by (simp add: goes_def)

section \<open>Varints\<close>

lemma protoDecodeVarint_Nil [simp]: "protoDecodeVarint [] = (0, 0)"
  by (simp add: protoDecodeVarint_def)

lemma varint_loop_length:
  "varint_loop acc k d = (v, n) \<Longrightarrow> n = 0 \<and> v = 0 \<or> int k < n \<and> n \<le> int k + int (length d)"
  by (induction acc k d rule: varint_loop.induct) (auto simp: Let_def split: if_splits)

lemma varint_length:
  "protoDecodeVarint d = (v, n) \<Longrightarrow> n = 0 \<and> v = 0 \<or> 0 < n \<and> n \<le> int (length d)"
  unfolding protoDecodeVarint_def by (drule varint_loop_length) auto

lemma varint_loop_prefix:
  "varint_loop acc k (d @ e) = (v, n) \<Longrightarrow> varint_loop acc k d = (0, 0) \<or> varint_loop acc k d = (v, n)"
  by (induction acc k d rule: varint_loop.induct) (auto simp: Let_def split: if_splits)

lemma small_varints_at:
  assumes "small_varints data" "k \<le> length data" "protoDecodeVarint (drop k data) = (v, n)"
  shows "uint v < 2 ^ 62"
proof (cases "k = length data")
  case False
  with assms(1,2) have "uint (fst (protoDecodeVarint (drop k data))) < 2 ^ 62"
    by (simp add: small_varints_def list_all_iff)
  with assms(3) show ?thesis by simp
qed (use assms(3) in simp)

lemma small_varints_slice:
  assumes s: "small_varints data" and b: "slice_range data i j = Inr b"
  shows "small_varints b"
proof -
  have ij: "0 \<le> i" "i \<le> j" "j \<le> int (length data)" and b': "b = take (nat (j - i)) (drop (nat i) data)"
    using b by (auto simp: slice_range_def split: if_splits)
  have "uint (fst (protoDecodeVarint (drop k b))) < 2 ^ 62" if k: "k \<le> length b" for k
  proof -
    obtain v n where vn: "protoDecodeVarint (drop (nat i + k) data) = (v, n)" by fastforce
    have "drop (nat i + k) data = drop k b @ drop (nat (j - i)) (drop (nat i) data)"
      using k append_take_drop_id [of "nat (j - i)" "drop (nat i) data"]
      unfolding b' by (metis drop_append drop_drop add.commute drop_0 diff_is_0_eq' append_Nil2)
    then have "protoDecodeVarint (drop k b) = (0, 0) \<or> protoDecodeVarint (drop k b) = (v, n)"
      using vn varint_loop_prefix unfolding protoDecodeVarint_def by metis
    moreover have "uint v < 2 ^ 62"
      using small_varints_at [OF s _ vn] k ij b' by simp
    ultimately show ?thesis by auto
  qed
  moreover have "length b \<le> length data" using b' by simp
  ultimately show ?thesis using s by (auto simp: small_varints_def list_all_iff)
qed

lemma sint_small: "uint (v :: 64 word) < 2 ^ 62 \<Longrightarrow> sint v = uint v"
proof -
  assume v: "uint v < 2 ^ 62"
  have "- (2 ^ 63) \<le> (0::int)" "0 \<le> uint v" by simp_all
  then have "- (2 ^ 63) \<le> uint v" by (rule order_trans)
  with v show ?thesis unfolding sint_uint by (intro signed_take_bit_int_eq_self) simp_all
qed

lemma wrap64_mid: "0 \<le> x \<Longrightarrow> x < 9223372036854775808 \<Longrightarrow> wrap64 x = x"
  by (simp add: wrap64_def)

section \<open>Readers\<close>

lemma varint_at:
  assumes "small_varints data" "0 \<le> i" "i \<le> int (length data)"
  obtains v n where "slice_from data i = Inr (drop (nat i) data)"
    "protoDecodeVarint (drop (nat i) data) = (v, n)" "n = 0 \<or> 0 < n \<and> i + n \<le> int (length data)"
    "sint v = uint v" "uint v < 4611686018427387904" "0 \<le> uint v"
    "int (length data) < 4611686018427387904"
proof -
  obtain v n where vn: "protoDecodeVarint (drop (nat i) data) = (v, n)" by fastforce
  have "uint v < 2 ^ 62" using small_varints_at [OF assms(1) _ vn] assms(3) by simp
  with vn varint_length [OF vn] assms that sint_small [of v] show thesis
    by (auto simp: slice_from_def small_varints_def)
qed

lemma varint_value_moves:
  assumes "small_varints data" "0 \<le> i" "i \<le> int (length data)"
  shows "moves i (varint_value name w data i)"
  using assms
proof (rule varint_at)
  fix v n
  assume "slice_from data i = Inr (drop (nat i) data)" "protoDecodeVarint (drop (nat i) data) = (v, n)"
    "n = 0 \<or> 0 < n \<and> i + n \<le> int (length data)"
  then show ?thesis by (cases "w = 0") (auto simp: varint_value_def moves_def)
qed

lemma len_value_moves:
  assumes "small_varints data" "0 \<le> i" "i \<le> int (length data)"
  shows "moves i (len_value name w data i)"
    and "len_value name w data i = Inr (b, j) \<Longrightarrow> small_varints b"
proof -
  let ?d = "drop (nat i) data"
  obtain v n where d: "slice_from data i = Inr ?d" "protoDecodeVarint ?d = (v, n)"
    and n: "n = 0 \<or> 0 < n \<and> i + n \<le> int (length data)" and v: "sint v = uint v" "uint v < 4611686018427387904" "0 \<le> uint v"
    and len: "int (length data) < 4611686018427387904"
    using varint_at [OF assms] by metis
  have sd: "small_varints ?d"
    using small_varints_slice [OF assms(1), of i "int (length data)"] assms(2,3)
    by (simp add: slice_range_def nat_diff_distrib)
  have "wrap64 (n + sint v) = n + uint v"
    using n v len assms(2,3) by (subst v(1), intro wrap64_mid) linarith+
  then have r: "n \<noteq> 0 \<Longrightarrow> readLenDelimited ?d = (if int (length ?d) < n + uint v then Inl ErrUnexpectedEOF
      else bnd (slice_range ?d n (n + uint v)) (\<lambda>b. Inr (b, n + uint v)))"
    by (simp add: readLenDelimited_def d Let_def)
  show "moves i (len_value name w data i)"
    using n d r by (cases "w = 2"; cases "n = 0")
      (auto simp: len_value_def moves_def slice_range_def readLenDelimited_def)
  show "small_varints b" if "len_value name w data i = Inr (b, j)"
  proof -
    from that d have "\<exists>m. readLenDelimited ?d = Inr (b, m)" by (auto simp: len_value_def)
    then have "\<exists>m k. slice_range ?d m k = Inr b" by (auto simp: readLenDelimited_def Let_def split: prod.splits)
    then show ?thesis using small_varints_slice [OF sd] by blast
  qed
qed

lemma skip_value_moves:
  assumes "small_varints data" "0 \<le> i" "i \<le> int (length data)"
  shows "calm (skip_value w data i)" and "skip_value w data i = Inr j \<Longrightarrow> i \<le> j"
proof -
  let ?d = "drop (nat i) data"
  obtain v n where d: "slice_from data i = Inr ?d" "protoDecodeVarint ?d = (v, n)"
    and n: "n = 0 \<or> 0 < n \<and> i + n \<le> int (length data)" and v: "sint v = uint v" "uint v < 4611686018427387904" "0 \<le> uint v"
    and len: "int (length data) < 4611686018427387904"
    using varint_at [OF assms] by metis
  have 1: "wrap64 (n + uint v) = n + uint v" "wrap64 (i + (n + uint v)) = i + (n + uint v)"
    "wrap64 (i + n) = i + n" "wrap64 (i + 8) = i + 8" "wrap64 (i + 4) = i + 4"
    using n v len assms(2,3) by (rule_tac [!] wrap64_mid) linarith+
  show "calm (skip_value w data i)" "skip_value w data i = Inr j \<Longrightarrow> i \<le> j"
    using n v(3)
    by (auto simp: skip_value_def skipProtoField_def d v 1 split: if_splits intro!: calm_bnd calm_require)
qed

lemma len_window_moves:
  assumes "small_varints data" "0 \<le> i" "i \<le> int (length data)"
  shows "calm (len_window name data i)"
    and "len_window name data i = Inr (k, e) \<Longrightarrow>
      i \<le> e \<and> (\<exists>b. slice_range data k e = Inr b \<and> small_varints b)"
proof -
  let ?d = "drop (nat i) data"
  obtain v n where d: "slice_from data i = Inr ?d" "protoDecodeVarint ?d = (v, n)"
    and n: "n = 0 \<or> 0 < n \<and> i + n \<le> int (length data)" and v: "sint v = uint v" "uint v < 4611686018427387904" "0 \<le> uint v"
    and len: "int (length data) < 4611686018427387904"
    using varint_at [OF assms] by metis
  have 1: "wrap64 (i + n + uint v) = i + n + uint v"
    using n v len assms(2,3) by (intro wrap64_mid) linarith+
  show "calm (len_window name data i)"
    by (auto simp: len_window_def d v 1 Let_def intro!: calm_bnd calm_require)
  assume "len_window name data i = Inr (k, e)"
  then have ke: "k = i + n" "e = i + n + uint v" "e \<le> int (length data)" "n \<noteq> 0"
    by (auto simp: len_window_def d v 1 Let_def)
  moreover from this n assms(2) v(3)
  have "\<exists>b. slice_range data k e = Inr b" by (simp add: slice_range_def)
  ultimately show "i \<le> e \<and> (\<exists>b. slice_range data k e = Inr b \<and> small_varints b)"
    using n small_varints_slice [OF assms(1)] v(3) by auto
qed

section \<open>The loop\<close>

text \<open>What the loop returns: a returned value, or the end of the data with the state's invariant.\<close>

lemma field_loop_result:
  assumes "field_loop body finish data s i = Some x"
    and "\<And>s f w j r. body data s f w j = Inr (Return r) \<Longrightarrow> P r"
    and "\<And>s f w j s' k. Q s \<Longrightarrow> body data s f w j = Inr (Continue s' k) \<Longrightarrow> Q s'"
    and "\<And>s r. Q s \<Longrightarrow> finish s = Inr r \<Longrightarrow> P r"
    and "Q s" and "x = Inr r"
  shows "P r"
proof -
  have "bd = body \<longrightarrow> fin = finish \<longrightarrow> d = data \<longrightarrow> Q t \<longrightarrow> (\<forall>r. y = Inr r \<longrightarrow> P r)"
    if "field_loop bd fin d t j = Some y" for bd fin d t j y
  proof (rule field_loop.raw_induct [where P = "\<lambda>bd fin d t j y.
        bd = body \<longrightarrow> fin = finish \<longrightarrow> d = data \<longrightarrow> Q t \<longrightarrow> (\<forall>r. y = Inr r \<longrightarrow> P r)", OF _ that], goal_cases)
    case (1 loop bd fin d t j y)
    show ?case
    proof (intro impI allI)
      fix r assume eq: "bd = body" "fin = finish" "d = data" and Q: "Q t" and y: "y = Inr r"
      show "P r"
      proof (cases "j < int (length d)")
        case False
        with 1(2) eq Q y assms(4) show ?thesis by auto
      next
        case True
        then obtain f w k c where c: "read_tag d j = Inr (f, w, k)" "bd d t f w k = Inr c"
          using 1(2) y by (auto split: sum.splits)
        show ?thesis
        proof (cases c)
          case (Return r')
          with c True 1(2) y have "r' = r" by simp
          with Return c eq assms(2) show ?thesis by blast
        next
          case (Continue t' k')
          with c True 1(2) have "loop bd fin d t' k' = Some y" by simp
          with 1(1) [OF this] eq y Q assms(3) c Continue show ?thesis by blast
        qed
      qed
    qed
  qed
  with assms show ?thesis by blast
qed

lemma run_fields_result:
  assumes "run_fields body finish data s = Inr r"
    and "\<And>s f w j r. body data s f w j = Inr (Return r) \<Longrightarrow> P r"
    and "\<And>s f w j s' k. Q s \<Longrightarrow> body data s f w j = Inr (Continue s' k) \<Longrightarrow> Q s'"
    and "\<And>s r. Q s \<Longrightarrow> finish s = Inr r \<Longrightarrow> P r"
    and "Q s"
  shows "P r"
proof -
  have "field_loop body finish data s 0 = Some (Inr r)"
    using assms(1) by (auto simp: run_fields_def split: option.splits)
  from field_loop_result [OF this, of P Q] assms(2-5) show ?thesis by blast
qed

text \<open>A field that brings the index back to its own start is read forever.\<close>

lemma field_loop_stuck:
  assumes "i < int (length data)" "read_tag data i = Inr (f, w, j)" "body data s f w j = Inr (Continue s i)"
  shows "field_loop body finish data s i = None"
proof -
  have "bd = body \<longrightarrow> d = data \<longrightarrow> t = s \<longrightarrow> k = i \<longrightarrow> False"
    if "field_loop bd fin d t k = Some y" for bd fin d t k y
  proof (rule field_loop.raw_induct [where P = "\<lambda>bd fin d t k y.
        bd = body \<longrightarrow> d = data \<longrightarrow> t = s \<longrightarrow> k = i \<longrightarrow> False", OF _ that], goal_cases)
    case (1 loop bd fin d t k y)
    then show ?case using assms by auto blast
  qed
  then show ?thesis by (cases "field_loop body finish data s i") (simp, blast)
qed

text \<open>A tag is refused or moves the index forward within the data.\<close>

lemma read_tag_cases:
  assumes "small_varints data" "0 \<le> i" "i < int (length data)"
  obtains (bad) "read_tag data i = Inl (FmtError ''bad varint'')"
  | (tag) f w n where "read_tag data i = Inr (f, w, i + n)" "0 < n" "i + n \<le> int (length data)"
proof -
  obtain v n where d: "slice_from data i = Inr (drop (nat i) data)"
    "protoDecodeVarint (drop (nat i) data) = (v, n)" "n = 0 \<or> 0 < n \<and> i + n \<le> int (length data)"
    using varint_at [OF assms(1,2)] assms(3) by (metis less_imp_le)
  then show thesis
    using bad tag [of "uint (drop_bit 3 v)" "uint (v AND 7)" n] by (cases "n = 0") (simp_all add: read_tag_def)
qed

section \<open>Handlers\<close>

locale safe_decoder =
  fixes body :: "('s, 'r) field_body"
  assumes safe: "small_varints data \<Longrightarrow> 0 \<le> i \<Longrightarrow> i \<le> int (length data) \<Longrightarrow> goes i (body data s f w i)"
begin

lemma loop_calm:
  assumes "small_varints data" "0 \<le> i" "\<And>s. calm (finish s)"
  shows "\<exists>r. field_loop body finish data s i = Some r \<and> calm r"
  using assms(2)
proof (induction "nat (int (length data) - i)" arbitrary: i s rule: less_induct)
  case less
  show ?case
  proof (cases "i < int (length data)")
    case False
    then show ?thesis using assms(3) by (subst field_loop.simps) simp
  next
    case True
    from assms(1) less.prems True show ?thesis
    proof (cases rule: read_tag_cases)
      case bad
      then show ?thesis using True by (subst field_loop.simps) simp
    next
      case (tag f w n)
      then have g: "goes (i + n) (body data s f w (i + n))"
        using less.prems by (intro safe [OF assms(1)]) auto
      have go_on: "\<exists>r. field_loop body finish data s' j = Some r \<and> calm r" if "i + n \<le> j" for s' j
        using that tag True less.prems by (intro less.hyps) auto
      from g show ?thesis
        using tag True go_on
        by (subst field_loop.simps) (auto simp: goes_def split: sum.splits ctl.splits)
    qed
  qed
qed

lemma run_calm:
  assumes "small_varints data" "\<And>s. calm (finish s)"
  shows "calm (run_fields body finish data s)"
  using loop_calm [of data 0 finish s, OF assms(1)] assms(2) by (auto simp: run_fields_def)

end

section \<open>Instances\<close>

lemma extract_goes:
  assumes "small_varints data" "0 \<le> i" "i \<le> int (length data)"
  shows "goes i (extract_body t tw data s f w i)"
  using assms
proof (rule varint_at)
  fix v n
  assume d: "slice_from data i = Inr (drop (nat i) data)" "protoDecodeVarint (drop (nat i) data) = (v, n)"
    and n: "n = 0 \<or> 0 < n \<and> i + n \<le> int (length data)"
  have lw: "goes i (bnd (len_window ''field'' data i) (\<lambda>(i, end_i).
      if f = t \<and> tw = 2 then bnd (slice_range data i end_i) (\<lambda>b. Inr (Return b))
      else Inr (Continue () end_i)))"
    using len_window_moves [OF assms] by (intro goes_bnd) fastforce+
  show ?thesis
    using n assms(2) lw
    by (auto simp: extract_body_def d slice_range_def require_def)
qed

interpretation extract_safe: safe_decoder "extract_body t tw" for t tw
  by unfold_locales (rule extract_goes)

lemma any_goes:
  assumes "small_varints data" "0 \<le> i" "i \<le> int (length data)"
  shows "goes i (any_body data any f w i)"
  using assms
proof (rule varint_at)
  fix v n
  assume d: "slice_from data i = Inr (drop (nat i) data)" "protoDecodeVarint (drop (nat i) data) = (v, n)"
    and n: "n = 0 \<or> 0 < n \<and> i + n \<le> int (length data)"
  have lw: "goes i (bnd (len_window ''Any'' data i) (\<lambda>(i, end_i).
      if f = 1 then bnd (slice_range data i end_i) (\<lambda>b. Inr (Continue (any\<lparr>TypeUrl := b\<rparr>) end_i))
      else if f = 2 then bnd (slice_range data i end_i) (\<lambda>b. Inr (Continue (any\<lparr>any_Value := b\<rparr>) end_i))
      else Inr (Continue any end_i)))"
    using len_window_moves [OF assms] by (intro goes_bnd) fastforce+
  show ?thesis using n lw by (auto simp: any_body_def d)
qed

interpretation any_safe: safe_decoder any_body
  by unfold_locales (rule any_goes)

lemma any_calm: "small_varints b \<Longrightarrow> calm (unmarshalAny b)"
  unfolding unmarshalAny_def by (rule any_safe.run_calm) simp_all

lemma msg_window_goes:
  assumes "small_varints data" "0 \<le> i" "i \<le> int (length data)"
    and "\<And>b k. small_varints b \<Longrightarrow> i \<le> k \<Longrightarrow> goes i (f b k)"
  shows "goes i (bnd (len_window name data i) (\<lambda>(j, e). bnd (slice_range data j e) (\<lambda>b. f b e)))"
  using len_window_moves [OF assms(1-3)] assms(4) by (intro goes_bnd) fastforce+

lemma skip_goes:
  assumes "small_varints data" "0 \<le> i" "i \<le> int (length data)"
  shows "goes i (bnd (skip_value w data i) (\<lambda>i. Inr (Continue tx i)))"
  using skip_value_moves [OF assms] by (intro goes_bnd) simp_all

lemma msg_goes:
  assumes "small_varints data" "0 \<le> i" "i \<le> int (length data)"
  shows "goes i (msg_body data msg f w i)"
proof -
  have "slice_from data i = Inr (drop (nat i) data)" using assms by (simp add: slice_from_def)
  then show ?thesis
    unfolding msg_body_def
    by (auto intro!: goes_bnd [OF calm_require] msg_window_goes [OF assms] skip_goes [OF assms]
        goes_bnd [OF calm_wrap_err] any_calm)
qed

interpretation msg_safe: safe_decoder msg_body
  by unfold_locales (rule msg_goes)

lemma varint_goes:
  assumes "small_varints data" "0 \<le> i" "i \<le> int (length data)"
    and "\<And>v k. i \<le> k \<Longrightarrow> goes i (f (v, k))"
  shows "goes i (bnd (varint_value name w data i) f)"
  using assms(4) varint_value_moves [OF assms(1-3)] by (intro goes_moves) auto

lemma len_goes:
  assumes "small_varints data" "0 \<le> i" "i \<le> int (length data)"
    and "\<And>b k. small_varints b \<Longrightarrow> i \<le> k \<Longrightarrow> goes i (f (b, k))"
  shows "goes i (bnd (len_value name w data i) f)"
  using assms(4) len_value_moves [OF assms(1-3)] by (intro goes_moves) auto

lemma int_goes:
  assumes "small_varints data" "0 \<le> i" "i \<le> int (length data)"
    and "\<And>b. calm (Int_Unmarshal L b)" "\<And>v k. i \<le> k \<Longrightarrow> goes i (f (v, k))"
  shows "goes i (bnd (int_value L name w data i) f)"
  unfolding int_value_def bnd_assoc
  by (rule len_goes [OF assms(1-3)]) (auto simp: bnd_assoc assms(4,5) intro!: goes_bnd [OF calm_wrap_err])

lemma tuple_goes:
  assumes "small_varints data" "0 \<le> i" "i \<le> int (length data)"
  shows "goes i (tuple_body data at f w i)"
  unfolding tuple_body_def by (auto intro!: len_goes [OF assms] skip_goes [OF assms])

interpretation tuple_safe: safe_decoder tuple_body
  by unfold_locales (rule tuple_goes)

lemma tuple_calm: "small_varints b \<Longrightarrow> calm (unmarshalAccessTuple b)"
  unfolding unmarshalAccessTuple_def by (rule tuple_safe.run_calm) simp_all

text \<open>The decoders that call the library's integer codec, which does not panic or run forever.\<close>

lemma tx_goes:
  assumes "small_varints data" "0 \<le> i" "i \<le> int (length data)" "\<And>b. calm (Int_Unmarshal L b)"
  shows "goes i (legacy_body L data lt f w i)" "goes i (access_list_body L data alt f w i)"
    "goes i (dynamic_fee_body L data dft f w i)"
  unfolding legacy_body_def access_list_body_def dynamic_fee_body_def
  by (auto intro!: varint_goes [OF assms(1-3)] len_goes [OF assms(1-3)] int_goes [OF assms]
      skip_goes [OF assms(1-3)] goes_bnd [OF tuple_calm])

lemma tx_calm:
  assumes "\<And>b. calm (Int_Unmarshal L b)" "small_varints b"
  shows "calm (unmarshalLegacyTx L b)" "calm (unmarshalAccessListTx L b)" "calm (unmarshalDynamicFeeTx L b)"
proof -
  have "safe_decoder (legacy_body L)" "safe_decoder (access_list_body L)" "safe_decoder (dynamic_fee_body L)"
    using tx_goes assms(1) by (unfold_locales) blast+
  then show "calm (unmarshalLegacyTx L b)" "calm (unmarshalAccessListTx L b)" "calm (unmarshalDynamicFeeTx L b)"
    unfolding unmarshalLegacyTx_def unmarshalAccessListTx_def unmarshalDynamicFeeTx_def
    using assms(2) by (simp_all add: safe_decoder.run_calm)
qed

end
