(* ===== verification/Legacy_End.thy ===== *)
theory Legacy_End
  imports Legacy_Codec Legacy_Safe
begin

text \<open>
  The old transaction end to end: the message and the transaction around the transaction data, the
  extraction of the message from the transaction, the decoding of a whole old transaction, its
  normal return on data without oversized varints, and the loop that never ends.
\<close>

section \<open>Extraction\<close>

fun first_len :: "nat \<Rightarrow> pb_field list \<Rightarrow> bytes option" where
  "first_len t [] = None"
| "first_len t ((num, pl) # flds) =
     (case pl of LenP b \<Rightarrow> if num = t then Some b else first_len t flds | _ \<Rightarrow> first_len t flds)"

lemma extract_step:
  assumes ok: "payload_ok pl" and small: "small (p @ enc_payload pl @ q)"
  shows "extract_body (int t) 2 (p @ enc_payload pl @ q) () (int num) (int (wire_type pl)) (int (length p)) =
    Inr (if num = t \<and> first_len t [(num, pl)] \<noteq> None then Return (the (first_len t [(num, pl)]))
         else Continue () (int (length p + length (enc_payload pl))))"
proof (cases pl)
  case (LenP b)
  have "small (p @ enc_payload (LenP b) @ q)" using small LenP by simp
  note w = len_window_at [OF this] slice_window [of p b q]
  show ?thesis by (simp add: LenP extract_body_def w del: enc_payload.simps of_nat_add)
qed (use ok in \<open>simp_all add: extract_body_def slice_from_append protoDecodeVarint_varint length_varint\<close>)

lemma extract_loop:
  assumes "list_all field_ok flds" "small (p @ enc_fields flds)"
  shows "field_loop (extract_body (int t) 2) finish (p @ enc_fields flds) () (int (length p)) =
    Some (case first_len t flds of None \<Rightarrow> finish () | Some b \<Rightarrow> Inr b)"
  using assms
proof (induction flds arbitrary: p)
  case Nil
  then show ?case by (subst field_loop.simps) simp
next
  case (Cons fld flds)
  obtain num pl where fld: "fld = (num, pl)" by (cases fld)
  let ?d = "p @ enc_fields (fld # flds)" and ?p = "p @ varint (tag_of num pl)"
  have ok: "num < 2 ^ 61" "payload_ok pl" using Cons.prems(1) fld by auto
  have tag: "read_tag ?d (int (length p)) = Inr (int num, int (wire_type pl), int (length ?p))"
    using read_tag_enc [OF ok(1), of p pl "enc_fields flds"] by (simp add: fld)
  have lt: "int (length p) < int (length ?d)" by (simp add: fld length_varint add_pos_nonneg)
  have body: "extract_body (int t) 2 ?d () (int num) (int (wire_type pl)) (int (length ?p)) =
      Inr (if num = t \<and> first_len t [(num, pl)] \<noteq> None then Return (the (first_len t [(num, pl)]))
           else Continue () (int (length (p @ enc_field fld))))"
    using extract_step [OF ok(2), of ?p "enc_fields flds" t num] Cons.prems(2) by (simp add: fld add.assoc)
  have rec: "field_loop (extract_body (int t) 2) finish ((p @ enc_field fld) @ enc_fields flds) ()
        (int (length (p @ enc_field fld))) =
      Some (case first_len t flds of None \<Rightarrow> finish () | Some b \<Rightarrow> Inr b)"
    using Cons.prems by (intro Cons.IH) simp_all
  show ?case
    using lt tag body rec by (subst field_loop.simps) (auto simp: fld split: payload.splits)
qed

lemma extract_enc:
  assumes "list_all field_ok flds" "small (enc_fields flds)"
  shows "extractProtoField (enc_fields flds) (int t) 2 =
    (case first_len t flds of None \<Rightarrow> Inl (FmtError ''field not found'') | Some b \<Rightarrow> Inr b)"
  using extract_loop [of flds "[]" t] assms by (simp add: extractProtoField_def run_fields_def)

section \<open>Messages\<close>

definition any_fields :: "proto_any \<Rightarrow> pb_field list" where
  "any_fields any = bytes_field 1 (TypeUrl any) @ bytes_field 2 (any_Value any)"

lemma any_roundtrip:
  assumes "small (enc_fields (any_fields any))"
  shows "unmarshalAny (enc_fields (any_fields any)) = Inr any"
proof -
  have "list_all field_ok (any_fields any)" by (simp add: any_fields_def)
  then have "unmarshalAny (enc_fields (any_fields any)) = foldM any_upd no_any (any_fields any)"
    unfolding unmarshalAny_def using assms by (simp add: any_dec.run)
  also have "\<dots> = Inr any"
    by (cases any) (simp add: any_fields_def foldM_append bytes_field_def any_upd_def no_any_def)
  finally show ?thesis .
qed

text \<open>The old message with its transaction data in an \<open>Any\<close>, a hash and a sender.\<close>

definition msg_fields :: "proto_any \<Rightarrow> string \<Rightarrow> string \<Rightarrow> pb_field list" where
  "msg_fields any hash sender =
     (1, LenP (enc_fields (any_fields any))) # bytes_field 3 hash @ bytes_field 4 sender"

lemma msg_roundtrip:
  assumes "small (enc_fields (msg_fields any hash sender))"
  shows "unmarshalLegacyMsgEthereumTx (enc_fields (msg_fields any hash sender)) =
    Inr \<lparr>lm_Data = Some any, lm_Size = 0, lm_Hash = hash, lm_From = sender\<rparr>"
proof -
  have "list_all field_ok (msg_fields any hash sender)" by (simp add: msg_fields_def)
  then have "unmarshalLegacyMsgEthereumTx (enc_fields (msg_fields any hash sender)) =
      foldM msg_upd no_msg (msg_fields any hash sender)"
    unfolding unmarshalLegacyMsgEthereumTx_def using assms by (simp add: msg_dec.run)
  also have "\<dots> = Inr \<lparr>lm_Data = Some any, lm_Size = 0, lm_Hash = hash, lm_From = sender\<rparr>"
    using any_roundtrip [OF small_member [OF assms, of 1]]
    by (simp add: msg_fields_def foldM_append bytes_field_def msg_upd_def no_msg_def)
  finally show ?thesis .
qed

section \<open>The whole transaction\<close>

datatype old_tx = OldLegacy legacyLegacyTx | OldAccessList legacyAccessListTx | OldDynamicFee legacyDynamicFeeTx

fun old_fields :: "(int \<Rightarrow> bytes) \<Rightarrow> old_tx \<Rightarrow> pb_field list" where
  "old_fields M (OldLegacy t) = legacy_fields M t"
| "old_fields M (OldAccessList t) = access_list_fields M t"
| "old_fields M (OldDynamicFee t) = dynamic_fee_fields M t"

fun old_url :: "old_tx \<Rightarrow> string" where
  "old_url (OldLegacy t) = ''/cosmos.evm.vm.v1.LegacyTx''"
| "old_url (OldAccessList t) = ''/cosmos.evm.vm.v1.AccessListTx''"
| "old_url (OldDynamicFee t) = ''/cosmos.evm.vm.v1.DynamicFeeTx''"

fun old_ints :: "old_tx \<Rightarrow> int_ptr list" where
  "old_ints (OldLegacy t) = [lt_GasPrice t, lt_Amount t]"
| "old_ints (OldAccessList t) = [al_ChainID t, al_GasPrice t, al_Amount t]"
| "old_ints (OldDynamicFee t) = [df_ChainID t, df_GasTipCap t, df_GasFeeCap t, df_Amount t]"

text \<open>
  The go-ethereum data an old transaction stands for, from its fields alone: a nil amount counts as
  zero, the empty destination is a contract creation, addresses and storage keys are read by the library, and
  the signature values are big-endian numbers.
\<close>

definition amount_of :: "int_ptr \<Rightarrow> int" where
  "amount_of x = (case x of Some (Some v) \<Rightarrow> v | _ \<Rightarrow> 0)"

definition big_endian :: "bytes \<Rightarrow> int" where
  "big_endian bs = (\<Sum>i < length bs. int (byte_val (bs ! i)) * 256 ^ (length bs - Suc i))"

definition dest_of :: "('e, 'g, 't) eth_lib \<Rightarrow> string \<Rightarrow> bytes option" where
  "dest_of L s = (case s of [] \<Rightarrow> None | c # cs \<Rightarrow> Some (HexToAddress L s))"

fun accesses_of :: "('e, 'g, 't) eth_lib \<Rightarrow> legacyAccessTuple list \<Rightarrow> eth_AccessTuple list" where
  "accesses_of L [] = []"
| "accesses_of L (t # ts) =
     \<lparr>eth_Address = HexToAddress L (at_Address t), eth_StorageKeys = map (HexToHash L) (StorageKeys t)\<rparr> # accesses_of L ts"

fun eth_of :: "('e, 'g, 't) eth_lib \<Rightarrow> old_tx \<Rightarrow> eth_txdata" where
  "eth_of L (OldLegacy t) = LegacyTx \<lparr>el_Nonce = lt_Nonce t, el_GasPrice = Some (amount_of (lt_GasPrice t)),
     el_Gas = lt_GasLimit t, el_To = dest_of L (lt_To t), el_Value = Some (amount_of (lt_Amount t)),
     el_Data = lt_Data t, el_V = Some (big_endian (lt_V t)), el_R = Some (big_endian (lt_R t)),
     el_S = Some (big_endian (lt_S t))\<rparr>"
| "eth_of L (OldAccessList t) = AccessListTx \<lparr>el_Nonce = al_Nonce t,
     el_GasPrice = Some (amount_of (al_GasPrice t)), el_Gas = al_GasLimit t, el_To = dest_of L (al_To t),
     el_Value = Some (amount_of (al_Amount t)), el_Data = al_Data t, el_V = Some (big_endian (al_V t)),
     el_R = Some (big_endian (al_R t)), el_S = Some (big_endian (al_S t)),
     el_ChainID = Some (amount_of (al_ChainID t)), el_AccessList = accesses_of L (al_Accesses t)\<rparr>"
| "eth_of L (OldDynamicFee t) = DynamicFeeTx \<lparr>ed_ChainID = Some (amount_of (df_ChainID t)),
     ed_Nonce = df_Nonce t, ed_GasTipCap = Some (amount_of (df_GasTipCap t)),
     ed_GasFeeCap = Some (amount_of (df_GasFeeCap t)), ed_Gas = df_GasLimit t,
     ed_To = dest_of L (df_To t), ed_Value = Some (amount_of (df_Amount t)), ed_Data = df_Data t,
     ed_AccessList = accesses_of L (df_Accesses t), ed_V = Some (big_endian (df_V t)),
     ed_R = Some (big_endian (df_R t)), ed_S = Some (big_endian (df_S t))\<rparr>"

text \<open>
  The sender of an old transaction: the address its message names; the signer the library recovers
  if it names none or the zero address; the zero address if there is no signer either.
\<close>

definition signer_of :: "('e, 'g, 't) eth_lib \<Rightarrow> 'e \<Rightarrow> bytes" where
  "signer_of L tx = (case Sender L (LatestSignerForChainID L (ChainId L tx)) tx of
     Inr a \<Rightarrow> a | Inl e \<Rightarrow> replicate 20 (char_of (0::nat)))"

definition old_sender :: "('e, 'g, 't) eth_lib \<Rightarrow> old_tx \<Rightarrow> string \<Rightarrow> bytes" where
  "old_sender L t sender =
     (if sender = [] \<or> HexToAddress L sender = replicate 20 (char_of (0::nat))
      then signer_of L (NewTx L (eth_of L t)) else HexToAddress L sender)"

definition old_any :: "(int \<Rightarrow> bytes) \<Rightarrow> old_tx \<Rightarrow> proto_any" where
  "old_any M t = \<lparr>TypeUrl = old_url t, any_Value = enc_fields (old_fields M t)\<rparr>"

text \<open>The converters of the code compute these.\<close>

lemma big_endian_snoc: "big_endian (bs @ [b]) = big_endian bs * 256 + int (byte_val b)"
proof -
  have "(\<Sum>i < length bs. int (byte_val ((bs @ [b]) ! i)) * 256 ^ (length (bs @ [b]) - Suc i)) =
      (\<Sum>i < length bs. int (byte_val (bs ! i)) * 256 ^ (length bs - Suc i) * 256)"
    by (intro sum.cong) (simp_all add: nth_append Suc_diff_Suc flip: power_Suc2)
  then show ?thesis by (simp add: big_endian_def sum_distrib_right)
qed

lemma set_bytes_spec: "set_bytes bs = big_endian bs"
  by (induction bs rule: rev_induct) (simp_all add: set_bytes_def big_endian_snoc, simp add: big_endian_def)

lemma decodeSigBytes_spec: "decodeSigBytes v r s = (Some (big_endian v), Some (big_endian r), Some (big_endian s))"
  by (simp add: decodeSigBytes_def set_bytes_spec) (simp add: big_endian_def)

lemma sdkIntToBigInt_spec: "int_ok L M x \<Longrightarrow> sdkIntToBigInt x = Some (amount_of x)"
  by (auto simp: sdkIntToBigInt_def amount_of_def int_ok_def split: option.splits)

lemma to_address_spec: "to_address L s = dest_of L s"
  by (cases s) (simp_all add: to_address_def dest_of_def)

lemma convertLegacyAccessList_spec: "convertLegacyAccessList L ts = accesses_of L ts"
proof -
  have "accesses_of L ts = map (\<lambda>t. \<lparr>eth_Address = HexToAddress L (at_Address t),
      eth_StorageKeys = map (HexToHash L) (StorageKeys t)\<rparr>) ts" by (induction ts) simp_all
  then show ?thesis by (simp add: convertLegacyAccessList_def)
qed

lemma recover_from_spec:
  "recover_from L (NewTx L (eth_of L t)) (if sender \<noteq> [] then HexToAddress L sender else zero_address) =
     old_sender L t sender"
  by (auto simp: recover_from_def old_sender_def signer_of_def zero_address_def split: sum.splits)

lemmas convert_specs = decodeSigBytes_spec to_address_spec convertLegacyAccessList_spec

lemma convert_old:
  assumes "small (enc_fields (old_fields M t))" "list_all (int_ok L M) (old_ints t)"
  shows "legacyMsgToEthTransaction L
      \<lparr>lm_Data = Some (old_any M t), lm_Size = sz, lm_Hash = hash, lm_From = sender\<rparr> =
    Inr (NewTx L (eth_of L t), old_sender L t sender)"
proof (cases t)
  case (OldLegacy u)
  with assms legacy_roundtrip [of M u L] recover_from_spec [of L t sender] show ?thesis
    by (simp add: legacyMsgToEthTransaction_def old_any_def decodeLegacyTxInner_def convert_specs
        sdkIntToBigInt_spec [of L M] Let_def cong: if_cong split del: if_split)
next
  case (OldAccessList u)
  with assms access_list_roundtrip [of M u L] recover_from_spec [of L t sender] show ?thesis
    by (simp add: legacyMsgToEthTransaction_def old_any_def decodeAccessListTxInner_def convert_specs
        sdkIntToBigInt_spec [of L M] Let_def cong: if_cong split del: if_split)
next
  case (OldDynamicFee u)
  with assms dynamic_fee_roundtrip [of M u L] recover_from_spec [of L t sender] show ?thesis
    by (simp add: legacyMsgToEthTransaction_def old_any_def decodeDynamicFeeTxInner_def convert_specs
        sdkIntToBigInt_spec [of L M] Let_def cong: if_cong split del: if_split)
qed

text \<open>
  The bytes of a transaction with a message of the old type: a body whose first message is that message,
  followed by any further fields of the body and of the transaction (memo, fee, signatures). The bytes of
  an old transaction carry the encoding of its data.
\<close>

definition msg_tx_bytes :: "proto_any \<Rightarrow> string \<Rightarrow> string \<Rightarrow> pb_field list \<Rightarrow> pb_field list \<Rightarrow> bytes" where
  "msg_tx_bytes data hash sender body_rest tx_rest =
     (let msg = enc_fields (msg_fields data hash sender);
          any = enc_fields [(1, LenP ''/cosmos.evm.vm.v1.MsgEthereumTx''), (2, LenP msg)];
          body = enc_fields ((1, LenP any) # body_rest)
      in enc_fields ((1, LenP body) # tx_rest))"

definition old_tx_bytes ::
    "(int \<Rightarrow> bytes) \<Rightarrow> old_tx \<Rightarrow> string \<Rightarrow> string \<Rightarrow> pb_field list \<Rightarrow> pb_field list \<Rightarrow> bytes" where
  "old_tx_bytes M t hash sender body_rest tx_rest = msg_tx_bytes (old_any M t) hash sender body_rest tx_rest"

lemma decode_msg:
  assumes small: "small (msg_tx_bytes data hash sender body_rest tx_rest)"
    and ok: "list_all field_ok body_rest" "list_all field_ok tx_rest"
  shows "decodeLegacyEthTx L (msg_tx_bytes data hash sender body_rest tx_rest) =
      bnd (wrap_err (FmtError ''failed to convert'') (legacyMsgToEthTransaction L
        \<lparr>lm_Data = Some data, lm_Size = 0, lm_Hash = hash, lm_From = sender\<rparr>)) (\<lambda>(ethTx, from_addr).
      wrap_err (FmtError ''failed to set msgs'')
        (build_tx L ((FromEthereumTx L ethTx \<lparr>RawTransaction = None, eth_From = []\<rparr>)\<lparr>eth_From := from_addr\<rparr>)))"
    and "small (enc_fields (any_fields data))"
proof -
  let ?msg = "enc_fields (msg_fields data hash sender)"
  let ?anyf = "[(1, LenP ''/cosmos.evm.vm.v1.MsgEthereumTx''), (2, LenP ?msg)]"
  let ?bodyf = "(1, LenP (enc_fields ?anyf)) # body_rest"
  let ?txf = "(1, LenP (enc_fields ?bodyf)) # tx_rest"
  have tx: "msg_tx_bytes data hash sender body_rest tx_rest = enc_fields ?txf"
    unfolding msg_tx_bytes_def Let_def ..
  have s0: "small (enc_fields ?txf)" using small unfolding tx .
  have s1: "small (enc_fields ?bodyf)" by (rule small_member [OF s0]) (rule list.set_intros(1))
  have s2: "small (enc_fields ?anyf)" by (rule small_member [OF s1]) (rule list.set_intros(1))
  have s3: "small ?msg" by (rule small_member [OF s2, of 2]) simp
  show "small (enc_fields (any_fields data))"
    by (rule small_member [OF s3, of 1]) (simp add: msg_fields_def)
  have "extractProtoField (enc_fields ?txf) 1 2 = Inr (enc_fields ?bodyf)"
    "extractProtoField (enc_fields ?bodyf) 1 2 = Inr (enc_fields ?anyf)"
    "extractProtoField (enc_fields ?anyf) 2 2 = Inr ?msg"
    using extract_enc [OF _ s0, of 1] extract_enc [OF _ s1, of 1] extract_enc [OF _ s2, of 2] ok
    by (simp_all del: concat.simps list.map)
  then have "extractMsgAnyValue (enc_fields ?txf) = Inr ?msg"
    by (simp add: extractMsgAnyValue_def del: concat.simps list.map)
  then show "decodeLegacyEthTx L (msg_tx_bytes data hash sender body_rest tx_rest) =
      bnd (wrap_err (FmtError ''failed to convert'') (legacyMsgToEthTransaction L
        \<lparr>lm_Data = Some data, lm_Size = 0, lm_Hash = hash, lm_From = sender\<rparr>)) (\<lambda>(ethTx, from_addr).
      wrap_err (FmtError ''failed to set msgs'')
        (build_tx L ((FromEthereumTx L ethTx \<lparr>RawTransaction = None, eth_From = []\<rparr>)\<lparr>eth_From := from_addr\<rparr>)))"
    unfolding tx decodeLegacyEthTx_def
    by (simp add: msg_roundtrip [OF s3] Let_def del: concat.simps list.map)
qed

lemma decode_old:
  assumes "small (old_tx_bytes M t hash sender body_rest tx_rest)"
    and "list_all field_ok body_rest" "list_all field_ok tx_rest" "list_all (int_ok L M) (old_ints t)"
  shows "decodeLegacyEthTx L (old_tx_bytes M t hash sender body_rest tx_rest) =
    wrap_err (FmtError ''failed to set msgs'')
      (build_tx L ((FromEthereumTx L (NewTx L (eth_of L t)) \<lparr>RawTransaction = None, eth_From = []\<rparr>)
         \<lparr>eth_From := old_sender L t sender\<rparr>))"
proof -
  note dm = decode_msg [OF assms(1-3) [unfolded old_tx_bytes_def]]
  have "small (enc_fields (old_fields M t))"
  proof (cases "enc_fields (old_fields M t) = []")
    case False
    then show ?thesis
      by (intro small_member [OF dm(2), of 2]) (simp add: any_fields_def bytes_field_def old_any_def)
  next
    case True
    show ?thesis unfolding small_def by (subst True) simp
  qed
  then show ?thesis
    unfolding old_tx_bytes_def dm(1) by (simp add: convert_old [OF _ assms(4)])
qed

text \<open>
  The answers of the standard decoder that send a transaction to the fallback: an error that speaks of the
  message type or of an unknown field (the fields of the old message are reserved in the new one), or a
  transaction with an empty message (a decoder that skips reserved fields).
\<close>

definition not_read :: "('e, 'g, 't) eth_lib \<Rightarrow> 't res \<Rightarrow> bool" where
  "not_read L answer \<longleftrightarrow> (case answer of
      Inl e \<Rightarrow> \<not> stops e \<and> (\<exists>s \<in> {''MsgEthereumTx'', ''unknown field'', ''errUnknownField''}. contains_str (Error L e) s)
    | Inr tx \<Rightarrow> \<exists>m. EthMsg m \<in> set (GetMsgs L tx) \<and> RawTransaction m = None \<and> eth_From m = [])"

lemma not_read_falls_back:
  assumes "not_read L (original bz)"
  shows "LegacyAwareTxDecoder L original bz = decodeLegacyEthTx L bz"
proof (cases "original bz")
  case (Inl e)
  with assms show ?thesis by (auto simp: LegacyAwareTxDecoder_def not_read_def)
next
  case (Inr tx)
  with assms have "list_ex empty_eth_msg (GetMsgs L tx)" by (force simp: list_ex_iff not_read_def)
  with Inr show ?thesis by (simp add: LegacyAwareTxDecoder_def)
qed

section \<open>Normal return\<close>

lemma extract_calm: "small_varints data \<Longrightarrow> calm (extractProtoField data t w)"
  unfolding extractProtoField_def by (rule extract_safe.run_calm) simp_all

lemma extract_small:
  assumes "small_varints data" "extractProtoField data t 2 = Inr b"
  shows "small_varints b"
  using assms(2) unfolding extractProtoField_def
proof (rule run_fields_result [where Q = "\<lambda>_. True"])
  fix s f w j r assume "extract_body t 2 data s f w j = Inr (Return r)"
  then obtain k e where "slice_range data k e = Inr r"
    by (auto simp: extract_body_def Let_def split: if_splits prod.splits)
  then show "small_varints r" by (rule small_varints_slice [OF assms(1)])
qed simp_all

lemma extractMsg_calm:
  assumes "small_varints data"
  shows "calm (extractMsgAnyValue data)" "extractMsgAnyValue data = Inr b \<Longrightarrow> small_varints b"
proof -
  show "small_varints b" if "extractMsgAnyValue data = Inr b"
    using that assms unfolding extractMsgAnyValue_def
    by (elim bnd_InrE wrap_err_InrE) (metis extract_small)
  show "calm (extractMsgAnyValue data)"
    unfolding extractMsgAnyValue_def
    by (intro calm_bnd calm_wrap_err extract_calm assms; simp add: wrap_err_eq_Inr; metis extract_small assms)
qed

lemma any_small:
  assumes "small_varints data" "unmarshalAny data = Inr any"
  shows "small_varints (any_Value any)"
  using assms(2) unfolding unmarshalAny_def
proof (rule run_fields_result [where Q = "\<lambda>any. small_varints (any_Value any)"])
  fix s f w j s' k assume "small_varints (any_Value s)" "any_body data s f w j = Inr (Continue s' k)"
  then show "small_varints (any_Value s')"
    using small_varints_slice [OF assms(1)]
    by (auto simp: any_body_def Let_def split: if_splits prod.splits)
qed (auto simp: any_body_def no_any_def small_varints_def Let_def split: if_splits prod.splits)

lemma msg_small:
  assumes "small_varints data" "unmarshalLegacyMsgEthereumTx data = Inr msg"
  shows "lm_Data msg = Some any \<Longrightarrow> small_varints (any_Value any)"
proof -
  have "\<forall>any. lm_Data msg = Some any \<longrightarrow> small_varints (any_Value any)"
    using assms(2) unfolding unmarshalLegacyMsgEthereumTx_def
  proof (rule run_fields_result [where Q = "\<lambda>m. \<forall>any. lm_Data m = Some any \<longrightarrow> small_varints (any_Value any)"])
    fix s f w j s' k
    assume "\<forall>any. lm_Data s = Some any \<longrightarrow> small_varints (any_Value any)"
      "msg_body data s f w j = Inr (Continue s' k)"
    then show "\<forall>any. lm_Data s' = Some any \<longrightarrow> small_varints (any_Value any)"
      using any_small small_varints_slice [OF assms(1)]
      by (auto simp: msg_body_def split: if_splits) blast
  qed (auto simp: msg_body_def no_msg_def split: if_splits)
  then show "lm_Data msg = Some any \<Longrightarrow> small_varints (any_Value any)" by blast
qed

lemma convert_calm:
  assumes "\<And>b. calm (Int_Unmarshal L b)" "\<And>any. lm_Data msg = Some any \<Longrightarrow> small_varints (any_Value any)"
  shows "calm (legacyMsgToEthTransaction L msg)"
  using tx_calm [OF assms(1)] assms(2)
  by (auto simp: legacyMsgToEthTransaction_def decodeLegacyTxInner_def decodeAccessListTxInner_def
      decodeDynamicFeeTxInner_def decodeSigBytes_spec Let_def split: option.split intro!: calm_bnd)

lemma decode_calm:
  assumes "small_varints data" "\<And>b. calm (Int_Unmarshal L b)" "\<And>m. calm (build_tx L m)"
  shows "calm (decodeLegacyEthTx L data)"
  unfolding decodeLegacyEthTx_def
proof (intro calm_bnd calm_wrap_err)
  show "calm (extractMsgAnyValue data)" by (rule extractMsg_calm(1) [OF assms(1)])
  fix raw assume "wrap_err (FmtError ''failed to extract msg bytes'') (extractMsgAnyValue data) = Inr raw"
  then have raw: "small_varints raw" using extractMsg_calm(2) [OF assms(1)] by auto
  then show "calm (unmarshalLegacyMsgEthereumTx raw)"
    unfolding unmarshalLegacyMsgEthereumTx_def by (rule msg_safe.run_calm) simp
  fix msg assume "wrap_err (FmtError ''failed to decode old format'') (unmarshalLegacyMsgEthereumTx raw) = Inr msg"
  then show "calm (legacyMsgToEthTransaction L msg)"
    using msg_small [OF raw] by (intro convert_calm assms(2)) auto
qed (use assms(3) in \<open>auto simp: Let_def intro!: calm_wrap_err\<close>)

end
