(* ===== verification/Legacy_Props.thy ===== *)
theory Legacy_Props
  imports Legacy_End Ref_World
begin

text \<open>
  The properties of the fallback decoder for old EVM transactions, applied to a concrete library: a
  go-ethereum transaction is its data, a Cosmos transaction the list of its messages.
\<close>

definition ref_Int_Unmarshal :: "bytes \<Rightarrow> int option res" where
  "ref_Int_Unmarshal b =
     (if b = [] then Inr None
      else case ref_IntUnmarshal b of Inl _ \<Rightarrow> Inl (ExtError ''integer'') | Inr x \<Rightarrow> Inr (Some x))"

definition ref_eth :: "(eth_txdata, int, eth_txdata MsgEthereumTx list) eth_lib" where
  "ref_eth = \<lparr>
     Int_Unmarshal = ref_Int_Unmarshal,
     HexToAddress = (\<lambda>s. take 20 (s @ zero_address)),
     HexToHash = (\<lambda>s. s),
     NewTx = (\<lambda>t. t),
     ChainId = (\<lambda>t. 8878788),
     LatestSignerForChainID = (\<lambda>c. c),
     Sender = (\<lambda>g t. if g = 8878788 then Inr (replicate 20 (CHR ''s'')) else Inl (ExtError ''invalid signature'')),
     FromEthereumTx = (\<lambda>t m. m\<lparr>RawTransaction := Some t\<rparr>),
     build_tx = (\<lambda>m. Inr [m]),
     GetMsgs = (\<lambda>ms. map EthMsg ms),
     Error = (\<lambda>e. case e of ExtError s \<Rightarrow> s | FmtError s \<Rightarrow> s | _ \<Rightarrow> [])\<rparr>"

definition ref_int_bytes :: "int \<Rightarrow> bytes" where
  "ref_int_bytes x = (case ref_IntMarshal x of Inl _ \<Rightarrow> [] | Inr b \<Rightarrow> b)"

lemma ref_codec: "int_fits v \<Longrightarrow> Int_Unmarshal ref_eth (ref_int_bytes v) = Inr (Some v)"
proof -
  assume "int_fits v"
  then obtain b where b: "ref_IntMarshal v = Inr b" by (simp add: ref_IntMarshal_def)
  moreover have "b \<noteq> []" using b ref_int_roundtrip [OF b] by (auto simp: ref_IntUnmarshal_def)
  ultimately show ?thesis
    by (simp add: ref_eth_def ref_Int_Unmarshal_def ref_int_bytes_def ref_int_roundtrip)
qed

lemma small_200: "length b < 200 \<Longrightarrow> small b"
  by (simp add: small_def)

text \<open>Two standard decoders of the new schema: one rejects reserved fields, one skips them.\<close>

definition rejecting :: "bytes \<Rightarrow> eth_txdata MsgEthereumTx list res" where
  "rejecting bz = Inl (ExtError ''errUnknownField'')"

definition skipping :: "bytes \<Rightarrow> eth_txdata MsgEthereumTx list res" where
  "skipping bz = Inr [\<lparr>RawTransaction = None, eth_From = []\<rparr>]"

lemma ref_not_read: "not_read ref_eth (rejecting bz)" "not_read ref_eth (skipping bz)"
proof -
  have "contains_str (Error ref_eth (ExtError ''errUnknownField'')) ''errUnknownField''" by code_simp
  then show "not_read ref_eth (rejecting bz)" by (simp add: not_read_def rejecting_def)
  show "not_read ref_eth (skipping bz)" by (simp add: not_read_def skipping_def ref_eth_def)
qed

section \<open>Round trips\<close>

text \<open>
  C30. Unmarshalling the old encoding of a \<open>LegacyTx\<close>, an \<open>AccessListTx\<close> or a \<open>DynamicFeeTx\<close> gives
  back exactly the transaction, for every value of its fields (access lists included) whose amounts
  are nil or in the 256-bit range of \<open>math.Int\<close>, provided the integer codec reads back what it
  wrote in that range and the encoding fits an index.
\<close>

theorem old_tx_roundtrip:
  assumes "\<And>v. int_fits v \<Longrightarrow> Int_Unmarshal L (M v) = Inr (Some v)"
    and "small (enc_fields (legacy_fields M lt))" and "list_all ptr_fits [lt_GasPrice lt, lt_Amount lt]"
    and "small (enc_fields (access_list_fields M alt))"
    and "list_all ptr_fits [al_ChainID alt, al_GasPrice alt, al_Amount alt]"
    and "small (enc_fields (dynamic_fee_fields M dft))"
    and "list_all ptr_fits [df_ChainID dft, df_GasTipCap dft, df_GasFeeCap dft, df_Amount dft]"
  shows "unmarshalLegacyTx L (enc_fields (legacy_fields M lt)) = Inr lt \<and>
    unmarshalAccessListTx L (enc_fields (access_list_fields M alt)) = Inr alt \<and>
    unmarshalDynamicFeeTx L (enc_fields (dynamic_fee_fields M dft)) = Inr dft"
proof -
  have "int_ok L M x" if "ptr_fits x" for x
    using assms(1) that by (auto simp: int_ok_def ptr_fits_def split: option.splits)
  with assms(2-7) show ?thesis
    by (simp add: legacy_roundtrip access_list_roundtrip dynamic_fee_roundtrip)
qed

definition ref_lt :: legacyLegacyTx where
  "ref_lt = no_legacy\<lparr>lt_Nonce := 7, lt_GasPrice := Some (Some 10), lt_GasLimit := 21000,
     lt_To := ''0xcafe'', lt_Amount := Some (Some 5000), lt_V := ''a'', lt_R := ''bc'', lt_S := ''d''\<rparr>"

definition ref_al :: legacyAccessListTx where
  "ref_al = no_access_list\<lparr>al_ChainID := Some (Some 3), al_Nonce := 300, al_Amount := Some (Some 5000),
     al_Accesses := [\<lparr>at_Address = ''0xab'', StorageKeys = [''0x01'', []]\<rparr>], al_V := ''v''\<rparr>"

definition ref_df :: legacyDynamicFeeTx where
  "ref_df = no_dynamic_fee\<lparr>df_GasTipCap := Some (Some 2), df_Amount := Some (Some (- 1)), df_Data := ''call''\<rparr>"

theorem old_tx_roundtrip_witness:
  "unmarshalLegacyTx ref_eth (enc_fields (legacy_fields ref_int_bytes ref_lt)) = Inr ref_lt \<and>
    unmarshalAccessListTx ref_eth (enc_fields (access_list_fields ref_int_bytes ref_al)) = Inr ref_al \<and>
    unmarshalDynamicFeeTx ref_eth (enc_fields (dynamic_fee_fields ref_int_bytes ref_df)) = Inr ref_df"
proof -
  have "length (enc_fields (access_list_fields ref_int_bytes ref_al)) < 200"
    "length (enc_fields (legacy_fields ref_int_bytes ref_lt)) < 200"
    "length (enc_fields (dynamic_fee_fields ref_int_bytes ref_df)) < 200" by code_simp+
  then have "small (enc_fields (access_list_fields ref_int_bytes ref_al))"
    "small (enc_fields (legacy_fields ref_int_bytes ref_lt))"
    "small (enc_fields (dynamic_fee_fields ref_int_bytes ref_df))"
    by (simp_all only: small_200)
  moreover have "list_all ptr_fits [lt_GasPrice ref_lt, lt_Amount ref_lt]"
    "list_all ptr_fits [al_ChainID ref_al, al_GasPrice ref_al, al_Amount ref_al]"
    "list_all ptr_fits [df_ChainID ref_df, df_GasTipCap ref_df, df_GasFeeCap ref_df, df_Amount ref_df]"
    by code_simp+
  ultimately show ?thesis by (intro old_tx_roundtrip ref_codec)
qed

section \<open>End to end\<close>

text \<open>
  C6. An old transaction that the standard decoder of the new schema rejects for its reserved
  fields, or decodes to an empty message, is converted: the decoder returns the transaction built
  from one new message whose go-ethereum data is that of the old transaction (nonce, amounts with nil
  as zero, destination, call data, access list, big-endian signature values) and whose sender is
  the one the old message names, or the recovered signer if it names none. Fields of the body and of
  the transaction behind the first message do not matter.
\<close>

theorem LegacyAwareTxDecoder_converts:
  assumes "small (old_tx_bytes M t hash sender body_rest tx_rest)"
    and "list_all field_ok body_rest" and "list_all field_ok tx_rest"
    and "list_all (int_ok L M) (old_ints t)"
    and "not_read L (original (old_tx_bytes M t hash sender body_rest tx_rest))"
  shows "LegacyAwareTxDecoder L original (old_tx_bytes M t hash sender body_rest tx_rest) =
    wrap_err (FmtError ''failed to set msgs'')
      (build_tx L ((FromEthereumTx L (NewTx L (eth_of L t)) \<lparr>RawTransaction = None, eth_From = []\<rparr>)
         \<lparr>eth_From := old_sender L t sender\<rparr>))"
  using not_read_falls_back [where original = original, OF assms(5)] decode_old [OF assms(1-4)] by simp

text \<open>What the library of the witness builds, and the data and senders of two transactions.\<close>

lemma ref_build:
  "wrap_err e (build_tx ref_eth ((FromEthereumTx ref_eth (NewTx ref_eth d) m)\<lparr>eth_From := a\<rparr>)) =
     Inr [m\<lparr>RawTransaction := Some d, eth_From := a\<rparr>]"
  by (simp add: ref_eth_def)

lemma ref_lt_data:
  "eth_of ref_eth (OldLegacy ref_lt) = LegacyTx \<lparr>el_Nonce = 7, el_GasPrice = Some 10, el_Gas = 21000,
     el_To = Some (''0xcafe'' @ replicate 14 (char_of (0::nat))), el_Value = Some 5000, el_Data = [],
     el_V = Some 97, el_R = Some 25187, el_S = Some 100\<rparr>"
  "old_sender ref_eth (OldLegacy ref_lt) [] = ''ssssssssssssssssssss''"
  unfolding old_sender_def eth_of.simps set_bytes_spec [symmetric] by code_simp+

lemma ref_al_data:
  "eth_of ref_eth (OldAccessList ref_al) = AccessListTx \<lparr>el_Nonce = 300, el_GasPrice = Some 0, el_Gas = 0,
     el_To = None, el_Value = Some 5000, el_Data = [], el_V = Some 118, el_R = Some 0, el_S = Some 0,
     el_ChainID = Some 3, el_AccessList = [\<lparr>eth_Address = ''0xab'' @ replicate 16 (char_of (0::nat)),
       eth_StorageKeys = [''0x01'', []]\<rparr>]\<rparr>"
  "old_sender ref_eth (OldAccessList ref_al) ''0x00000000000000bb00'' = ''0x00000000000000bb00''"
  unfolding old_sender_def eth_of.simps set_bytes_spec [symmetric] by code_simp+

theorem LegacyAwareTxDecoder_converts_witness:
  "LegacyAwareTxDecoder ref_eth rejecting
       (old_tx_bytes ref_int_bytes (OldLegacy ref_lt) ''0xhash'' [] [] [(3, LenP ''sig'')]) =
     Inr [\<lparr>RawTransaction = Some (LegacyTx \<lparr>el_Nonce = 7, el_GasPrice = Some 10, el_Gas = 21000,
       el_To = Some (''0xcafe'' @ replicate 14 (char_of (0::nat))), el_Value = Some 5000, el_Data = [],
       el_V = Some 97, el_R = Some 25187, el_S = Some 100\<rparr>), eth_From = ''ssssssssssssssssssss''\<rparr>] \<and>
   LegacyAwareTxDecoder ref_eth skipping
       (old_tx_bytes ref_int_bytes (OldAccessList ref_al) [] ''0x00000000000000bb00'' [] []) =
     Inr [\<lparr>RawTransaction = Some (AccessListTx \<lparr>el_Nonce = 300, el_GasPrice = Some 0, el_Gas = 0,
       el_To = None, el_Value = Some 5000, el_Data = [], el_V = Some 118, el_R = Some 0, el_S = Some 0,
       el_ChainID = Some 3, el_AccessList = [\<lparr>eth_Address = ''0xab'' @ replicate 16 (char_of (0::nat)),
         eth_StorageKeys = [''0x01'', []]\<rparr>]\<rparr>), eth_From = ''0x00000000000000bb00''\<rparr>]"
proof -
  let ?lt = "old_tx_bytes ref_int_bytes (OldLegacy ref_lt) ''0xhash'' [] [] [(3, LenP ''sig'')]"
  let ?al = "old_tx_bytes ref_int_bytes (OldAccessList ref_al) [] ''0x00000000000000bb00'' [] []"
  have "length ?lt < 200" "length ?al < 200" by code_simp+
  then have s: "small ?lt" "small ?al" by (simp_all only: small_200)
  have i: "list_all (int_ok ref_eth ref_int_bytes) (old_ints (OldLegacy ref_lt))"
    "list_all (int_ok ref_eth ref_int_bytes) (old_ints (OldAccessList ref_al))" by code_simp+
  have r: "list_all field_ok []" "list_all field_ok [(3, LenP ''sig'')]" by simp_all
  show ?thesis
    unfolding LegacyAwareTxDecoder_converts [OF s(1) r i(1) ref_not_read(1)]
      LegacyAwareTxDecoder_converts [OF s(2) r(1,1) i(2) ref_not_read(2)] ref_build ref_lt_data ref_al_data
    by simp
qed

text \<open>
  C31. The wrapped decoders of \<open>NewLegacyAwareTxConfig\<close> leave every other transaction alone: what the
  standard decoder returns is returned unchanged if it contains no empty EVM message, and so is an
  error that mentions neither \<open>MsgEthereumTx\<close> nor an unknown field; the encoders are the inner ones.
\<close>

theorem LegacyAware_transparent:
  assumes "\<And>tx. TxDecoder inner bz = Inr tx \<Longrightarrow>
      \<forall>m. EthMsg m \<in> set (GetMsgs L tx) \<longrightarrow> RawTransaction m \<noteq> None \<or> eth_From m \<noteq> []"
    and "\<And>e. TxDecoder inner bz = Inl e \<Longrightarrow> \<not> contains_str (Error L e) ''MsgEthereumTx'' \<and>
      \<not> contains_str (Error L e) ''unknown field'' \<and> \<not> contains_str (Error L e) ''errUnknownField''"
  shows "TxDecoder (NewLegacyAwareTxConfig L inner) bz = TxDecoder inner bz \<and>
    TxEncoder (NewLegacyAwareTxConfig L inner) = TxEncoder inner"
proof (cases "TxDecoder inner bz")
  case (Inl e)
  with assms(2) show ?thesis by (simp add: NewLegacyAwareTxConfig_def LegacyAwareTxDecoder_def)
next
  case (Inr tx)
  have "\<not> empty_eth_msg m" if "m \<in> set (GetMsgs L tx)" for m
    using assms(1) [OF Inr] that by (cases m) auto
  then have "\<not> list_ex empty_eth_msg (GetMsgs L tx)" by (simp add: list_ex_iff)
  with Inr show ?thesis by (simp add: NewLegacyAwareTxConfig_def LegacyAwareTxDecoder_def)
qed

definition new_tx :: "eth_txdata MsgEthereumTx list" where
  "new_tx = [\<lparr>RawTransaction = Some (eth_of ref_eth (OldLegacy ref_lt)), eth_From = ''alice''\<rparr>]"

theorem LegacyAware_transparent_witness:
  "TxDecoder (NewLegacyAwareTxConfig ref_eth \<lparr>TxDecoder = (\<lambda>_. Inr new_tx), TxJSONDecoder = rejecting,
     TxEncoder = (\<lambda>_. Inr []), TxJSONEncoder = (\<lambda>_. Inr []), tx_services = ()\<rparr>) ''bytes'' = Inr new_tx"
  using LegacyAware_transparent [of "\<lparr>TxDecoder = (\<lambda>_. Inr new_tx), TxJSONDecoder = rejecting,
     TxEncoder = (\<lambda>_. Inr []), TxJSONEncoder = (\<lambda>_. Inr []), tx_services = ()\<rparr>" "''bytes''" ref_eth]
  by (simp add: ref_eth_def new_tx_def)

section \<open>Termination and panics\<close>

text \<open>
  C32. On bytes in which no varint, read at any position, reaches \<open>2^62\<close>, the fallback decoder
  returns a transaction or an error: it does not run forever and does not panic, if the library
  calls do not.
\<close>

theorem decodeLegacyEthTx_returns:
  assumes "small_varints txBytes" and "\<And>b. calm (Int_Unmarshal L b)" and "\<And>m. calm (build_tx L m)"
  shows "\<exists>r. decodeLegacyEthTx L txBytes = r \<and> r \<noteq> Inl NoReturn \<and> (\<forall>s. r \<noteq> Inl (GoPanic s))"
  using decode_calm [OF assms] by (cases "decodeLegacyEthTx L txBytes") (auto simp: calm_def)

theorem decodeLegacyEthTx_returns_witness:
  "decodeLegacyEthTx ref_eth ''not a transaction'' \<noteq> Inl NoReturn"
proof -
  have "small_varints ''not a transaction''" by code_simp
  moreover have "calm (Int_Unmarshal ref_eth b)" for b
    by (auto simp: ref_eth_def ref_Int_Unmarshal_def calm_def split: sum.split)
  moreover have "calm (build_tx ref_eth m)" for m by (simp add: ref_eth_def)
  ultimately show ?thesis using decodeLegacyEthTx_returns [of "''not a transaction''" ref_eth] by blast
qed

text \<open>
  Transaction data of eleven bytes: a field the old schema does not have, of length minus eleven.
\<close>

definition endless_data :: proto_any where
  "endless_data = \<lparr>TypeUrl = ''/cosmos.evm.vm.v1.LegacyTx'',
     any_Value = map char_of [122 :: nat, 245, 255, 255, 255, 255, 255, 255, 255, 255, 1]\<rparr>"

lemma unmarshalLegacyTx_endless: "unmarshalLegacyTx L (any_Value endless_data) = Inl NoReturn"
proof -
  have l: "length (any_Value endless_data) = 11" by code_simp
  have "read_tag (any_Value endless_data) 0 = Inr (15, 2, 1)" by code_simp
  moreover have "skip_value 2 (any_Value endless_data) 1 = Inr 0" by code_simp
  then have "legacy_body L (any_Value endless_data) no_legacy 15 2 1 = Inr (Continue no_legacy 0)"
    by (simp add: legacy_body_def)
  ultimately have "field_loop (legacy_body L) Inr (any_Value endless_data) no_legacy 0 = None"
    by (intro field_loop_stuck) (simp_all add: l)
  then show ?thesis by (simp add: unmarshalLegacyTx_def run_fields_def)
qed

text \<open>
  C33. Eleven bytes of transaction data make the decoder run forever: a field whose length is minus
  eleven brings the index back to its start. Around them the transaction is well formed, and a
  decoder of the new schema sees an old message in it, whose fields are reserved. The fallback
  decoder never returns on such a transaction, and so neither does the wrapped decoder, whenever its
  standard decoder answers as the source says it does for old transactions: with an error that
  mentions an unknown field or the message type, or with an empty message.
\<close>

theorem LegacyAwareTxDecoder_endless:
  assumes "small (msg_tx_bytes endless_data hash sender body_rest tx_rest)"
    and "list_all field_ok body_rest" and "list_all field_ok tx_rest"
  shows "decodeLegacyEthTx L (msg_tx_bytes endless_data hash sender body_rest tx_rest) = Inl NoReturn \<and>
    (not_read L (original (msg_tx_bytes endless_data hash sender body_rest tx_rest)) \<longrightarrow>
      LegacyAwareTxDecoder L original (msg_tx_bytes endless_data hash sender body_rest tx_rest) = Inl NoReturn)"
proof -
  have "TypeUrl endless_data = ''/cosmos.evm.vm.v1.LegacyTx''" by (simp add: endless_data_def)
  then have "legacyMsgToEthTransaction L \<lparr>lm_Data = Some endless_data, lm_Size = 0, lm_Hash = hash, lm_From = sender\<rparr> =
      Inl NoReturn"
    by (simp add: legacyMsgToEthTransaction_def decodeLegacyTxInner_def unmarshalLegacyTx_endless Let_def)
  then have "decodeLegacyEthTx L (msg_tx_bytes endless_data hash sender body_rest tx_rest) = Inl NoReturn"
    unfolding decode_msg(1) [OF assms] by (simp add: wrap_err_def)
  then show ?thesis using not_read_falls_back by metis
qed

theorem LegacyAwareTxDecoder_endless_witness:
  "LegacyAwareTxDecoder ref_eth skipping (msg_tx_bytes endless_data [] [] [] []) = Inl NoReturn \<and>
    LegacyAwareTxDecoder ref_eth rejecting (msg_tx_bytes endless_data [] [] [] []) = Inl NoReturn \<and>
    length (msg_tx_bytes endless_data [] [] [] []) < 200"
proof -
  have l: "length (msg_tx_bytes endless_data [] [] [] []) < 200" by code_simp
  then have "small (msg_tx_bytes endless_data [] [] [] [])" by (rule small_200)
  with l show ?thesis using LegacyAwareTxDecoder_endless [of "[]" "[]" "[]" "[]" ref_eth skipping]
      LegacyAwareTxDecoder_endless [of "[]" "[]" "[]" "[]" ref_eth rejecting] ref_not_read by simp
qed

end
