(* ===== verification/Precompile.thy ===== *)
theory Precompile
  imports Lock_Query Lock_Inv
begin

text \<open>
  The lockup precompile (\<open>precompiles/lockup/*.go\<close>), through which EVM contracts and accounts call
  the lockup module: argument parsing, the caller checks, the calls of the message and query
  servers, the EVM logs, dispatch and gas. The ABI library, the common precompile code and the
  EVM's native-action wrapper are parameters. A Go \<open>interface{}\<close> argument is a value tagged with its
  dynamic type: \<open>ExtensionInputs\<close> is a slice of the type that \<open>parseExtensions\<close> declares inside its
  own body, \<open>StructSlice\<close> a slice of anonymous structs, the type the ABI decoder builds for tuples.
\<close>

section \<open>Data\<close>

record coinInput =
  ci_Denom :: string
  ci_Amount :: int

record extensionInput =
  ei_FromDate :: string
  ei_ToDate :: string
  ei_Amount :: coinInput

record LockInfoOutput =
  lio_UnlockDate :: string
  lio_Denom :: string
  lio_Amount :: int

datatype abi_value =
    AddressV addr
  | StringV string
  | BigIntV int
  | BoolV bool
  | ExtensionInputs "extensionInput list"
  | StructSlice "extensionInput list"
  | LockInfos "LockInfoOutput list"

record contract =
  Caller :: addr
  contract_Input :: bytes

record eth_log =
  log_Address :: addr
  Topics :: "bytes list"
  log_Data :: bytes
  BlockNumber :: "64 word"

record abi_lib =
  SetupABI :: "contract \<Rightarrow> bool \<Rightarrow> (string \<Rightarrow> bool) \<Rightarrow> (string \<times> abi_value list) res"
  MethodById :: "bytes \<Rightarrow> string res"
  common_RequiredGas :: "bytes \<Rightarrow> bool \<Rightarrow> 64 word"
  OutputsPack :: "string \<Rightarrow> abi_value list \<Rightarrow> bytes res"
  EventID :: "string \<Rightarrow> bytes"
  EventPack :: "string \<Rightarrow> nat list \<Rightarrow> abi_value list \<Rightarrow> bytes res"
  MakeTopic :: "addr \<Rightarrow> bytes res"

text \<open>The state after a call, the EVM logs and the module events it added, and its output.\<close>

type_synonym 'w call_result = "('w \<times> eth_log list \<times> event list \<times> bytes) res"

section \<open>Constants\<close>

text \<open>\<open>common.HexToAddress("0x...0900")\<close>: eighteen zero bytes, 9 and 0.\<close>

definition LockupPrecompileAddress :: addr where
  "LockupPrecompileAddress = replicate 18 (char_of (0::nat)) @ [char_of (9::nat), char_of (0::nat)]"

definition LockMethod :: string where "LockMethod = ''lock''"

definition ExtendMethod :: string where "ExtendMethod = ''extend''"

definition SendDelegateAndLockMethod :: string where "SendDelegateAndLockMethod = ''sendDelegateAndLock''"

definition LocksMethod :: string where "LocksMethod = ''locks''"

definition TotalLockedAmountMethod :: string where "TotalLockedAmountMethod = ''totalLockedAmount''"

lemmas method_defs = LockMethod_def ExtendMethod_def SendDelegateAndLockMethod_def LocksMethod_def
  TotalLockedAmountMethod_def

section \<open>Messages from arguments\<close>

definition positive_amount :: "int \<Rightarrow> string \<Rightarrow> int res" where
  "positive_amount amount txt =
     bnd (int_checked amount) (\<lambda>amt. bnd (require (0 < amt) (FmtError txt)) (\<lambda>_. Inr amt))"

text \<open>The type assertions \<open>args[i].(T)\<close>.\<close>

definition as_address :: "string \<Rightarrow> abi_value \<Rightarrow> addr res" where
  "as_address txt v = (case v of AddressV a \<Rightarrow> Inr a | _ \<Rightarrow> Inl (FmtError txt))"

definition as_string :: "string \<Rightarrow> abi_value \<Rightarrow> string res" where
  "as_string txt v = (case v of StringV x \<Rightarrow> Inr x | _ \<Rightarrow> Inl (FmtError txt))"

definition as_bigint :: "string \<Rightarrow> abi_value \<Rightarrow> int res" where
  "as_bigint txt v = (case v of BigIntV x \<Rightarrow> Inr x | _ \<Rightarrow> Inl (FmtError txt))"

definition NewMsgLock_abi ::
    "('w, 'v) sdk \<Rightarrow> abi_value list \<Rightarrow> string \<Rightarrow> (MsgLock \<times> addr) res" where
  "NewMsgLock_abi K args bondDenom =
     bnd (require (length args = 3) (FmtError ''invalid number of arguments'')) (\<lambda>_.
     bnd (as_address ''invalid lock address'' (args ! 0)) (\<lambda>lockAddress.
     bnd (as_string ''invalid unlock date'' (args ! 1)) (\<lambda>unlockDate.
     bnd (as_bigint ''invalid amount'' (args ! 2)) (\<lambda>amount.
     bnd (positive_amount amount ''lock amount must be positive'') (\<lambda>amt.
     bnd (NewCoin K bondDenom amt) (\<lambda>c.
     Inr (\<lparr>lk_Address = AccAddressString K lockAddress, lk_UnlockDate = unlockDate, lk_Amount = c\<rparr>,
          lockAddress)))))))"

definition parse_extension :: "('w, 'v) sdk \<Rightarrow> string \<Rightarrow> Extension list \<Rightarrow> extensionInput \<Rightarrow> Extension list res" where
  "parse_extension K bondDenom extensions ext =
     bnd (positive_amount (ci_Amount (ei_Amount ext)) ''extension amount must be positive'') (\<lambda>amt.
     bnd (NewCoin K bondDenom amt) (\<lambda>c.
     Inr (extensions @ [\<lparr>FromDate = ei_FromDate ext, ToDate = ei_ToDate ext, ext_Amount = c\<rparr>])))"

definition parseExtensions :: "('w, 'v) sdk \<Rightarrow> abi_value \<Rightarrow> string \<Rightarrow> Extension list res" where
  "parseExtensions K raw bondDenom =
     (case raw of
        ExtensionInputs inputs \<Rightarrow>
          bnd (require (length inputs \<noteq> 0) (FmtError ''extensions must not be empty'')) (\<lambda>_.
          foldM (parse_extension K bondDenom) [] inputs)
      | _ \<Rightarrow> Inl (FmtError ''invalid extensions type''))"

definition NewMsgExtend_abi ::
    "('w, 'v) sdk \<Rightarrow> abi_value list \<Rightarrow> string \<Rightarrow> (MsgExtend \<times> addr) res" where
  "NewMsgExtend_abi K args bondDenom =
     bnd (require (length args = 2) (FmtError ''invalid number of arguments'')) (\<lambda>_.
     bnd (as_address ''invalid lock address'' (args ! 0)) (\<lambda>lockAddress.
     bnd (wrap_err (FmtError ''failed to parse extensions'')
            (parseExtensions K (args ! 1) bondDenom)) (\<lambda>extensions.
     Inr (\<lparr>ex_Address = AccAddressString K lockAddress, Extensions = extensions\<rparr>, lockAddress))))"

definition NewMsgSendDelegateAndLock_abi ::
    "('w, 'v) sdk \<Rightarrow> abi_value list \<Rightarrow> addr \<Rightarrow> string \<Rightarrow> (MsgSendDelegateAndLock \<times> addr \<times> addr) res" where
  "NewMsgSendDelegateAndLock_abi K args caller bondDenom =
     bnd (require (length args = 4) (FmtError ''invalid number of arguments'')) (\<lambda>_.
     bnd (as_address ''invalid to address'' (args ! 0)) (\<lambda>toAddress.
     bnd (as_string ''invalid validator address'' (args ! 1)) (\<lambda>validatorAddress.
     bnd (as_string ''invalid unlock date'' (args ! 2)) (\<lambda>unlockDate.
     bnd (as_bigint ''invalid amount'' (args ! 3)) (\<lambda>amount.
     bnd (positive_amount amount ''send delegate and lock amount must be positive'') (\<lambda>amt.
     bnd (NewCoin K bondDenom amt) (\<lambda>c.
     Inr (\<lparr>FromAddress = AccAddressString K caller, ToAddress = AccAddressString K toAddress,
           ValidatorAddress = validatorAddress, sdl_UnlockDate = unlockDate, sdl_Amount = c\<rparr>,
          caller, toAddress))))))))"

section \<open>Events\<close>

definition EmitLockEvent :: "abi_lib \<Rightarrow> sdk_ctx \<Rightarrow> MsgLock \<Rightarrow> addr \<Rightarrow> eth_log res" where
  "EmitLockEvent B ctx msg lockAddr =
     bnd (MakeTopic B lockAddr) (\<lambda>t1.
     bnd (EventPack B ''Lock'' [1, 2] [StringV (lk_UnlockDate msg), BigIntV (CoinAmount (lk_Amount msg))]) (\<lambda>packed.
     Inr \<lparr>log_Address = LockupPrecompileAddress, Topics = [EventID B ''Lock'', t1], log_Data = packed,
          BlockNumber = of_int (BlockHeight ctx)\<rparr>))"

definition EmitLockExtendedEvent :: "abi_lib \<Rightarrow> sdk_ctx \<Rightarrow> Extension \<Rightarrow> addr \<Rightarrow> eth_log res" where
  "EmitLockExtendedEvent B ctx ext lockAddr =
     bnd (MakeTopic B lockAddr) (\<lambda>t1.
     bnd (EventPack B ''LockExtended'' [1, 2, 3]
            [StringV (FromDate ext), StringV (ToDate ext), BigIntV (CoinAmount (ext_Amount ext))]) (\<lambda>packed.
     Inr \<lparr>log_Address = LockupPrecompileAddress, Topics = [EventID B ''LockExtended'', t1], log_Data = packed,
          BlockNumber = of_int (BlockHeight ctx)\<rparr>))"

definition EmitSendDelegateAndLockEvent ::
    "abi_lib \<Rightarrow> sdk_ctx \<Rightarrow> MsgSendDelegateAndLock \<Rightarrow> addr \<Rightarrow> addr \<Rightarrow> eth_log res" where
  "EmitSendDelegateAndLockEvent B ctx msg fromAddr toAddr =
     bnd (MakeTopic B fromAddr) (\<lambda>t1.
     bnd (MakeTopic B toAddr) (\<lambda>t2.
     bnd (EventPack B ''SendDelegateAndLock'' [2, 3, 4]
            [StringV (ValidatorAddress msg), StringV (sdl_UnlockDate msg),
             BigIntV (CoinAmount (sdl_Amount msg))]) (\<lambda>packed.
     Inr \<lparr>log_Address = LockupPrecompileAddress, Topics = [EventID B ''SendDelegateAndLock'', t1, t2],
          log_Data = packed, BlockNumber = of_int (BlockHeight ctx)\<rparr>)))"

section \<open>Methods\<close>

definition Lock_precompile ::
    "('w, 'v) sdk \<Rightarrow> abi_lib \<Rightarrow> sdk_ctx \<Rightarrow> 'w \<Rightarrow> contract \<Rightarrow> abi_value list \<Rightarrow> 'w call_result" where
  "Lock_precompile K B ctx w contract args =
     bnd (BondDenom K w) (\<lambda>bondDenom.
     bnd (NewMsgLock_abi K args bondDenom) (\<lambda>(msg, lockHexAddr).
     bnd (require (Caller contract = lockHexAddr) (FmtError ''msg.sender is not the requester'')) (\<lambda>_.
     bnd (Lock K ctx w msg) (\<lambda>(w, events).
     bnd (EmitLockEvent B ctx msg lockHexAddr) (\<lambda>log.
     bnd (OutputsPack B LockMethod [BoolV True]) (\<lambda>bz. Inr (w, [log], events, bz)))))))"

definition Extend_precompile ::
    "('w, 'v) sdk \<Rightarrow> abi_lib \<Rightarrow> sdk_ctx \<Rightarrow> 'w \<Rightarrow> contract \<Rightarrow> abi_value list \<Rightarrow> 'w call_result" where
  "Extend_precompile K B ctx w contract args =
     bnd (BondDenom K w) (\<lambda>bondDenom.
     bnd (NewMsgExtend_abi K args bondDenom) (\<lambda>(msg, lockHexAddr).
     bnd (require (Caller contract = lockHexAddr) (FmtError ''msg.sender is not the requester'')) (\<lambda>_.
     bnd (Extend K ctx w msg) (\<lambda>(w, events).
     bnd (foldM (\<lambda>logs ext. bnd (EmitLockExtendedEvent B ctx ext lockHexAddr) (\<lambda>log. Inr (logs @ [log])))
            [] (Extensions msg)) (\<lambda>logs.
     bnd (OutputsPack B ExtendMethod [BoolV True]) (\<lambda>bz. Inr (w, logs, events, bz)))))))"

definition SendDelegateAndLock_precompile ::
    "('w, 'v) sdk \<Rightarrow> abi_lib \<Rightarrow> sdk_ctx \<Rightarrow> 'w \<Rightarrow> contract \<Rightarrow> abi_value list \<Rightarrow> 'w call_result" where
  "SendDelegateAndLock_precompile K B ctx w contract args =
     bnd (BondDenom K w) (\<lambda>bondDenom.
     bnd (NewMsgSendDelegateAndLock_abi K args (Caller contract) bondDenom) (\<lambda>(msg, fromHexAddr, toHexAddr).
     bnd (SendDelegateAndLock K ctx w msg) (\<lambda>(w, events).
     bnd (EmitSendDelegateAndLockEvent B ctx msg fromHexAddr toHexAddr) (\<lambda>log.
     bnd (OutputsPack B SendDelegateAndLockMethod [BoolV True]) (\<lambda>bz. Inr (w, [log], events, bz))))))"

definition Locks_precompile ::
    "('w, 'v) sdk \<Rightarrow> abi_lib \<Rightarrow> sdk_ctx \<Rightarrow> 'w \<Rightarrow> abi_value list \<Rightarrow> 'w call_result" where
  "Locks_precompile K B ctx w args =
     (case args of
        [AddressV lockAddress] \<Rightarrow>
          bnd (Locks K ctx w (Some \<lparr>ql_Address = AccAddressString K lockAddress, ql_Pagination = None\<rparr>))
            (\<lambda>(locks, _).
          bnd (OutputsPack B LocksMethod [LockInfos (map (\<lambda>lock. \<lparr>lio_UnlockDate = lr_UnlockDate lock,
                 lio_Denom = Denom (lr_Amount lock), lio_Amount = CoinAmount (lr_Amount lock)\<rparr>) locks)]) (\<lambda>bz.
          Inr (w, [], [], bz)))
      | [_] \<Rightarrow> Inl (FmtError ''invalid lock address'')
      | _ \<Rightarrow> Inl (FmtError ''invalid number of arguments''))"

definition TotalLockedAmount_precompile ::
    "('w, 'v) sdk \<Rightarrow> abi_lib \<Rightarrow> sdk_ctx \<Rightarrow> 'w \<Rightarrow> abi_value list \<Rightarrow> 'w call_result" where
  "TotalLockedAmount_precompile K B ctx w args =
     bnd (require (length args = 0) (FmtError ''invalid number of arguments'')) (\<lambda>_.
     bnd (TotalLockedAmount K ctx w (Some ())) (\<lambda>c.
     bnd (OutputsPack B TotalLockedAmountMethod [StringV (Denom c), BigIntV (CoinAmount c)]) (\<lambda>bz.
     Inr (w, [], [], bz))))"

definition IsTransaction :: "string \<Rightarrow> bool" where
  "IsTransaction name \<longleftrightarrow> name = LockMethod \<or> name = ExtendMethod \<or> name = SendDelegateAndLockMethod"

definition Execute ::
    "('w, 'v) sdk \<Rightarrow> abi_lib \<Rightarrow> sdk_ctx \<Rightarrow> 'w \<Rightarrow> contract \<Rightarrow> bool \<Rightarrow> 'w call_result" where
  "Execute K B ctx w contract readOnly =
     bnd (SetupABI B contract readOnly IsTransaction) (\<lambda>(name, args).
     if name = LockMethod then Lock_precompile K B ctx w contract args
     else if name = ExtendMethod then Extend_precompile K B ctx w contract args
     else if name = SendDelegateAndLockMethod then SendDelegateAndLock_precompile K B ctx w contract args
     else if name = LocksMethod then Locks_precompile K B ctx w args
     else if name = TotalLockedAmountMethod then TotalLockedAmount_precompile K B ctx w args
     else Inl (FmtError ''unknown method''))"

text \<open>The EVM runs the call as a native action, which decides what becomes of the state.\<close>

definition Run_precompile ::
    "(('w \<Rightarrow> 'w call_result) \<Rightarrow> 'w \<Rightarrow> 'w call_result) \<Rightarrow> ('w, 'v) sdk \<Rightarrow> abi_lib \<Rightarrow> sdk_ctx \<Rightarrow> 'w \<Rightarrow>
     contract \<Rightarrow> bool \<Rightarrow> 'w call_result" where
  "Run_precompile RunNativeAction K B ctx w contract readonly =
     RunNativeAction (\<lambda>w. Execute K B ctx w contract readonly) w"

definition RequiredGas :: "abi_lib \<Rightarrow> bytes \<Rightarrow> 64 word" where
  "RequiredGas B input =
     (if length input < 4 then 0
      else case MethodById B (take 4 input) of
             Inl _ \<Rightarrow> 0
           | Inr method \<Rightarrow> common_RequiredGas B input (IsTransaction method))"

section \<open>What a successful call did\<close>

lemma positive_amount_Inr: "positive_amount x s = Inr y \<longleftrightarrow> y = x \<and> 0 < x \<and> int_fits x"
  by (auto simp: positive_amount_def int_checked_def res_iffs)

lemma NewMsgLock_abi_Inr:
  "NewMsgLock_abi K args d = Inr (msg, a) \<Longrightarrow> lk_Address msg = AccAddressString K a"
  by (auto simp: NewMsgLock_abi_def)

lemma NewMsgSendDelegateAndLock_abi_Inr:
  "NewMsgSendDelegateAndLock_abi K args caller d = Inr (msg, f, t) \<Longrightarrow>
     FromAddress msg = AccAddressString K caller"
  by (auto simp: NewMsgSendDelegateAndLock_abi_def)

lemma parse_extension_loop:
  assumes "foldM (parse_extension K d) [] inputs = Inr es"
    and "\<And>x c. NewCoin K d x = Inr c \<Longrightarrow> CoinAmount c = x"
  shows "\<forall>e \<in> set es. 0 < CoinAmount (ext_Amount e)"
  using assms(1)
  by (rule foldM_invariant [where P = "\<lambda>es. \<forall>e \<in> set es. 0 < CoinAmount (ext_Amount e)"])
    (use assms(2) in \<open>auto simp: parse_extension_def positive_amount_Inr\<close>)

lemma NewMsgExtend_abi_Inr:
  assumes "NewMsgExtend_abi K args d = Inr (msg, a)"
  obtains inputs where "length args = 2" "args ! 1 = ExtensionInputs inputs"
    "ex_Address msg = AccAddressString K a"
    "foldM (parse_extension K d) [] inputs = Inr (Extensions msg)"
  using assms by (auto simp: NewMsgExtend_abi_def parseExtensions_def split: abi_value.splits)

text \<open>The message a successful call ran, if it ran one.\<close>

definition ran ::
    "('w, 'v) sdk \<Rightarrow> sdk_ctx \<Rightarrow> addr \<Rightarrow> 'w \<Rightarrow> 'w \<Rightarrow> event list \<Rightarrow> bool" where
  "ran K ctx caller w w' ev \<longleftrightarrow>
     (\<exists>msg. lk_Address msg = AccAddressString K caller \<and> Lock K ctx w msg = Inr (w', ev)) \<or>
     (\<exists>msg. ex_Address msg = AccAddressString K caller \<and> Extend K ctx w msg = Inr (w', ev)) \<or>
     (\<exists>msg. FromAddress msg = AccAddressString K caller \<and> SendDelegateAndLock K ctx w msg = Inr (w', ev))"

lemma Execute_cases:
  assumes "Execute K B ctx w contract ro = Inr (w', logs, ev, bz)"
  shows "ran K ctx (Caller contract) w w' ev \<or> (w' = w \<and> logs = [] \<and> ev = [])"
proof -
  obtain name args where n: "SetupABI B contract ro IsTransaction = Inr (name, args)"
    using assms by (auto simp: Execute_def)
  consider "Lock_precompile K B ctx w contract args = Inr (w', logs, ev, bz)"
    | "Extend_precompile K B ctx w contract args = Inr (w', logs, ev, bz)"
    | "SendDelegateAndLock_precompile K B ctx w contract args = Inr (w', logs, ev, bz)"
    | "Locks_precompile K B ctx w args = Inr (w', logs, ev, bz)"
    | "TotalLockedAmount_precompile K B ctx w args = Inr (w', logs, ev, bz)"
    using assms n by (auto simp: Execute_def split: if_splits)
  then show ?thesis
  proof cases
    case 1
    then show ?thesis by (auto simp: Lock_precompile_def ran_def dest: NewMsgLock_abi_Inr)
  next
    case 2
    then show ?thesis
      unfolding Extend_precompile_def by (auto elim!: NewMsgExtend_abi_Inr simp: ran_def)
  next
    case 3
    then show ?thesis
      unfolding SendDelegateAndLock_precompile_def
      by (auto dest!: NewMsgSendDelegateAndLock_abi_Inr simp: ran_def)
  next
    case 4
    then show ?thesis by (auto simp: Locks_precompile_def split: list.splits abi_value.splits)
  next
    case 5
    then show ?thesis by (auto simp: TotalLockedAmount_precompile_def)
  qed
qed

text \<open>
  The ABI decoder builds tuples as anonymous structs: it has no way to name the type that
  \<open>parseExtensions\<close> declares. Under such a decoder no call runs an extension.
\<close>

definition abi_tuples :: "abi_lib \<Rightarrow> bool" where
  "abi_tuples B \<longleftrightarrow> (\<forall>contract ro f name args es.
     SetupABI B contract ro f = Inr (name, args) \<longrightarrow> ExtensionInputs es \<notin> set args)"

lemma Execute_runs:
  assumes "Execute K B ctx w contract ro = Inr (w', logs, ev, bz)" "abi_tuples B"
  shows "(\<exists>msg. Lock K ctx w msg = Inr (w', ev)) \<or> (\<exists>msg. SendDelegateAndLock K ctx w msg = Inr (w', ev)) \<or> w' = w"
proof -
  obtain name args where n: "SetupABI B contract ro IsTransaction = Inr (name, args)"
    using assms(1) by (auto simp: Execute_def)
  have args: "ExtensionInputs es \<notin> set args" for es using assms(2) n by (auto simp: abi_tuples_def)
  have "Extend_precompile K B ctx w contract args \<noteq> Inr (w', logs, ev, bz)"
  proof
    assume "Extend_precompile K B ctx w contract args = Inr (w', logs, ev, bz)"
    then obtain d msg a where "NewMsgExtend_abi K args d = Inr (msg, a)" by (auto simp: Extend_precompile_def)
    then obtain inputs where "length args = 2" "args ! 1 = ExtensionInputs inputs" by (rule NewMsgExtend_abi_Inr)
    then show False using args nth_mem [of 1 args] by simp
  qed
  with assms(1) n consider "Lock_precompile K B ctx w contract args = Inr (w', logs, ev, bz)"
    | "SendDelegateAndLock_precompile K B ctx w contract args = Inr (w', logs, ev, bz)"
    | "Locks_precompile K B ctx w args = Inr (w', logs, ev, bz)"
    | "TotalLockedAmount_precompile K B ctx w args = Inr (w', logs, ev, bz)"
    by (auto simp: Execute_def split: if_splits)
  then show ?thesis
    by cases (auto simp: Lock_precompile_def SendDelegateAndLock_precompile_def Locks_precompile_def
        TotalLockedAmount_precompile_def split: list.splits abi_value.splits)
qed

end
