(* ===== verification/Precompile_Props.thy ===== *)
theory Precompile_Props
  imports Precompile Ref_Run
begin

text \<open>
  The properties of the lockup precompile: it acts only for its caller and keeps the invariant of
  the lockup module, a read-only call changes nothing, and its \<open>extend\<close> method cannot succeed.
\<close>

context lockup_env
begin

lemma Extend_precompile_ok:
  assumes "Extend_precompile K B ctx w contract args = Inr (w', logs, ev, bz)"
    and "0 \<le> BlockTime ctx" "lockup_ok K view w"
  shows "lockup_ok K view w'"
proof -
  obtain d msg a where m: "NewMsgExtend_abi K args d = Inr (msg, a)" "Extend K ctx w msg = Inr (w', ev)"
    using assms(1) by (auto simp: Extend_precompile_def)
  from m(1) obtain inputs where "foldM (parse_extension K d) [] inputs = Inr (Extensions msg)"
    by (rule NewMsgExtend_abi_Inr)
  then have pos: "\<forall>e \<in> set (Extensions msg). 0 < CoinAmount (ext_Amount e)"
    by (rule parse_extension_loop) (auto dest: new_coin)
  from m(2) obtain b where "foldM (extend_one K ctx (ex_Address msg) b) (w, []) (Extensions msg) = Inr (w', ev)"
    by (auto simp: Extend_def)
  then show ?thesis using assms(2,3) pos by (rule extend_loop_ok)
qed

lemma Execute_ok:
  assumes e: "Execute K B ctx w contract ro = Inr (w', logs, ev, bz)"
    and t: "0 \<le> BlockTime ctx" and ok: "lockup_ok K view w"
  shows "lockup_ok K view w'"
proof -
  obtain name args where n: "SetupABI B contract ro IsTransaction = Inr (name, args)"
    using e by (auto simp: Execute_def)
  consider "Extend_precompile K B ctx w contract args = Inr (w', logs, ev, bz)"
    | msg where "Lock K ctx w msg = Inr (w', ev)" | msg where "SendDelegateAndLock K ctx w msg = Inr (w', ev)"
    | "w' = w"
    using e n by (auto simp: Execute_def Lock_precompile_def SendDelegateAndLock_precompile_def
        Locks_precompile_def TotalLockedAmount_precompile_def split: if_splits list.splits abi_value.splits)
  then show ?thesis
  proof cases
    case 1
    then show ?thesis using t ok by (rule Extend_precompile_ok)
  next
    case (2 msg)
    then show ?thesis using t ok by (rule Lock_ok)
  next
    case (3 msg)
    then show ?thesis using t ok by (rule SendDelegateAndLock_ok)
  next
    case 4
    then show ?thesis using ok by simp
  qed
qed

end

text \<open>
  A reference ABI library: the call data is the method's name, the arguments are fixed, packing
  concatenates nothing, and a read-only call of a transaction method is refused.
\<close>

definition ref_args :: "string \<Rightarrow> abi_value list" where
  "ref_args name =
     (if name = ''lock'' then [AddressV ''alice'', StringV ''2025-06-30'', BigIntV 200]
      else if name = ''extend'' then [AddressV ''alice'', StructSlice [\<lparr>ei_FromDate = ''2025-06-30'',
        ei_ToDate = ''2025-12-31'', ei_Amount = \<lparr>ci_Denom = ''aTSC'', ci_Amount = 50\<rparr>\<rparr>]]
      else if name = ''locks'' then [AddressV ''alice''] else [])"

definition ref_abi :: abi_lib where
  "ref_abi = \<lparr>
     SetupABI = (\<lambda>c ro tx. if ro \<and> tx (contract_Input c) then Inl (ExtError ''write protection'')
       else Inr (contract_Input c, ref_args (contract_Input c))),
     MethodById = (\<lambda>b. Inr b),
     common_RequiredGas = (\<lambda>b tx. if tx then 2000 else 1000),
     OutputsPack = (\<lambda>name vs. Inr name),
     EventID = (\<lambda>name. name),
     EventPack = (\<lambda>name is vs. Inr name),
     MakeTopic = (\<lambda>a. Inr a)\<rparr>"

definition alice_calls :: "string \<Rightarrow> contract" where
  "alice_calls name = \<lparr>Caller = ''alice'', contract_Input = name\<rparr>"

lemma ref_execute_lock:
  "Execute ref_sdk ref_abi jan rw0 (alice_calls ''lock'') False =
     Inr (rw1, [\<lparr>log_Address = LockupPrecompileAddress, Topics = [''Lock'', ''alice''], log_Data = ''Lock'',
       BlockNumber = 7\<rparr>], [ev_lock ''alice'' ''2025-06-30'' ''200''], ''lock'')"
proof -
  have "NewMsgLock_abi ref_sdk (ref_args ''lock'') ''aTSC'' = Inr (lock_200, ''alice'')" by code_simp
  moreover have "BondDenom ref_sdk rw0 = Inr ''aTSC''" by (simp add: ref_sdk_def ref_denom_def)
  moreover have "EmitLockEvent ref_abi jan lock_200 ''alice'' = Inr \<lparr>log_Address = LockupPrecompileAddress,
      Topics = [''Lock'', ''alice''], log_Data = ''Lock'', BlockNumber = 7\<rparr>"
    by (simp add: EmitLockEvent_def ref_abi_def jan_def)
  moreover have "SetupABI ref_abi (alice_calls ''lock'') False IsTransaction = Inr (LockMethod, ref_args ''lock'')"
    "OutputsPack ref_abi LockMethod [BoolV True] = Inr ''lock''" "Caller (alice_calls ''lock'') = ''alice''"
    by (simp_all add: ref_abi_def alice_calls_def LockMethod_def)
  ultimately show ?thesis
    using ref_lock_200 by (simp add: Execute_def Lock_precompile_def)
qed

text \<open>
  C34. A successful call of the precompile keeps the invariant of the lockup module, and either
  leaves the state as it is (queries) or ran exactly one message of the module, in the name of the
  caller: a lock or extension of the caller's own address, or a send from the caller's address.
\<close>

theorem Execute_for_caller:
  assumes "lockup_env K view" and "0 \<le> BlockTime ctx" and "lockup_ok K view w"
    and "Execute K B ctx w contract readOnly = Inr (w', logs, ev, bz)"
  defines "sender \<equiv> AccAddressString K (Caller contract)"
  shows "lockup_ok K view w' \<and> (w' = w \<and> logs = [] \<and> ev = [] \<or>
    (\<exists>msg. lk_Address msg = sender \<and> Lock K ctx w msg = Inr (w', ev)) \<or>
    (\<exists>msg. ex_Address msg = sender \<and> Extend K ctx w msg = Inr (w', ev)) \<or>
    (\<exists>msg. FromAddress msg = sender \<and> SendDelegateAndLock K ctx w msg = Inr (w', ev)))"
  using lockup_env.Execute_ok [OF assms(1,4,2,3)] Execute_cases [OF assms(4)]
  by (auto simp: ran_def sender_def)

theorem Execute_for_caller_witness: "lockup_ok ref_sdk ref_view rw1"
proof -
  have "lockup_ok ref_sdk ref_view rw0"
    using lockup_env.reachable_ok [OF ref_env ref_reachable(1)] .
  moreover have "0 \<le> BlockTime jan" by (simp add: jan_def)
  ultimately show ?thesis using Execute_for_caller [OF ref_env _ _ ref_execute_lock] by blast
qed

text \<open>
  C35. A read-only call never changes the state, if the common setup refuses transaction methods in
  a read-only call as it documents: whatever succeeds is a query without logs or events.
\<close>

theorem Execute_readonly:
  assumes "\<And>name args. SetupABI B contract True IsTransaction = Inr (name, args) \<Longrightarrow> \<not> IsTransaction name"
    and "Execute K B ctx w contract True = Inr (w', logs, ev, bz)"
  shows "w' = w \<and> logs = [] \<and> ev = []"
proof -
  obtain name args where n: "SetupABI B contract True IsTransaction = Inr (name, args)"
    using assms(2) by (auto simp: Execute_def)
  from assms(1) [OF this] have "name \<noteq> LockMethod" "name \<noteq> ExtendMethod" "name \<noteq> SendDelegateAndLockMethod"
    by (auto simp: IsTransaction_def)
  with n assms(2) show ?thesis
    by (auto simp: Execute_def Locks_precompile_def TotalLockedAmount_precompile_def
        split: if_splits list.splits abi_value.splits)
qed

theorem Execute_readonly_witness:
  "\<not> isl (Execute ref_sdk ref_abi jan rw1 (alice_calls ''locks'') True) \<and>
   fst (projr (Execute ref_sdk ref_abi jan rw1 (alice_calls ''locks'') True)) = rw1"
proof
  show "\<not> isl (Execute ref_sdk ref_abi jan rw1 (alice_calls ''locks'') True)" by code_simp
  then obtain w' logs ev bz
    where e: "Execute ref_sdk ref_abi jan rw1 (alice_calls ''locks'') True = Inr (w', logs, ev, bz)"
    by (auto elim!: not_islE)
  have "w' = rw1 \<and> logs = [] \<and> ev = []"
    using e by (rule Execute_readonly [rotated]) (auto simp: ref_abi_def split: if_splits)
  with e show "fst (projr (Execute ref_sdk ref_abi jan rw1 (alice_calls ''locks'') True)) = rw1" by simp
qed

text \<open>
  C36. The \<open>extend\<close> method of the precompile never succeeds: \<open>parseExtensions\<close> accepts only a slice of
  the struct type it declares in its own body, and no argument made outside it has that type; the
  ABI decoder in particular builds slices of anonymous structs.
\<close>

theorem Extend_precompile_fails:
  assumes "\<And>inputs. ExtensionInputs inputs \<notin> set args"
  shows "\<exists>e. Extend_precompile K B ctx w contract args = Inl e"
proof (cases "Extend_precompile K B ctx w contract args")
  case (Inr r)
  then obtain d msg a where "NewMsgExtend_abi K args d = Inr (msg, a)"
    by (auto simp: Extend_precompile_def)
  then obtain inputs where "length args = 2" "args ! 1 = ExtensionInputs inputs"
    by (rule NewMsgExtend_abi_Inr)
  then have "ExtensionInputs inputs \<in> set args" by (metis nth_mem lessI numeral_2_eq_2 One_nat_def)
  with assms show ?thesis by blast
qed blast

theorem Extend_precompile_fails_witness:
  "\<exists>e. Extend_precompile ref_sdk ref_abi jan rw1 (alice_calls ''extend'') (ref_args ''extend'') = Inl e"
  by (rule Extend_precompile_fails) (simp add: ref_args_def)

end
