(* ===== verification/Ante.thy ===== *)
theory Ante
  imports Lock_Delegation
begin

text \<open>
  The ante handler (\<open>app/ante/ante.go\<close>, \<open>cosmos.go\<close>, \<open>evm.go\<close>, \<open>handler_options.go\<close>): the checks of
  its options, the two chains of decorators and the routing of a transaction to one of them. Every
  decorator but the redelegation marker is third-party code: a chain is the list of its constructor
  calls, and what they do, and how the SDK chains them, is a parameter.
\<close>

section \<open>Options\<close>

text \<open>The keepers that \<open>Validate\<close> requires may be nil; of the others only what the chains pass on is kept.\<close>

record 'k HandlerOptions =
  Cdc :: "'k option"
  BankKeeper :: "'k option"
  SigGasConsumer :: "'k option"
  SignModeHandler :: "'k option"
  FeeMarketKeeper :: "'k option"
  EvmKeeper :: "'k option"
  MaxTxGasWanted :: "64 word"
  DynamicFeeChecker :: bool

definition HandlerOptions_Validate :: "'k HandlerOptions \<Rightarrow> unit res" where
  "HandlerOptions_Validate options =
     bnd (require (Cdc options \<noteq> None) (ErrLogic ''codec is required for AnteHandler'')) (\<lambda>_.
     bnd (require (BankKeeper options \<noteq> None) (ErrLogic ''bank keeper is required for AnteHandler'')) (\<lambda>_.
     bnd (require (SigGasConsumer options \<noteq> None)
            (ErrLogic ''signature gas consumer is required for AnteHandler'')) (\<lambda>_.
     bnd (require (SignModeHandler options \<noteq> None)
            (ErrLogic ''sign mode handler is required for AnteHandler'')) (\<lambda>_.
     bnd (require (FeeMarketKeeper options \<noteq> None)
            (ErrLogic ''fee market keeper is required for AnteHandler'')) (\<lambda>_.
     require (EvmKeeper options \<noteq> None) (ErrLogic ''evm keeper is required for AnteHandler''))))))"

section \<open>Decorators\<close>

text \<open>The constructor calls; \<open>'p\<close> and \<open>'q\<close> are the fee market's and the EVM's parameters.\<close>

datatype ('p, 'q) decorator =
    RedelegationMarkerDecorator
  | RejectMessagesDecorator
  | AuthzLimiterDecorator "string list"
  | SetUpContextDecorator
  | ExtensionOptionsDecorator
  | ValidateBasicDecorator
  | TxTimeoutHeightDecorator
  | ValidateMemoDecorator
  | MinGasPriceDecorator 'p
  | ConsumeGasForTxSizeDecorator
  | DeductFeeDecorator "'p option"
  | SetPubKeyDecorator
  | ValidateSigCountDecorator
  | SigGasConsumeDecorator
  | SigVerificationDecorator
  | IncrementSequenceDecorator
  | RedundantRelayDecorator
  | EVMMonoDecorator "64 word" 'q 'p
  | TxListenerDecorator

record sdk_tx =
  tx_Msgs :: "tx_msg list"
  ExtensionOptions :: "string list option"

type_synonym ante_handler = "sdk_ctx \<Rightarrow> sdk_tx \<Rightarrow> bool \<Rightarrow> sdk_ctx res"
type_synonym ante_step = "sdk_ctx \<Rightarrow> sdk_tx \<Rightarrow> bool \<Rightarrow> ante_handler \<Rightarrow> sdk_ctx res"

record ('p, 'q) ante_lib =
  FeeMarketParams :: "sdk_ctx \<Rightarrow> 'p"
  EvmParams :: "sdk_ctx \<Rightarrow> 'q"
  third_party :: "('p, 'q) decorator \<Rightarrow> ante_step"
  ChainAnteDecorators :: "ante_step list \<Rightarrow> ante_handler"

definition ante_step_of :: "('w, 'v) sdk \<Rightarrow> ('p, 'q) ante_lib \<Rightarrow> ('p, 'q) decorator \<Rightarrow> ante_step" where
  "ante_step_of K A d =
     (case d of
        RedelegationMarkerDecorator \<Rightarrow> (\<lambda>ctx tx sim next_handler.
          AnteHandle K ctx (tx_Msgs tx) (\<lambda>ctx. next_handler ctx tx sim))
      | _ \<Rightarrow> third_party A d)"

section \<open>Chains\<close>

definition cosmos_decorators :: "'k HandlerOptions \<Rightarrow> 'p \<Rightarrow> ('p, 'q) decorator list" where
  "cosmos_decorators options feemarketParams =
     (let txFeeChecker = (if DynamicFeeChecker options then Some feemarketParams else None)
      in [RedelegationMarkerDecorator,
          RejectMessagesDecorator,
          AuthzLimiterDecorator
            [''/cosmos.evm.vm.v1.MsgEthereumTx'', ''/cosmos.vesting.v1beta1.MsgCreateVestingAccount''],
          SetUpContextDecorator,
          ExtensionOptionsDecorator,
          ValidateBasicDecorator,
          TxTimeoutHeightDecorator,
          ValidateMemoDecorator,
          MinGasPriceDecorator feemarketParams,
          ConsumeGasForTxSizeDecorator,
          DeductFeeDecorator txFeeChecker,
          SetPubKeyDecorator,
          ValidateSigCountDecorator,
          SigGasConsumeDecorator,
          SigVerificationDecorator,
          IncrementSequenceDecorator,
          RedundantRelayDecorator])"

definition newCosmosAnteHandler ::
    "('w, 'v) sdk \<Rightarrow> ('p, 'q) ante_lib \<Rightarrow> sdk_ctx \<Rightarrow> 'k HandlerOptions \<Rightarrow> ante_handler" where
  "newCosmosAnteHandler K A ctx options =
     ChainAnteDecorators A (map (ante_step_of K A) (cosmos_decorators options (FeeMarketParams A ctx)))"

definition evm_decorators :: "'k HandlerOptions \<Rightarrow> 'q \<Rightarrow> 'p \<Rightarrow> ('p, 'q) decorator list" where
  "evm_decorators options evmParams feemarketParams =
     [EVMMonoDecorator (MaxTxGasWanted options) evmParams feemarketParams, TxListenerDecorator]"

definition newMonoEVMAnteHandler ::
    "('w, 'v) sdk \<Rightarrow> ('p, 'q) ante_lib \<Rightarrow> sdk_ctx \<Rightarrow> 'k HandlerOptions \<Rightarrow> ante_handler" where
  "newMonoEVMAnteHandler K A ctx options =
     ChainAnteDecorators A (map (ante_step_of K A)
       (evm_decorators options (EvmParams A ctx) (FeeMarketParams A ctx)))"

text \<open>\<open>None\<close> is a nil transaction, the only value the type switch at the end does not accept.\<close>

definition NewAnteHandler ::
    "('w, 'v) sdk \<Rightarrow> ('p, 'q) ante_lib \<Rightarrow> 'k HandlerOptions \<Rightarrow> sdk_ctx \<Rightarrow> sdk_tx option \<Rightarrow> bool \<Rightarrow> sdk_ctx res" where
  "NewAnteHandler K A options ctx tx sim =
     (case tx of
        None \<Rightarrow> Inl ErrUnknownRequest
      | Some tx \<Rightarrow>
          (case ExtensionOptions tx of
             Some (typeURL # opts) \<Rightarrow>
               if typeURL = ''/cosmos.evm.vm.v1.ExtensionOptionsEthereumTx''
               then newMonoEVMAnteHandler K A ctx options ctx tx sim
               else if typeURL = ''/cosmos.evm.ante.v1.ExtensionOptionDynamicFeeTx''
               then newCosmosAnteHandler K A ctx options ctx tx sim
               else Inl ErrUnknownExtensionOptions
           | _ \<Rightarrow> newCosmosAnteHandler K A ctx options ctx tx sim))"

text \<open>
  \<open>setAnteHandler\<close> of \<open>app/app.go\<close>: the application's keepers become the options, and options that do not
  validate are a panic.
\<close>

definition app_options ::
    "'k option \<Rightarrow> 'k option \<Rightarrow> 'k option \<Rightarrow> 'k option \<Rightarrow> 'k option \<Rightarrow> 'k \<Rightarrow> 64 word \<Rightarrow> 'k HandlerOptions" where
  "app_options appCodec bankKeeper evmKeeper feeMarketKeeper signModeHandler sigVerificationGasConsumer maxGasWanted =
     \<lparr>Cdc = appCodec, BankKeeper = bankKeeper, SigGasConsumer = Some sigVerificationGasConsumer,
      SignModeHandler = signModeHandler, FeeMarketKeeper = feeMarketKeeper, EvmKeeper = evmKeeper,
      MaxTxGasWanted = maxGasWanted, DynamicFeeChecker = True\<rparr>"

definition setAnteHandler ::
    "('w, 'v) sdk \<Rightarrow> ('p, 'q) ante_lib \<Rightarrow> 'k HandlerOptions \<Rightarrow> (sdk_ctx \<Rightarrow> sdk_tx option \<Rightarrow> bool \<Rightarrow> sdk_ctx res) res" where
  "setAnteHandler K A options =
     (case HandlerOptions_Validate options of
        Inl e \<Rightarrow> Inl (GoPanic ''invalid ante handler options'')
      | Inr _ \<Rightarrow> Inr (NewAnteHandler K A options))"

text \<open>The application starts exactly when none of the keepers the chains use is missing.\<close>

lemma setAnteHandler_starts:
  "(\<exists>h. setAnteHandler K A (app_options cdc bank evm fee sign sig gas) = Inr h) \<longleftrightarrow>
     cdc \<noteq> None \<and> bank \<noteq> None \<and> evm \<noteq> None \<and> fee \<noteq> None \<and> sign \<noteq> None"
  by (auto simp: setAnteHandler_def app_options_def HandlerOptions_Validate_def res_iffs require_def bnd_def
      split: sum.splits)

section \<open>The chain law\<close>

text \<open>
  Each decorator wraps the ones behind it and the last one a handler that returns the context (the
  SDK's terminator): the laws of \<open>ChainAnteDecorators\<close>, and the
  first steps of the two chains under it.
\<close>

locale ante_chain =
  fixes K :: "('w, 'v) sdk" and A :: "('p, 'q) ante_lib"
  assumes chain: "ds \<noteq> [] \<Longrightarrow>
      ChainAnteDecorators A (d # ds) ctx tx sim = d ctx tx sim (ChainAnteDecorators A ds)"
    and chain_last: "ChainAnteDecorators A [d] ctx tx sim = d ctx tx sim (\<lambda>ctx tx sim. Inr ctx)"
begin

lemma cosmos_first:
  assumes "newCosmosAnteHandler K A ctx0 options ctx tx sim = Inr r"
  shows "\<exists>ctx'. BlockTime ctx' = BlockTime ctx \<and>
    (\<forall>d v. isRedelegating ctx' d v \<longleftrightarrow> (\<exists>d' v'. marked K (tx_Msgs tx) d' v' \<and>
       d' @ [char_of (0::nat)] @ v' = d @ [char_of (0::nat)] @ v) \<or> isRedelegating ctx d v) \<and>
    (\<forall>d v. one_length K (tx_Msgs tx) d \<longrightarrow>
       (isRedelegating ctx' d v \<longleftrightarrow> marked K (tx_Msgs tx) d v \<or> isRedelegating ctx d v)) \<and>
    third_party A RejectMessagesDecorator ctx' tx sim
      (ChainAnteDecorators A (map (ante_step_of K A)
         (drop 2 (cosmos_decorators options (FeeMarketParams A ctx0))))) = Inr r"
proof -
  let ?ds = "cosmos_decorators options (FeeMarketParams A ctx0)"
  have "?ds = RedelegationMarkerDecorator # RejectMessagesDecorator # drop 2 ?ds"
    by (simp add: cosmos_decorators_def Let_def)
  then have ds: "map (ante_step_of K A) ?ds = ante_step_of K A RedelegationMarkerDecorator #
      ante_step_of K A RejectMessagesDecorator # map (ante_step_of K A) (drop 2 ?ds)"
    by (metis list.simps(9))
  have "map (ante_step_of K A) (drop 2 ?ds) \<noteq> []" by (simp add: cosmos_decorators_def Let_def)
  note step = chain [OF this]
  from assms obtain ctx' where c: "foldM (mark_msg K) ctx (tx_Msgs tx) = Inr ctx'"
    "third_party A RejectMessagesDecorator ctx' tx sim (ChainAnteDecorators A (map (ante_step_of K A) (drop 2 ?ds))) = Inr r"
    unfolding newCosmosAnteHandler_def ds by (auto simp: chain step ante_step_of_def AnteHandle_def)
  show ?thesis
    using c(2) mark_loop [OF c(1)] mark_loop_exact [OF c(1)] by (intro exI [of _ ctx'] conjI allI impI) blast+
qed

lemma evm_steps:
  "newMonoEVMAnteHandler K A ctx0 options ctx tx sim =
     third_party A (EVMMonoDecorator (MaxTxGasWanted options) (EvmParams A ctx0) (FeeMarketParams A ctx0)) ctx tx sim
       (\<lambda>ctx tx sim. third_party A TxListenerDecorator ctx tx sim (\<lambda>ctx tx sim. Inr ctx))"
proof -
  have "ChainAnteDecorators A [third_party A TxListenerDecorator] =
      (\<lambda>ctx tx sim. third_party A TxListenerDecorator ctx tx sim (\<lambda>ctx tx sim. Inr ctx))"
    by (intro ext) (rule chain_last)
  then show ?thesis
    by (simp add: newMonoEVMAnteHandler_def evm_decorators_def chain ante_step_of_def)
qed

end

end
