(* ===== verification/Ante_Props.thy ===== *)
theory Ante_Props
  imports Ante Ref_Run
begin

text \<open>The routing of transactions, applied to a chain whose third-party decorators let everything pass.\<close>

definition ref_ante :: "(unit, unit) ante_lib" where
  "ref_ante = \<lparr>FeeMarketParams = (\<lambda>_. ()), EvmParams = (\<lambda>_. ()),
     third_party = (\<lambda>d ctx tx sim next_handler. next_handler ctx tx sim),
     ChainAnteDecorators = (\<lambda>ds. foldr (\<lambda>d next_handler ctx tx sim. d ctx tx sim next_handler) ds
       (\<lambda>ctx tx sim. Inr ctx))\<rparr>"

interpretation ref_chain: ante_chain ref_sdk ref_ante
  by unfold_locales (simp_all add: ref_ante_def)

definition ref_options :: "unit HandlerOptions" where
  "ref_options = \<lparr>Cdc = Some (), BankKeeper = Some (), SigGasConsumer = Some (), SignModeHandler = Some (),
     FeeMarketKeeper = Some (), EvmKeeper = Some (), MaxTxGasWanted = 0, DynamicFeeChecker = True\<rparr>"

text \<open>
  C37. The ante handler sends a transaction whose first extension option is the Ethereum one to the
  EVM chain, where no redelegation is marked; refuses any other unknown first extension; and
  handles the rest as Cosmos transactions, for which the pairs the redelegations of the messages name are
  marked before the first third-party decorator, the one that rejects EVM messages, sees the context:
  these and the pairs marked before, exactly, by the string that joins the two addresses, and so by
  the pair itself whenever the messages' delegators have one length.
\<close>

theorem NewAnteHandler_routes:
  assumes "ante_chain A"
  shows "(ExtensionOptions tx = Some (''/cosmos.evm.vm.v1.ExtensionOptionsEthereumTx'' # opts) \<longrightarrow>
      NewAnteHandler K A options ctx (Some tx) sim =
        third_party A (EVMMonoDecorator (MaxTxGasWanted options) (EvmParams A ctx) (FeeMarketParams A ctx)) ctx tx sim
          (\<lambda>ctx tx sim. third_party A TxListenerDecorator ctx tx sim (\<lambda>ctx tx sim. Inr ctx))) \<and>
    (\<forall>url. ExtensionOptions tx = Some (url # opts) \<and>
        url \<notin> {''/cosmos.evm.vm.v1.ExtensionOptionsEthereumTx'', ''/cosmos.evm.ante.v1.ExtensionOptionDynamicFeeTx''} \<longrightarrow>
      NewAnteHandler K A options ctx (Some tx) sim = Inl ErrUnknownExtensionOptions) \<and>
    (\<forall>r. ExtensionOptions tx \<in> {None, Some [], Some (''/cosmos.evm.ante.v1.ExtensionOptionDynamicFeeTx'' # opts)} \<and>
        NewAnteHandler K A options ctx (Some tx) sim = Inr r \<longrightarrow>
      (\<exists>ctx'. BlockTime ctx' = BlockTime ctx \<and>
        (\<forall>d v. isRedelegating ctx' d v \<longleftrightarrow> (\<exists>d' v'. marked K (tx_Msgs tx) d' v' \<and>
           d' @ [char_of (0::nat)] @ v' = d @ [char_of (0::nat)] @ v) \<or> isRedelegating ctx d v) \<and>
        (\<forall>d v. one_length K (tx_Msgs tx) d \<longrightarrow>
           (isRedelegating ctx' d v \<longleftrightarrow> marked K (tx_Msgs tx) d v \<or> isRedelegating ctx d v)) \<and>
        third_party A RejectMessagesDecorator ctx' tx sim
          (ChainAnteDecorators A (map (ante_step_of K A)
             (drop 2 (cosmos_decorators options (FeeMarketParams A ctx))))) = Inr r))"
proof (intro conjI impI allI)
  assume "ExtensionOptions tx = Some (''/cosmos.evm.vm.v1.ExtensionOptionsEthereumTx'' # opts)"
  then show "NewAnteHandler K A options ctx (Some tx) sim =
      third_party A (EVMMonoDecorator (MaxTxGasWanted options) (EvmParams A ctx) (FeeMarketParams A ctx)) ctx tx sim
        (\<lambda>ctx tx sim. third_party A TxListenerDecorator ctx tx sim (\<lambda>ctx tx sim. Inr ctx))"
    by (simp add: NewAnteHandler_def ante_chain.evm_steps [OF assms])
next
  fix url
  assume "ExtensionOptions tx = Some (url # opts) \<and>
    url \<notin> {''/cosmos.evm.vm.v1.ExtensionOptionsEthereumTx'', ''/cosmos.evm.ante.v1.ExtensionOptionDynamicFeeTx''}"
  then show "NewAnteHandler K A options ctx (Some tx) sim = Inl ErrUnknownExtensionOptions"
    by (simp add: NewAnteHandler_def)
next
  fix r
  assume "ExtensionOptions tx \<in> {None, Some [], Some (''/cosmos.evm.ante.v1.ExtensionOptionDynamicFeeTx'' # opts)} \<and>
    NewAnteHandler K A options ctx (Some tx) sim = Inr r"
  then have "newCosmosAnteHandler K A ctx options ctx tx sim = Inr r" by (auto simp: NewAnteHandler_def)
  then show "\<exists>ctx'. BlockTime ctx' = BlockTime ctx \<and>
      (\<forall>d v. isRedelegating ctx' d v \<longleftrightarrow> (\<exists>d' v'. marked K (tx_Msgs tx) d' v' \<and>
         d' @ [char_of (0::nat)] @ v' = d @ [char_of (0::nat)] @ v) \<or> isRedelegating ctx d v) \<and>
      (\<forall>d v. one_length K (tx_Msgs tx) d \<longrightarrow>
         (isRedelegating ctx' d v \<longleftrightarrow> marked K (tx_Msgs tx) d v \<or> isRedelegating ctx d v)) \<and>
      third_party A RejectMessagesDecorator ctx' tx sim
        (ChainAnteDecorators A (map (ante_step_of K A)
           (drop 2 (cosmos_decorators options (FeeMarketParams A ctx))))) = Inr r"
    by (rule ante_chain.cosmos_first [OF assms])
qed

theorem NewAnteHandler_routes_witness:
  "NewAnteHandler ref_sdk ref_ante ref_options jan
     (Some \<lparr>tx_Msgs = [], ExtensionOptions = Some [''/unknown'']\<rparr>) False = Inl ErrUnknownExtensionOptions"
  using NewAnteHandler_routes [OF ref_chain.ante_chain_axioms,
      of "\<lparr>tx_Msgs = [], ExtensionOptions = Some [''/unknown'']\<rparr>" "[]" ref_sdk ref_options jan False]
  by auto

end
