(* ===== verification/Cli.thy ===== *)
theory Cli
  imports Lock_Msgs Ref_World
begin

text \<open>
  The transaction commands of the lockup module (\<open>x/lockup/client/cli/tx.go\<close>): how the command-line
  arguments become messages, up to the stateless validation before the broadcast. The integer parser
  is an argument, the sender's address comes from the client context; cobra's argument counts are the
  guards at the start of each command. The genesis functions of the module (\<open>x/lockup/keeper/keeper.go\<close>,
  \<open>x/lockup/types/genesis.go\<close>) stand at the end.
\<close>

fun split_at :: "char \<Rightarrow> string \<Rightarrow> string list" where
  "split_at sep [] = [[]]"
| "split_at sep (c # cs) =
     (if c = sep then [] # split_at sep cs
      else case split_at sep cs of [] \<Rightarrow> [[c]] | part # parts \<Rightarrow> (c # part) # parts)"

abbreviation colon :: char where "colon \<equiv> CHR '':''"

definition parse_amount :: "(string \<Rightarrow> int option) \<Rightarrow> string \<Rightarrow> int res" where
  "parse_amount P s = (case P s of None \<Rightarrow> Inl (FmtError ''invalid amount'') | Some x \<Rightarrow> Inr x)"

definition CmdLock ::
    "('w, 'v) sdk \<Rightarrow> (string \<Rightarrow> int option) \<Rightarrow> addr \<Rightarrow> string list \<Rightarrow> MsgLock res" where
  "CmdLock K P sender args =
     bnd (require (length args = 2) (FmtError ''accepts 2 arg(s)'')) (\<lambda>_.
     bnd (parse_amount P (args ! 1)) (\<lambda>amount.
     bnd (NewCoin K ''aTSC'' amount) (\<lambda>c.
     let msg = \<lparr>lk_Address = AccAddressString K sender, lk_UnlockDate = args ! 0, lk_Amount = c\<rparr>
     in bnd (MsgLock_ValidateBasic K msg) (\<lambda>_. Inr msg))))"

definition extension_arg ::
    "('w, 'v) sdk \<Rightarrow> (string \<Rightarrow> int option) \<Rightarrow> Extension list \<Rightarrow> string \<Rightarrow> Extension list res" where
  "extension_arg K P extensions arg =
     (let parts = split_at colon arg
      in bnd (require (length parts = 3) (FmtError ''invalid extension format'')) (\<lambda>_.
         bnd (parse_amount P (parts ! 2)) (\<lambda>amount.
         bnd (NewCoin K ''aTSC'' amount) (\<lambda>c.
         Inr (extensions @ [\<lparr>FromDate = parts ! 0, ToDate = parts ! 1, ext_Amount = c\<rparr>])))))"

definition CmdExtend ::
    "('w, 'v) sdk \<Rightarrow> (string \<Rightarrow> int option) \<Rightarrow> addr \<Rightarrow> string list \<Rightarrow> MsgExtend res" where
  "CmdExtend K P sender args =
     bnd (require (1 \<le> length args) (FmtError ''requires at least 1 arg(s)'')) (\<lambda>_.
     bnd (foldM (extension_arg K P) [] args) (\<lambda>extensions.
     let msg = \<lparr>ex_Address = AccAddressString K sender, Extensions = extensions\<rparr>
     in bnd (MsgExtend_ValidateBasic K msg) (\<lambda>_. Inr msg)))"

definition CmdSendDelegateAndLock ::
    "('w, 'v) sdk \<Rightarrow> (string \<Rightarrow> int option) \<Rightarrow> addr \<Rightarrow> string list \<Rightarrow> MsgSendDelegateAndLock res" where
  "CmdSendDelegateAndLock K P sender args =
     bnd (require (length args = 4) (FmtError ''accepts 4 arg(s)'')) (\<lambda>_.
     bnd (parse_amount P (args ! 3)) (\<lambda>amount.
     bnd (NewCoin K ''aTSC'' amount) (\<lambda>c.
     let msg = \<lparr>FromAddress = AccAddressString K sender, ToAddress = args ! 0,
                ValidatorAddress = args ! 1, sdl_UnlockDate = args ! 2, sdl_Amount = c\<rparr>
     in bnd (MsgSendDelegateAndLock_ValidateBasic K msg) (\<lambda>_. Inr msg))))"

definition output_arg ::
    "('w, 'v) sdk \<Rightarrow> (string \<Rightarrow> int option) \<Rightarrow> int \<times> MultiOutput list \<Rightarrow> string \<Rightarrow> (int \<times> MultiOutput list) res" where
  "output_arg K P st arg =
     (let (totalAmount, outputs) = st; parts = split_at colon arg
      in bnd (require (length parts = 4) (FmtError ''invalid output format'')) (\<lambda>_.
         bnd (parse_amount P (parts ! 3)) (\<lambda>amount.
         bnd (int_add totalAmount amount) (\<lambda>totalAmount.
         bnd (NewCoin K ''aTSC'' amount) (\<lambda>c.
         Inr (totalAmount, outputs @ [\<lparr>out_FromAddress = [], out_ToAddress = parts ! 0, out_ValidatorAddress = parts ! 1,
           out_UnlockDate = parts ! 2, out_Amount = c\<rparr>]))))))"

definition CmdMultiSendDelegateAndLock ::
    "('w, 'v) sdk \<Rightarrow> (string \<Rightarrow> int option) \<Rightarrow> addr \<Rightarrow> string list \<Rightarrow> MsgMultiSendDelegateAndLock res" where
  "CmdMultiSendDelegateAndLock K P sender args =
     bnd (require (1 \<le> length args) (FmtError ''requires at least 1 arg(s)'')) (\<lambda>_.
     bnd (foldM (output_arg K P) (0, []) args) (\<lambda>(totalAmount, outputs).
     bnd (NewCoin K ''aTSC'' totalAmount) (\<lambda>c.
     let msg = \<lparr>mu_FromAddress = AccAddressString K sender, TotalAmount = c, Outputs = outputs\<rparr>
     in bnd (MsgMultiSendDelegateAndLock_ValidateBasic K msg) (\<lambda>_. Inr msg))))"

section \<open>Genesis\<close>

text \<open>The genesis state of the lockup module has no fields.\<close>

datatype lockup_GenesisState = GenesisState

definition lockup_DefaultGenesis :: lockup_GenesisState where
  "lockup_DefaultGenesis = GenesisState"

definition lockup_GenesisState_Validate :: "lockup_GenesisState \<Rightarrow> unit res" where
  "lockup_GenesisState_Validate gs = Inr ()"

definition lockup_InitGenesis :: "'w \<Rightarrow> lockup_GenesisState \<Rightarrow> 'w res" where
  "lockup_InitGenesis w data = Inr w"

definition lockup_ExportGenesis :: "'w \<Rightarrow> lockup_GenesisState" where
  "lockup_ExportGenesis w = GenesisState"

section \<open>The totals of a multi-send\<close>

lemma output_loop:
  assumes "foldM (output_arg K P) (n, outs) args = Inr (m, outs')"
    and "\<And>x c. NewCoin K ''aTSC'' x = Inr c \<Longrightarrow> c = \<lparr>Denom = ''aTSC'', CoinAmount = x\<rparr>"
    and "n = (\<Sum>out \<leftarrow> outs. CoinAmount (out_Amount out)) \<and> (\<forall>out \<in> set outs. Denom (out_Amount out) = ''aTSC'')"
  shows "m = (\<Sum>out \<leftarrow> outs'. CoinAmount (out_Amount out)) \<and> (\<forall>out \<in> set outs'. Denom (out_Amount out) = ''aTSC'')"
proof -
  have "(\<lambda>(n, outs). n = (\<Sum>out \<leftarrow> outs. CoinAmount (out_Amount out)) \<and>
      (\<forall>out \<in> set outs. Denom (out_Amount out) = ''aTSC'')) (m, outs')"
    using assms(1)
  proof (rule foldM_invariant)
    fix t x t'
    assume "case t of (n, outs) \<Rightarrow> n = (\<Sum>out \<leftarrow> outs. CoinAmount (out_Amount out)) \<and>
        (\<forall>out \<in> set outs. Denom (out_Amount out) = ''aTSC'')" "output_arg K P t x = Inr t'"
    then show "case t' of (n, outs) \<Rightarrow> n = (\<Sum>out \<leftarrow> outs. CoinAmount (out_Amount out)) \<and>
        (\<forall>out \<in> set outs. Denom (out_Amount out) = ''aTSC'')"
      by (auto simp: output_arg_def Let_def int_op_Inr dest!: assms(2))
  qed (use assms(3) in simp)
  then show ?thesis by simp
qed

text \<open>A total of positive outputs that did not overflow once is accepted by the handler's own sum.\<close>

lemma output_total_fits:
  assumes "\<forall>out \<in> set outs. 0 < CoinAmount (out_Amount out)"
    and "int_fits (\<Sum>out \<leftarrow> outs. CoinAmount (out_Amount out))"
  shows "output_total outs = Inr (\<Sum>out \<leftarrow> outs. CoinAmount (out_Amount out))"
proof -
  have "output_total outs = foldM (\<lambda>n out. int_add n (CoinAmount (out_Amount out))) 0 outs"
    unfolding output_total_def by (rule foldM_cong) (use assms(1) in simp)
  also have "\<dots> = Inr (0 + (\<Sum>out \<leftarrow> outs. CoinAmount (out_Amount out)))"
    using assms by (intro foldM_int_add_fits) (auto intro: less_imp_le)
  finally show ?thesis by simp
qed

lemma split_join:
  assumes "\<And>s. s \<in> set ss \<Longrightarrow> sep \<notin> set s" "ss \<noteq> []"
  shows "split_at sep (concat (map (\<lambda>s. s @ [sep]) (butlast ss)) @ last ss) = ss"
proof -
  have base: "sep \<notin> set s \<Longrightarrow> split_at sep s = [s]" for s by (induction s) auto
  have step: "sep \<notin> set s \<Longrightarrow> split_at sep (s @ sep # r) = s # split_at sep r" for s r
    by (induction s) auto
  show ?thesis
    using assms by (induction ss) (auto simp: base step)
qed

end
