(* ===== verification/Cli_Props.thy ===== *)
theory Cli_Props
  imports Cli Lock_Inv Ref_Run
begin

text \<open>
  The messages the command line builds, and what is left of the module's state after an export and
  an import.
\<close>

definition ref_parse :: "string \<Rightarrow> int option" where
  "ref_parse s = map_of [(''100'', 100), (''200'', 200), (''0'', 0)] s"

lemma CmdMulti_InrE:
  assumes "CmdMultiSendDelegateAndLock K P sender args = Inr msg"
  obtains n outs c where "foldM (output_arg K P) (0, []) args = Inr (n, outs)"
    "NewCoin K ''aTSC'' n = Inr c" "args \<noteq> []"
    "msg = \<lparr>mu_FromAddress = AccAddressString K sender, TotalAmount = c, Outputs = outs\<rparr>"
  using assms by (auto simp: CmdMultiSendDelegateAndLock_def Let_def Suc_le_eq)

lemma output_loop_fits:
  assumes "foldM (output_arg K P) (n, outs) args = Inr (m, outs')" "int_fits n"
  shows "int_fits m"
proof -
  have "(\<lambda>(n, outs). int_fits n) (m, outs')"
    using assms(1) by (rule foldM_invariant)
      (use assms(2) in \<open>auto simp: output_arg_def Let_def int_op_Inr\<close>)
  then show ?thesis by simp
qed

lemma output_loop_length:
  assumes "foldM (output_arg K P) (n, outs) args = Inr (m, outs')"
  shows "length outs' = length outs + length args"
  using assms
  by (induction args arbitrary: n outs) (auto simp: output_arg_def Let_def split: prod.splits)

text \<open>
  A multi-send built by the command line carries one output per argument, states as its total
  the exact sum of its outputs, all of them and the total in \<open>aTSC\<close>, and, when no output is zero,
  its total is the one the handler computes: the message is never refused because its total does
  not match its outputs.
\<close>

theorem CmdMulti_total:
  assumes "CmdMultiSendDelegateAndLock K P sender args = Inr msg"
    and "\<And>x c. NewCoin K ''aTSC'' x = Inr c \<Longrightarrow> 0 \<le> x \<and> c = \<lparr>Denom = ''aTSC'', CoinAmount = x\<rparr>"
  shows "length (Outputs msg) = length args \<and>
    (Denom (TotalAmount msg) = ''aTSC'' \<and> (\<forall>out \<in> set (Outputs msg). Denom (out_Amount out) = ''aTSC'')) \<and>
    CoinAmount (TotalAmount msg) = (\<Sum>out \<leftarrow> Outputs msg. CoinAmount (out_Amount out)) \<and>
    ((\<forall>out \<in> set (Outputs msg). CoinAmount (out_Amount out) \<noteq> 0) \<longrightarrow>
       output_total (Outputs msg) = Inr (CoinAmount (TotalAmount msg)))"
proof -
  from assms(1) obtain n outs c where
    f: "foldM (output_arg K P) (0, []) args = Inr (n, outs)" and c: "NewCoin K ''aTSC'' n = Inr c"
    and msg: "msg = \<lparr>mu_FromAddress = AccAddressString K sender, TotalAmount = c, Outputs = outs\<rparr>"
    by (rule CmdMulti_InrE)
  have sum: "n = (\<Sum>out \<leftarrow> outs. CoinAmount (out_Amount out)) \<and> (\<forall>out \<in> set outs. Denom (out_Amount out) = ''aTSC'')"
    by (rule output_loop [OF f]) (use assms(2) in auto)
  have "(\<lambda>(n, outs). \<forall>out \<in> set outs. 0 \<le> CoinAmount (out_Amount out)) (n, outs)"
    using f by (rule foldM_invariant)
      (auto simp: output_arg_def Let_def dest!: assms(2))
  then have pos: "\<forall>out \<in> set outs. 0 \<le> CoinAmount (out_Amount out)" by simp
  have "output_total outs = Inr n" if "\<forall>out \<in> set outs. CoinAmount (out_Amount out) \<noteq> 0"
  proof -
    have "\<forall>out \<in> set outs. 0 < CoinAmount (out_Amount out)" using that pos by (auto simp: order_less_le)
    moreover have "int_fits n" by (rule output_loop_fits [OF f]) (simp add: int_fits_def)
    ultimately show ?thesis using sum output_total_fits [of outs] by simp
  qed
  with sum msg assms(2) [OF c] output_loop_length [OF f] show ?thesis by auto
qed

definition multi_cmd :: "string list" where
  "multi_cmd = [''bob:val1:2025-06-30:100'', ''carol:val2:2025-09-01:200'']"

lemma multi_cmd_result:
  "CmdMultiSendDelegateAndLock ref_sdk ref_parse ''alice'' multi_cmd = Inr
     \<lparr>mu_FromAddress = ''alice'', TotalAmount = \<lparr>Denom = ''aTSC'', CoinAmount = 300\<rparr>, Outputs =
       [\<lparr>out_FromAddress = [], out_ToAddress = ''bob'', out_ValidatorAddress = ''val1'', out_UnlockDate = ''2025-06-30'',
         out_Amount = \<lparr>Denom = ''aTSC'', CoinAmount = 100\<rparr>\<rparr>,
        \<lparr>out_FromAddress = [], out_ToAddress = ''carol'', out_ValidatorAddress = ''val2'', out_UnlockDate = ''2025-09-01'',
         out_Amount = \<lparr>Denom = ''aTSC'', CoinAmount = 200\<rparr>\<rparr>]\<rparr>"
  by code_simp

theorem CmdMulti_total_witness:
  "output_total
     [\<lparr>out_FromAddress = [], out_ToAddress = ''bob'', out_ValidatorAddress = ''val1'', out_UnlockDate = ''2025-06-30'',
       out_Amount = \<lparr>Denom = ''aTSC'', CoinAmount = 100\<rparr>\<rparr>,
      \<lparr>out_FromAddress = [], out_ToAddress = ''carol'', out_ValidatorAddress = ''val2'', out_UnlockDate = ''2025-09-01'',
       out_Amount = \<lparr>Denom = ''aTSC'', CoinAmount = 200\<rparr>\<rparr>] = Inr 300"
proof -
  have "0 \<le> x \<and> c = \<lparr>Denom = ''aTSC'', CoinAmount = x\<rparr>" if "NewCoin ref_sdk ''aTSC'' x = Inr c" for x c
    using that by (auto simp: ref_sdk_def ref_NewCoin_def split: if_splits)
  from CmdMulti_total [OF multi_cmd_result this] show ?thesis by simp
qed

text \<open>
  The genesis functions carry no state over: after an export from any state and an import into a
  fresh store, no address has a lock.
\<close>

theorem genesis_loses_locks:
  assumes "\<And>k. view w' k = None" and "lockup_InitGenesis w' (lockup_ExportGenesis w) = Inr w''"
  shows "book K view w'' a = [] \<and> queue K view w'' d a = 0"
  using assms by (simp add: lockup_InitGenesis_def book_def queue_def)

theorem genesis_loses_locks_witness:
  "book ref_sdk ref_view rw1 ''alice'' \<noteq> [] \<and>
     lockup_InitGenesis rw0 (lockup_ExportGenesis rw1) = Inr rw0 \<and> book ref_sdk ref_view rw0 ''alice'' = []"
proof -
  have "lockup_InitGenesis rw0 (lockup_ExportGenesis rw1) = Inr rw0" by (simp add: lockup_InitGenesis_def)
  moreover have "ref_view rw0 k = None" for k by (simp add: ref_view_def rw0_def)
  ultimately have "book ref_sdk ref_view rw0 ''alice'' = []"
    using genesis_loses_locks [of ref_view rw0 rw1 rw0 ref_sdk "''alice''"] by blast
  moreover have "book ref_sdk ref_view rw1 ''alice'' \<noteq> []" by code_simp
  ultimately show ?thesis by (simp add: lockup_InitGenesis_def)
qed

end
