(* ===== verification/Lock_Writes.thy ===== *)
theory Lock_Writes
  imports Lock_Inv
begin

text \<open>
  What the handlers write. Every write of the lockup module is a list of locks under the key of an
  address or an amount under a key of the queue, in a form its own reads decode. A property of the
  state that such writes and deletions keep is kept by the handlers; with it follow the invariance of
  what other modules own and the well-typedness of the store.
\<close>

definition value_ok :: "('w, 'v) sdk \<Rightarrow> bytes \<Rightarrow> bytes \<Rightarrow> bool" where
  "value_ok K k bz \<longleftrightarrow>
     (\<exists>a ls. k = GetLocksByAddressKey a \<and> locks_Unmarshal (IntUnmarshal K) bz = Inr ls \<and> ls \<noteq> []) \<or>
     (\<exists>u a x. k = queue_key u a \<and> IntUnmarshal K bz = Inr x)"

definition store_typed :: "('w, 'v) sdk \<Rightarrow> ('w \<Rightarrow> bytes \<Rightarrow> bytes option) \<Rightarrow> 'w \<Rightarrow> bool" where
  "store_typed K view w \<longleftrightarrow> (\<forall>k bz. view w k = Some bz \<longrightarrow> value_ok K k bz)"

lemma insert_lock_nonempty [simp]: "insert_lock l ls \<noteq> []"
  by (cases ls) simp_all

section \<open>Properties that writes keep\<close>

locale store_writes = lockup_env K view
  for K :: "('w, 'v) sdk" and view :: "'w \<Rightarrow> bytes \<Rightarrow> bytes option" +
  fixes P :: "'w \<Rightarrow> bool"
  assumes P_set: "kvSet K w k bz = Inr w' \<Longrightarrow> value_ok K k bz \<Longrightarrow> P w \<Longrightarrow> P w'"
    and P_delete: "kvDelete K w k = Inr w' \<Longrightarrow> P w \<Longrightarrow> P w'"
begin

lemma set_locks_P:
  assumes "locks_Marshal (IntMarshal K) ls = Inr bz" "kvSet K w (GetLocksByAddressKey a) bz = Inr w'"
    and "ls \<noteq> []" "P w"
  shows "P w'"
proof -
  have "length bz < 2 ^ 63" using set_length [OF assms(2)] by simp
  with assms(1) have "locks_Unmarshal (IntUnmarshal K) bz = Inr ls" by (rule locks_codec_roundtrip)
  with assms(3) have "value_ok K (GetLocksByAddressKey a) bz" by (auto simp: value_ok_def)
  with assms(2) show ?thesis using assms(4) by (rule P_set)
qed

lemma SetLocksByAddress_P: "SetLocksByAddress K w a ls = Inr w' \<Longrightarrow> P w \<Longrightarrow> P w'"
  by (auto simp: SetLocksByAddress_def Let_def split: if_splits intro: P_delete set_locks_P)

lemma SetLockByAddress_P: "SetLockByAddress K w a l = Inr w' \<Longrightarrow> P w \<Longrightarrow> P w'"
  by (auto simp: SetLockByAddress_def Let_def intro: set_locks_P)

lemma add_to_lock_P: "add_to_lock K w a d x = Inr w' \<Longrightarrow> P w \<Longrightarrow> P w'"
  by (auto simp: add_to_lock_def UpdateLockByAddressAndIndex_def split: option.splits if_splits)
    (blast intro: SetLockByAddress_P SetLocksByAddress_P)+

lemma take_from_lock_P: "take_from_lock K w a d x = Inr w' \<Longrightarrow> P w \<Longrightarrow> P w'"
  by (auto simp: take_from_lock_def DeleteLockByAddressAndIndex_def UpdateLockByAddressAndIndex_def
      split: option.splits if_splits) (blast intro: SetLocksByAddress_P)+

lemma set_amount_P:
  assumes "IntMarshal K x = Inr bz" "kvSet K w (GetLockExpirationKey t a) bz = Inr w'" "P w"
  shows "P w'"
  using assms(2) _ assms(3)
proof (rule P_set)
  show "value_ok K (GetLockExpirationKey t a) bz"
    using int_roundtrip [OF assms(1)] by (auto simp: value_ok_def GetLockExpirationKey_eq)
qed

lemma AddToExpirationQueue_P: "AddToExpirationQueue K w t a x = Inr w' \<Longrightarrow> P w \<Longrightarrow> P w'"
  by (auto simp: AddToExpirationQueue_def Let_def intro: set_amount_P)

lemma RemoveFromExpirationQueue_P: "RemoveFromExpirationQueue K w t a x = Inr w' \<Longrightarrow> P w \<Longrightarrow> P w'"
  by (auto simp: RemoveFromExpirationQueue_def Let_def split: option.splits if_splits)
    (blast intro: set_amount_P P_delete)+

lemma Lock_P: "Lock K ctx w msg = Inr (w', ev) \<Longrightarrow> P w \<Longrightarrow> P w'"
  by (erule Lock_InrE) (blast intro: add_to_lock_P AddToExpirationQueue_P)

lemma extend_loop_P:
  assumes "foldM (extend_one K ctx address a) (w, evs) es = Inr (w', ev)" "P w"
  shows "P w'"
proof -
  from assms(1) have "P (fst (w', ev))"
  proof (rule foldM_invariant [where P = "\<lambda>s. P (fst s)"])
    fix s e s'
    assume "P (fst s)" "extend_one K ctx address a s e = Inr s'"
    then show "P (fst s')"
      by (cases s; cases s') (auto elim!: extend_one_InrE,
        blast intro: take_from_lock_P add_to_lock_P RemoveFromExpirationQueue_P AddToExpirationQueue_P)
  qed (use assms(2) in simp)
  then show ?thesis by simp
qed

end

section \<open>Properties of the store alone\<close>

locale view_invariant = store_writes K view P
  for K :: "('w, 'v) sdk" and view :: "'w \<Rightarrow> bytes \<Rightarrow> bytes option" and P :: "'w \<Rightarrow> bool" +
  assumes P_view: "view w' = view w \<Longrightarrow> P w \<Longrightarrow> P w'"
    and P_empty: "(\<And>k. view w k = None) \<Longrightarrow> P w"
begin

lemma SendDelegateAndLock_P: "SendDelegateAndLock K ctx w msg = Inr (w', ev) \<Longrightarrow> P w \<Longrightarrow> P w'"
  by (erule SendDelegateAndLock_InrE) (metis P_view send_view delegate_view Lock_P)

lemma run_msg_P:
  assumes "run_msg K ctx w m = Inr (w', ev)" "P w"
  shows "P w'"
proof (cases m)
  case (Multi_msg msg)
  with assms(1) have "foldM (multi_one K ctx (mu_FromAddress msg)) (w, []) (Outputs msg) = Inr (w', ev)"
    by (auto simp: run_msg_def MultiSendDelegateAndLock_def)
  then have "P (fst (w', ev))"
  proof (rule foldM_invariant [where P = "\<lambda>s. P (fst s)"])
    fix s e s'
    assume "P (fst s)" "multi_one K ctx (mu_FromAddress msg) s e = Inr s'"
    then show "P (fst s')" unfolding multi_one_def by (elim bnd_InrE) (auto dest: SendDelegateAndLock_P)
  qed (use assms(2) in simp)
  then show ?thesis by simp
next
  case (Extend_msg msg)
  with assms(1) obtain a where "foldM (extend_one K ctx (ex_Address msg) a) (w, []) (Extensions msg) = Inr (w', ev)"
    by (auto simp: run_msg_def Extend_def)
  then show ?thesis using assms(2) by (rule extend_loop_P)
qed (use assms in \<open>auto simp: run_msg_def intro: Lock_P SendDelegateAndLock_P\<close>)

lemma reachable_P: "reachable K view w \<Longrightarrow> P w"
  by (induction rule: reachable.induct) (blast intro: P_empty run_msg_P P_view)+

end

sublocale lockup_env \<subseteq> typed: view_invariant K view "store_typed K view"
  by unfold_locales (auto simp: store_typed_def dest!: set_view delete_view split: if_splits)

context lockup_env
begin

lemma reachable_typed: "reachable K view w \<Longrightarrow> store_typed K view w"
  by (rule typed.reachable_P)

lemma reads_decode:
  assumes "store_typed K view w" "kvGet K w (GetLocksByAddressKey a) = Inr r"
  shows "GetLocksByAddress K w a = Inr (book K view w a)"
proof (cases "view w (GetLocksByAddressKey a)")
  case None
  then show ?thesis using assms(2) get_view [OF assms(2)] by (simp add: GetLocksByAddress_def book_def)
next
  case (Some bz)
  then have "value_ok K (GetLocksByAddressKey a) bz" using assms(1) by (simp add: store_typed_def)
  then have "\<exists>ls. locks_Unmarshal (IntUnmarshal K) bz = Inr ls" by (auto simp: value_ok_def)
  then show ?thesis using assms(2) Some get_view [OF assms(2)] by (auto simp: GetLocksByAddress_def book_def)
qed

lemma expired_locks:
  assumes "store_typed K view w" "kvGet K w (GetLocksByAddressKey a) = Inr r"
    and "\<And>l. l \<in> set (book K view w a) \<Longrightarrow> \<not> IsLocked (blockDay (BlockTime ctx)) (UnlockDate l)"
  shows "GetLockedAmountByAddress K ctx w a = Inr 0"
proof -
  let ?f = "\<lambda>n l. if IsLocked (blockDay (BlockTime ctx)) (UnlockDate l) then int_add n (Amount l) else Inr n"
  have "foldM ?f 0 ls = Inr 0" if "set ls \<subseteq> set (book K view w a)" for ls
    using that by (induction ls) (auto dest: assms(3))
  then show ?thesis using reads_decode [OF assms(1,2)] by (simp add: GetLockedAmountByAddress_def)
qed

end

text \<open>A lock has expired once the time has reached its unlock date, a midnight.\<close>

lemma expired_from:
  assumes "Parse_DateOnly d = Inr u" "u \<le> t"
  shows "\<not> IsLocked (blockDay t) d"
proof -
  have "u = midnight (day_number u)" using assms(1) by (rule Parse_DateOnly_midnight)
  also have "\<dots> \<le> midnight (day_number t)" using assms(2) by (simp add: day_number_def zdiv_mono1)
  finally show ?thesis using assms(1) by (simp add: IsLocked_parsed blockDay_eq)
qed

text \<open>The latest of the dates of a list of locks; zero if there is none.\<close>

definition last_date :: "lock list \<Rightarrow> gotime" where
  "last_date ls = fold (\<lambda>l t. case Parse_DateOnly (UnlockDate l) of Inl _ \<Rightarrow> t | Inr u \<Rightarrow> max t u) ls 0"

lemma last_date_ge:
  assumes "l \<in> set ls" "Parse_DateOnly (UnlockDate l) = Inr u"
  shows "u \<le> last_date ls"
proof -
  let ?f = "\<lambda>l t. case Parse_DateOnly (UnlockDate l) of Inl _ \<Rightarrow> t | Inr u \<Rightarrow> max t u"
  have ge: "t \<le> fold ?f ls t" for t ls
  proof (induction ls arbitrary: t)
    case (Cons l ls)
    have "t \<le> ?f l t" by (simp split: sum.split)
    also have "\<dots> \<le> fold ?f ls (?f l t)" by (rule Cons.IH)
    finally show ?case by simp
  qed simp
  have "u \<le> fold ?f ls t" for t
    using assms
  proof (induction ls arbitrary: t)
    case (Cons x xs)
    then show ?case using ge [of "max t u" xs] by (cases "x = l") auto
  qed simp
  then show ?thesis by (simp add: last_date_def)
qed

end
