(* ===== verification/Chain_Safety.thy ===== *)
theory Chain_Safety
  imports Lock_Writes Precompile
begin

text \<open>
  The lockup module among the modules it guards. A chain runs lockup messages, EVM calls of the
  lockup precompile, staking operations that end in the module's hooks, work of other modules that takes no delegated tokens away (bank
  transfers, rewards, new delegations, redelegations), and blocks that move time forward. On all of
  them what is locked stays covered by what is delegated. Three things the code lets happen are left
  out, because they break it: slashing, which runs no hook; an extension of a lock that has expired;
  and an undelegation from a validator that the same transaction redelegates from.
\<close>

definition fresh_extensions :: "sdk_ctx \<Rightarrow> lockup_msg \<Rightarrow> bool" where
  "fresh_extensions ctx m =
     (case m of
        Extend_msg msg \<Rightarrow> (\<forall>e \<in> set (Extensions msg). IsLocked (blockDay (BlockTime ctx)) (FromDate e))
      | _ \<Rightarrow> True)"

inductive chain_reach ::
    "('w, 'v) sdk \<Rightarrow> ('w \<Rightarrow> bytes \<Rightarrow> bytes option) \<Rightarrow> ('w \<Rightarrow> addr \<Rightarrow> int) \<Rightarrow> sdk_ctx \<Rightarrow> 'w \<Rightarrow> bool"
  for K view stake where
  start: "(\<And>k. view w k = None) \<Longrightarrow> 0 \<le> BlockTime ctx \<Longrightarrow> chain_reach K view stake ctx w"
| message: "chain_reach K view stake ctx w \<Longrightarrow> run_msg K ctx w m = Inr (w', ev) \<Longrightarrow> fresh_extensions ctx m \<Longrightarrow>
    chain_reach K view stake ctx w'"
| evm_call: "chain_reach K view stake ctx w \<Longrightarrow> abi_tuples B \<Longrightarrow>
    Execute K B ctx w contract ro = Inr (w', logs, ev, bz) \<Longrightarrow> chain_reach K view stake ctx w'"
| modified: "chain_reach K view stake ctx w \<Longrightarrow> view w' = view w \<Longrightarrow> (\<And>b. b \<noteq> d \<Longrightarrow> stake w b \<le> stake w' b) \<Longrightarrow>
    \<not> isRedelegating ctx d v \<Longrightarrow> AfterDelegationModified K ctx w' d v = Inr () \<Longrightarrow> chain_reach K view stake ctx w'"
| removed: "chain_reach K view stake ctx w \<Longrightarrow> \<not> isRedelegating ctx d v \<Longrightarrow>
    BeforeDelegationRemoved K ctx w d v = Inr () \<Longrightarrow> view w' = view w \<Longrightarrow>
    (\<And>b. b \<noteq> d \<Longrightarrow> stake w b \<le> stake w' b) \<Longrightarrow>
    (\<And>x. GetDelegationAmount K w d v = Inr x \<Longrightarrow> stake w d - x \<le> stake w' d) \<Longrightarrow> chain_reach K view stake ctx w'"
| other_work: "chain_reach K view stake ctx w \<Longrightarrow> view w' = view w \<Longrightarrow> (\<And>b. stake w b \<le> stake w' b) \<Longrightarrow>
    chain_reach K view stake ctx w'"
| next_block: "chain_reach K view stake ctx w \<Longrightarrow> BlockTime ctx \<le> BlockTime ctx' \<Longrightarrow> chain_reach K view stake ctx' w"

lemma blockDay_mono: "t \<le> t' \<Longrightarrow> blockDay t \<le> blockDay t'"
  by (simp add: blockDay_eq midnight_def day_number_def zdiv_mono1)

lemma locked_sum_antimono:
  assumes "locks_wf ls" "day \<le> day'"
  shows "locked_sum day' ls \<le> locked_sum day ls"
  unfolding locked_sum_def
  by (rule sum_list_mono) (use assms IsLocked_mono in \<open>fastforce simp: locks_wf_def\<close>)

text \<open>
  What the code relies on: \<open>stake\<close> is the token value of an address's delegations; writes to the
  lockup store and transfers leave it, delegating lowers no one's.
\<close>

locale staked_env = lockup_env K view
  for K :: "('w, 'v) sdk" and view :: "'w \<Rightarrow> bytes \<Rightarrow> bytes option" +
  fixes stake :: "'w \<Rightarrow> addr \<Rightarrow> int"
  assumes stake_total: "GetTotalDelegatedAmount K w a = Inr n \<Longrightarrow> n = stake w a"
    and stake_set: "kvSet K w k v = Inr w' \<Longrightarrow> stake w' = stake w"
    and stake_delete: "kvDelete K w k = Inr w' \<Longrightarrow> stake w' = stake w"
    and stake_send: "SendCoins K w a b cs = Inr w' \<Longrightarrow> stake w' = stake w"
    and stake_delegate: "Delegate K w a x va = Inr (w', s) \<Longrightarrow> 0 < x \<Longrightarrow> stake w b \<le> stake w' b"
begin

section \<open>The module's own writes\<close>

lemma stake_writes: "store_writes K view (\<lambda>w. stake w = s)"
  by unfold_locales (auto dest: stake_set stake_delete)

lemma Lock_stake: "Lock K ctx w msg = Inr (w', ev) \<Longrightarrow> stake w' = stake w"
  by (rule store_writes.Lock_P [OF stake_writes]) simp_all

lemma extend_loop_stake:
  "foldM (extend_one K ctx address a) (w, evs) es = Inr (w', ev) \<Longrightarrow> stake w' = stake w"
  by (rule store_writes.extend_loop_P [OF stake_writes]) simp_all

section \<open>Coverage\<close>

definition covered :: "gotime \<Rightarrow> 'w \<Rightarrow> bool" where
  "covered day w \<longleftrightarrow> (\<forall>a. locked_sum day (book K view w a) \<le> max 0 (stake w a))"

lemma covered_frame:
  assumes "covered day w" "view w' = view w" "\<And>b. stake w b \<le> stake w' b"
  shows "covered day w'"
  unfolding covered_def
proof
  fix a
  have "locked_sum day (book K view w' a) \<le> max 0 (stake w a)"
    using assms(1) book_cong [of view w' w K, OF assms(2)] by (simp add: covered_def)
  also have "\<dots> \<le> max 0 (stake w' a)" using assms(3) by (rule max.mono [OF order_refl])
  finally show "locked_sum day (book K view w' a) \<le> max 0 (stake w' a)" .
qed

lemma Lock_covered_all:
  assumes "Lock K ctx w msg = Inr (w', ev)" "covered (blockDay (BlockTime ctx)) w"
  shows "covered (blockDay (BlockTime ctx)) w'"
  unfolding covered_def
proof
  fix b
  let ?day = "blockDay (BlockTime ctx)"
  from assms(1) obtain a where a: "AccAddressFromBech32 K (lk_Address msg) = Inr a" by (rule Lock_InrE)
  show "locked_sum ?day (book K view w' b) \<le> max 0 (stake w' b)"
  proof (cases "b = a")
    case True
    then show ?thesis using Lock_bound [OF assms(1) a] stake_total Lock_stake [OF assms(1)] by fastforce
  next
    case False
    then show ?thesis
      using Lock_ledger [OF assms(1) a] Lock_stake [OF assms(1)] assms(2) by (simp add: covered_def)
  qed
qed

lemma SendDelegateAndLock_covered:
  assumes "SendDelegateAndLock K ctx w msg = Inr (w', ev)" "covered (blockDay (BlockTime ctx)) w"
  shows "covered (blockDay (BlockTime ctx)) w'"
  using assms(1)
proof (rule SendDelegateAndLock_InrE)
  fix fa ta coins w1 val v w2 sh ev'
  assume pos: "0 < CoinAmount (sdl_Amount msg)"
    and s: "SendCoins K w fa ta coins = Inr w1" "Delegate K w1 ta (CoinAmount (sdl_Amount msg)) v = Inr (w2, sh)"
    and l: "Lock K ctx w2 \<lparr>lk_Address = ToAddress msg, lk_UnlockDate = sdl_UnlockDate msg,
       lk_Amount = sdl_Amount msg\<rparr> = Inr (w', ev')"
  have "covered (blockDay (BlockTime ctx)) w2"
  proof (rule covered_frame [OF assms(2)])
    show "view w2 = view w" using send_view [OF s(1)] delegate_view [OF s(2)] by simp
    show "stake w b \<le> stake w2 b" for b
      using stake_send [OF s(1)] stake_delegate [OF s(2) pos] by metis
  qed
  with l show ?thesis by (rule Lock_covered_all)
qed

lemma run_msg_covered:
  assumes "run_msg K ctx w m = Inr (w', ev)" "fresh_extensions ctx m" "0 \<le> BlockTime ctx"
    and "lockup_ok K view w" "covered (blockDay (BlockTime ctx)) w"
  shows "covered (blockDay (BlockTime ctx)) w'"
proof (cases m)
  case (Lock_msg msg)
  with assms(1) have "Lock K ctx w msg = Inr (w', ev)" by (auto simp: run_msg_def)
  then show ?thesis using assms(5) by (rule Lock_covered_all)
next
  case (Extend_msg msg)
  with assms(1) obtain a where v: "foldM (\<lambda>_ e. Extension_validate e) () (Extensions msg) = Inr ()"
    and run: "foldM (extend_one K ctx (ex_Address msg) a) (w, []) (Extensions msg) = Inr (w', ev)"
    by (auto simp: run_msg_def MsgExtend_ValidateBasic_def Extend_def)
  have "\<forall>e \<in> set (Extensions msg). 0 < CoinAmount (ext_Amount e)"
    using v by (auto simp: validate_all Extension_validate_Inr)
  note sums = extend_loop_sums [OF run assms(3,4) this]
  have "(\<Sum>e \<leftarrow> Extensions msg. if IsLocked (blockDay (BlockTime ctx)) (FromDate e) then 0
      else CoinAmount (ext_Amount e)) = 0"
    using assms(2) Extend_msg by (simp add: fresh_extensions_def cong: map_cong)
  then have "locked_sum (blockDay (BlockTime ctx)) (book K view w' b) = locked_sum (blockDay (BlockTime ctx)) (book K view w b)" for b
    using sums by (cases "b = a") simp_all
  then show ?thesis using assms(5) extend_loop_stake [OF run] by (simp add: covered_def)
next
  case (Send_msg msg)
  with assms(1) have "SendDelegateAndLock K ctx w msg = Inr (w', ev)" by (auto simp: run_msg_def)
  then show ?thesis using assms(5) by (rule SendDelegateAndLock_covered)
next
  case (Multi_msg msg)
  with assms(1) have "foldM (multi_one K ctx (mu_FromAddress msg)) (w, []) (Outputs msg) = Inr (w', ev)"
    by (auto simp: run_msg_def MultiSendDelegateAndLock_def)
  then have "covered (blockDay (BlockTime ctx)) (fst (w', ev))"
  proof (rule foldM_invariant [where P = "\<lambda>s. covered (blockDay (BlockTime ctx)) (fst s)"])
    fix s e s'
    assume "covered (blockDay (BlockTime ctx)) (fst s)" "multi_one K ctx (mu_FromAddress msg) s e = Inr s'"
    then show "covered (blockDay (BlockTime ctx)) (fst s')"
      unfolding multi_one_def by (elim bnd_InrE) (auto dest: SendDelegateAndLock_covered)
  qed (use assms(5) in simp)
  then show ?thesis by simp
qed

section \<open>Hooks\<close>

lemma hook_accepts:
  assumes "checkLockupInvariantExcluding K ctx w d ex = Inr ()"
  defines "locked \<equiv> locked_sum (blockDay (BlockTime ctx)) (book K view w d)"
  shows "locked = 0 \<or> (case ex of None \<Rightarrow> locked \<le> stake w d
    | Some v \<Rightarrow> \<exists>x. GetDelegationAmount K w d v = Inr x \<and> locked \<le> stake w d - x)"
  using assms(1)
  by (fastforce simp: checkLockupInvariantExcluding_def locked_def int_op_Inr not_less
      split: if_splits option.splits dest!: GetLockedAmountByAddress_Inr stake_total)

lemma modified_covered:
  assumes "covered day w" "view w' = view w" "\<And>b. b \<noteq> d \<Longrightarrow> stake w b \<le> stake w' b"
    and "locked_sum day (book K view w' d) = 0 \<or> locked_sum day (book K view w' d) \<le> stake w' d"
  shows "covered day w'"
  unfolding covered_def
proof
  fix b
  show "locked_sum day (book K view w' b) \<le> max 0 (stake w' b)"
  proof (cases "b = d")
    case True
    then show ?thesis using assms(4) by auto
  next
    case False
    have "locked_sum day (book K view w' b) \<le> max 0 (stake w b)"
      using assms(1) book_cong [of view w' w K, OF assms(2)] by (simp add: covered_def)
    with assms(3) [OF False] show ?thesis by linarith
  qed
qed

lemma chain_invariant:
  "chain_reach K view stake ctx w \<Longrightarrow>
     0 \<le> BlockTime ctx \<and> lockup_ok K view w \<and> covered (blockDay (BlockTime ctx)) w"
proof (induction rule: chain_reach.induct)
  case (start w ctx)
  then have "book K view w a = []" for a by (simp add: book_def)
  then show ?case using start genesis_ok by (simp add: covered_def locked_sum_def)
next
  case (message ctx w m w' ev)
  then show ?case using run_msg_ok run_msg_covered by blast
next
  case (evm_call ctx w B contract ro w' logs ev bz)
  from Execute_runs [OF evm_call.hyps(3,2)] show ?case
  proof (elim disjE exE)
    fix msg assume "Lock K ctx w msg = Inr (w', ev)"
    then show ?thesis using evm_call.IH Lock_ok Lock_covered_all by blast
  next
    fix msg assume "SendDelegateAndLock K ctx w msg = Inr (w', ev)"
    then show ?thesis using evm_call.IH SendDelegateAndLock_ok SendDelegateAndLock_covered by blast
  qed (use evm_call.IH in simp)
next
  case (modified ctx w w' d v)
  have "checkLockupInvariantExcluding K ctx w' d None = Inr ()"
    using modified.hyps(4,5) by (simp add: AfterDelegationModified_def checkLockupInvariant_def)
  from hook_accepts [OF this] have "covered (blockDay (BlockTime ctx)) w'"
    using modified.IH modified.hyps(2,3) by (intro modified_covered [of _ w w' d]) auto
  then show ?case using modified.IH by (simp add: lockup_ok_cong [OF modified.hyps(2)])
next
  case (removed ctx w d v w')
  have "checkLockupInvariantExcluding K ctx w d (Some v) = Inr ()"
    using removed.hyps(2,3) by (simp add: BeforeDelegationRemoved_def)
  from hook_accepts [OF this] have "covered (blockDay (BlockTime ctx)) w'"
    using removed.IH removed.hyps book_cong [of view w' w K, OF removed.hyps(4)]
    by (intro modified_covered [of _ w w' d]) fastforce+
  then show ?case using removed.IH by (simp add: lockup_ok_cong [OF removed.hyps(4)])
next
  case (other_work ctx w w')
  then show ?case using covered_frame by (metis lockup_ok_cong)
next
  case (next_block ctx w ctx')
  have "locks_wf (book K view w a)" for a
    using next_block.IH ledger_okD(1) by (auto simp: lockup_ok_def)
  then have "locked_sum (blockDay (BlockTime ctx')) (book K view w a) \<le> locked_sum (blockDay (BlockTime ctx)) (book K view w a)" for a
    using locked_sum_antimono blockDay_mono [OF next_block.hyps(2)] by blast
  then show ?case using next_block by (auto simp: covered_def intro: order_trans)
qed

end

end
