(* ===== verification/Chain_Props.thy ===== *)
theory Chain_Props
  imports Chain_Safety Ref_Run
begin

text \<open>The central property of the lockup module among the others, applied to the reference world.\<close>

section \<open>The reference world's stake\<close>

text \<open>Shares are worth one token each; every delegation is rounded up on its own.\<close>

definition tokens_up :: "dec \<Rightarrow> int" where
  "tokens_up s = - ((- s) div dec_unit)"

definition ref_stake :: "ref_world \<Rightarrow> addr \<Rightarrow> int" where
  "ref_stake w a = (\<Sum>e \<leftarrow> rw_del w. if fst (fst e) = a then tokens_up (snd e) else 0)"

lemma tokens_up_add: "tokens_up (s + x * dec_unit) = tokens_up s + x"
proof -
  have "(- (s + x * dec_unit)) div dec_unit = (- s + (- x) * dec_unit) div dec_unit" by simp
  also have "\<dots> = - x + (- s) div dec_unit" by (rule div_mult_self1) (simp add: dec_unit_def)
  finally show ?thesis by (simp add: tokens_up_def)
qed

lemma bump_stake:
  "0 < x \<Longrightarrow> (\<Sum>e \<leftarrow> xs. if fst (fst e) = a then tokens_up (snd e) else 0) \<le>
     (\<Sum>e \<leftarrow> alist_bump k (x * dec_unit) xs. if fst (fst e) = a then tokens_up (snd e) else 0)"
  by (induction xs) (auto simp: tokens_up_add)

lemma ref_stake_sum:
  "(\<Sum>d \<leftarrow> ref_delegations w a. tokens_up (GetShares d)) = ref_stake w a"
  unfolding ref_delegations_def ref_stake_def
  by (simp add: sum_list_map_filter' [symmetric] comp_def case_prod_beta)

lemma ref_add_delegation: "add_delegation ref_sdk w t d = Inr y \<Longrightarrow> y = t + tokens_up (GetShares d)"
  by (erule add_delegation_Inr) (simp add: ref_sdk_def tokens_up_def dec_ceil_truncate)

lemma ref_total:
  assumes "GetTotalDelegatedAmount ref_sdk w a = Inr n"
  shows "n = ref_stake w a"
proof -
  have sum: "foldM (add_delegation ref_sdk w) t ds = Inr n \<Longrightarrow> n = t + (\<Sum>d \<leftarrow> ds. tokens_up (GetShares d))" for t ds
    by (induction ds arbitrary: t) (auto dest!: ref_add_delegation, metis add.assoc)
  from assms obtain ds where ds: "GetDelegatorDelegations ref_sdk w a 100 = Inr ds" "length ds \<noteq> 100"
    and f: "foldM (add_delegation ref_sdk w) 0 ds = Inr n"
    by (rule GetTotalDelegatedAmount_Inr)
  have "ds = ref_delegations w a" using ds by (auto simp: ref_sdk_def)
  then show ?thesis using sum [OF f] ref_stake_sum by simp
qed

lemma ref_SendCoins_del: "ref_SendCoins w a b cs = Inr w' \<Longrightarrow> rw_del w' = rw_del w"
  unfolding ref_SendCoins_def
  by (rule foldM_invariant [where P = "\<lambda>t. rw_del t = rw_del w"])
    (auto simp: ref_move_def Let_def split: if_splits)

lemma ref_Delegate_stake:
  "ref_Delegate w a x v = Inr (w', s) \<Longrightarrow> 0 < x \<Longrightarrow> ref_stake w b \<le> ref_stake w' b"
  using bump_stake [of x b "rw_del w" "(a, v)"] tokens_up_add [of 0 x]
  by (auto simp: ref_Delegate_def ref_stake_def Let_def tokens_up_def split: if_splits)

lemma ref_staked: "staked_env ref_sdk ref_view ref_stake"
proof (intro staked_env.intro ref_env staked_env_axioms.intro)
  show "GetTotalDelegatedAmount ref_sdk w a = Inr n \<Longrightarrow> n = ref_stake w a" for w a n by (rule ref_total)
qed (auto simp: ref_sdk_def ref_stake_def fun_eq_iff split: if_splits dest: ref_SendCoins_del ref_Delegate_stake [unfolded ref_stake_def])

interpretation staked: staked_env ref_sdk ref_view ref_stake
  by (rule ref_staked)

section \<open>Coverage\<close>

text \<open>
  C2. On a chain that runs lockup messages, calls of the lockup precompile, hook-checked undelegations, work of other modules that
  takes no delegated tokens away, and blocks in the order of time, what an address has locked today
  never exceeds its delegated tokens (unless an expired lock is extended, a validator is slashed or
  a redelegation marker covers an undelegation, which are not steps of this chain). So the bank's
  send restriction never holds a transfer back there.
\<close>

theorem chain_locked_covered:
  assumes "staked_env K view stake" and "chain_reach K view stake ctx w"
    and "GetLockedAmountByAddress K ctx w a = Inr l" and "GetTotalDelegatedAmount K w a = Inr n"
  shows "(l = 0 \<or> l \<le> n) \<and>
    (BondDenom K w = Inr d \<and> int_fits (l - n) \<longrightarrow> SendRestrictionFn K ctx w a b coins = Inr b)"
proof -
  have env: "lockup_env K view" using assms(1) by (rule staked_env.axioms(1))
  have l: "l = locked_sum (blockDay (BlockTime ctx)) (book K view w a)"
    by (rule lockup_env.GetLockedAmountByAddress_Inr [OF env assms(3)])
  have "locks_wf (book K view w a)"
    using staked_env.chain_invariant [OF assms(1,2)] ledger_okD(1) by (auto simp: lockup_ok_def)
  then have "0 \<le> l" unfolding l locked_sum_amt by (rule amt_nonneg)
  moreover have "l \<le> max 0 n"
    using staked_env.chain_invariant [OF assms(1,2)] staked_env.stake_total [OF assms(1,4)]
    by (simp add: l staked_env.covered_def [OF assms(1)])
  ultimately have "l = 0 \<or> l \<le> n" by linarith
  then show ?thesis using assms(3,4) by (auto simp: SendRestrictionFn_def Let_def int_op_defs)
qed

text \<open>Alice locks 200 of her 500 delegated tokens and then undelegates 300.\<close>

definition rw1_undelegated :: ref_world where
  "rw1_undelegated = rw1\<lparr>rw_del := [((''alice'', ''val1''), 200 * dec_unit)]\<rparr>"

lemma rw1_undelegated_reach: "chain_reach ref_sdk ref_view ref_stake jan rw1_undelegated"
proof (rule chain_reach.modified)
  show "chain_reach ref_sdk ref_view ref_stake jan rw1"
  proof (rule chain_reach.message)
    show "chain_reach ref_sdk ref_view ref_stake jan rw0"
      by (rule chain_reach.start) (simp_all add: ref_view_def rw0_def jan_def)
    show "run_msg ref_sdk jan rw0 (Lock_msg lock_200) = Inr (rw1, [ev_lock ''alice'' ''2025-06-30'' ''200''])"
      by (simp add: run_msg_def ref_lock_200) code_simp
    show "fresh_extensions jan (Lock_msg lock_200)" by (simp add: fresh_extensions_def)
  qed
  show "ref_view rw1_undelegated = ref_view rw1" by (simp add: ref_view_def rw1_undelegated_def)
  show "ref_stake rw1 b \<le> ref_stake rw1_undelegated b" if "b \<noteq> ''alice''" for b
    using that by (simp add: ref_stake_def rw1_undelegated_def rw1_def rw0_def)
  show "\<not> isRedelegating jan ''alice'' ''val1''" by (simp add: isRedelegating_def jan_def)
  show "AfterDelegationModified ref_sdk jan rw1_undelegated ''alice'' ''val1'' = Inr ()" by code_simp
qed

theorem chain_locked_covered_witness:
  "GetLockedAmountByAddress ref_sdk jan rw1_undelegated ''alice'' = Inr 200 \<and>
   GetTotalDelegatedAmount ref_sdk rw1_undelegated ''alice'' = Inr 200 \<and>
   SendRestrictionFn ref_sdk jan rw1_undelegated ''alice'' ''bob'' [aTSC 1000] = Inr ''bob''"
proof -
  have l: "GetLockedAmountByAddress ref_sdk jan rw1_undelegated ''alice'' = Inr 200" by code_simp
  have n: "GetTotalDelegatedAmount ref_sdk rw1_undelegated ''alice'' = Inr 200" by code_simp
  have "BondDenom ref_sdk rw1_undelegated = Inr ref_denom" by (simp add: ref_sdk_def)
  with chain_locked_covered [OF ref_staked rw1_undelegated_reach l n] l n show ?thesis
    by (simp add: int_fits_def)
qed

section \<open>A well-typed store\<close>

text \<open>
  C9. In every reachable state the module's store is well typed: each value decodes as what its key
  promises, a list of locks that is not empty under the key of an address or an amount under a key
  of the queue. So a read of an address's locks that reaches the store never fails to decode.
\<close>

theorem reachable_store_decodes:
  assumes "lockup_env K view" and "reachable K view w"
  shows "(\<forall>k bz. view w k = Some bz \<longrightarrow>
      (\<exists>a ls. k = GetLocksByAddressKey a \<and> locks_Unmarshal (IntUnmarshal K) bz = Inr ls \<and> ls \<noteq> []) \<or>
      (\<exists>u a x. k = queue_key u a \<and> IntUnmarshal K bz = Inr x)) \<and>
    (\<forall>a r. kvGet K w (GetLocksByAddressKey a) = Inr r \<longrightarrow> GetLocksByAddress K w a = Inr (book K view w a))"
proof -
  have "store_typed K view w" by (rule lockup_env.reachable_typed [OF assms])
  then show ?thesis
    using lockup_env.reads_decode [OF assms(1)] by (simp add: store_typed_def value_ok_def)
qed

theorem reachable_store_decodes_witness:
  "GetLocksByAddress ref_sdk rw2 ''alice'' = Inr
     [\<lparr>UnlockDate = ''2025-06-30'', Amount = 150\<rparr>, \<lparr>UnlockDate = ''2025-09-01'', Amount = 50\<rparr>]"
proof -
  have "kvGet ref_sdk rw2 (GetLocksByAddressKey ''alice'') = Inr (ref_view rw2 (GetLocksByAddressKey ''alice''))"
    by (simp add: ref_sdk_def ref_view_def)
  with reachable_store_decodes [OF ref_env ref_reachable(3)] show ?thesis
    by (auto simp: ref_books)
qed

section \<open>Expiry\<close>

text \<open>
  C10. Locks end: in a reachable state, from the latest unlock date of an address on, its locked
  amount is zero, the staking hooks accept every change and every removal of its delegations, and
  the bank lets all its transfers pass, however little it has delegated.
\<close>

theorem locks_end:
  assumes "lockup_env K view" and "reachable K view w" and "kvGet K w (GetLocksByAddressKey a) = Inr r"
    and "last_date (book K view w a) \<le> BlockTime ctx"
  shows "GetLockedAmountByAddress K ctx w a = Inr 0 \<and> AfterDelegationModified K ctx w a v = Inr () \<and>
    BeforeDelegationRemoved K ctx w a v = Inr () \<and>
    (BondDenom K w = Inr d \<longrightarrow> SendRestrictionFn K ctx w a b coins = Inr b)"
proof -
  have wf: "locks_wf (book K view w a)"
    using lockup_env.reachable_ok [OF assms(1,2)] ledger_okD(1) by (auto simp: lockup_ok_def)
  have "\<not> IsLocked (blockDay (BlockTime ctx)) (UnlockDate l)" if l: "l \<in> set (book K view w a)" for l
  proof -
    obtain u where u: "Parse_DateOnly (UnlockDate l) = Inr u" using wf l by (auto simp: locks_wf_def)
    have "u \<le> BlockTime ctx" using last_date_ge [OF l u] assms(4) by simp
    with u show ?thesis by (rule expired_from)
  qed
  then have "GetLockedAmountByAddress K ctx w a = Inr 0"
    by (rule lockup_env.expired_locks [OF assms(1) lockup_env.reachable_typed [OF assms(1,2)] assms(3)])
  then show ?thesis
    by (simp add: AfterDelegationModified_def BeforeDelegationRemoved_def checkLockupInvariant_def
        checkLockupInvariantExcluding_def SendRestrictionFn_def Let_def)
qed

text \<open>Alice's lock of 30 June on 3 July, after all her delegations are gone\<close>

theorem locks_end_witness:
  "GetLockedAmountByAddress ref_sdk jan (rw1\<lparr>rw_del := []\<rparr>) ''alice'' = Inr 200 \<and>
   AfterDelegationModified ref_sdk jul (rw1\<lparr>rw_del := []\<rparr>) ''alice'' ''val1'' = Inr ()"
proof -
  let ?w = "rw1\<lparr>rw_del := []\<rparr>"
  have view: "ref_view ?w = ref_view rw1" by (simp add: ref_view_def)
  have reach: "reachable ref_sdk ref_view ?w" using ref_reachable(2) view by (rule reachable.other_module)
  have get: "kvGet ref_sdk ?w (GetLocksByAddressKey ''alice'') = Inr (ref_view ?w (GetLocksByAddressKey ''alice''))"
    by (simp add: ref_sdk_def ref_view_def)
  have "book ref_sdk ref_view ?w ''alice'' = [\<lparr>UnlockDate = ''2025-06-30'', Amount = 200\<rparr>]"
    using ref_books(2) view by (simp add: book_def)
  moreover have "last_date [\<lparr>UnlockDate = ''2025-06-30'', Amount = 200\<rparr>] \<le> BlockTime jul" by code_simp
  ultimately have "last_date (book ref_sdk ref_view ?w ''alice'') \<le> BlockTime jul" by simp
  from locks_end [OF ref_env reach get this] have "AfterDelegationModified ref_sdk jul ?w ''alice'' ''val1'' = Inr ()"
    by blast
  moreover have "GetLockedAmountByAddress ref_sdk jan ?w ''alice'' = Inr 200" by code_simp
  ultimately show ?thesis by simp
qed

end
