(* ===== verification/App_Export.thy ===== *)
theory App_Export
  imports Prelude
begin

text \<open>
  The export of the chain's state (\<open>app/export.go\<close>): \<open>ExportAppStateAndValidators\<close> and the
  preparation of a genesis at height zero. The keepers of the SDK's staking, distribution and
  slashing modules, the module manager and the JSON encoder are parameters over a context type
  \<open>'w\<close>, the store together with the block header. A closure handed to an iterator becomes a step on the
  state it captures, with the flag that stops the iteration; a panic in it ends the iteration.
\<close>

section \<open>Data\<close>

record validator =
  GetOperator :: string
  UnbondingHeight :: int
  Jailed :: bool
  validator_rest :: bytes

record stake_entry =
  CreationHeight :: int
  entry_rest :: bytes

record redelegation =
  red_Delegator :: string
  red_Src :: string
  red_Dst :: string
  red_Entries :: "stake_entry list"

record unbonding =
  ubd_Delegator :: string
  ubd_Validator :: string
  ubd_Entries :: "stake_entry list"

record signing_info =
  StartHeight :: int
  info_rest :: bytes

record export_delegation =
  xd_DelegatorAddress :: string
  xd_ValidatorAddress :: string

type_synonym ('s, 'x) callback = "'s \<Rightarrow> 'x \<Rightarrow> ('s \<times> bool) res"
type_synonym 'w iter_state = "'w \<times> go_err option"

text \<open>\<open>'d\<close> are decimal coins, \<open>'g\<close>, \<open>'v\<close> and \<open>'c\<close> the exported genesis, validators and consensus parameters.\<close>

record ('w, 'd, 'g, 'v, 'c) export_lib =
  LastBlockHeight :: "'w \<Rightarrow> int"
  ctx_BlockHeight :: "'w \<Rightarrow> int"
  WithBlockHeight :: "'w \<Rightarrow> int \<Rightarrow> 'w"
  xValAddressFromBech32 :: "string \<Rightarrow> valaddr res"
  MustAccAddressFromBech32 :: "string \<Rightarrow> addr res"
  ValAddressString :: "valaddr \<Rightarrow> string"
  IterateValidators :: "('w, validator) callback \<Rightarrow> 'w \<Rightarrow> 'w res"
  WithdrawValidatorCommission :: "'w \<Rightarrow> valaddr \<Rightarrow> 'w \<times> unit res"
  GetAllDelegations :: "'w \<Rightarrow> export_delegation list res"
  WithdrawDelegationRewards :: "'w \<Rightarrow> addr \<Rightarrow> valaddr \<Rightarrow> 'w \<times> unit res"
  distr_BeforeDelegationCreated :: "'w \<Rightarrow> addr \<Rightarrow> valaddr \<Rightarrow> 'w res"
  distr_AfterDelegationModified :: "'w \<Rightarrow> addr \<Rightarrow> valaddr \<Rightarrow> 'w res"
  DeleteAllValidatorSlashEvents :: "'w \<Rightarrow> 'w"
  DeleteAllValidatorHistoricalRewards :: "'w \<Rightarrow> 'w"
  GetValidatorOutstandingRewardsCoins :: "'w \<Rightarrow> valaddr \<Rightarrow> 'd res"
  FeePoolGet :: "'w \<Rightarrow> 'd res"
  FeePoolSet :: "'w \<Rightarrow> 'd \<Rightarrow> 'w \<times> unit res"
  DecCoinsAdd :: "'d \<Rightarrow> 'd \<Rightarrow> 'd"
  distr_AfterValidatorCreated :: "'w \<Rightarrow> valaddr \<Rightarrow> 'w \<times> unit res"
  IterateRedelegations :: "('w iter_state, redelegation) callback \<Rightarrow> 'w iter_state \<Rightarrow> 'w iter_state res"
  SetRedelegation :: "'w \<Rightarrow> redelegation \<Rightarrow> 'w res"
  IterateUnbondingDelegations :: "('w iter_state, unbonding) callback \<Rightarrow> 'w iter_state \<Rightarrow> 'w iter_state res"
  SetUnbondingDelegation :: "'w \<Rightarrow> unbonding \<Rightarrow> 'w res"
  ValidatorsReverseIterator :: "'w \<Rightarrow> bytes list"
  AddressFromValidatorsKey :: "bytes \<Rightarrow> valaddr"
  xGetValidator :: "'w \<Rightarrow> valaddr \<Rightarrow> validator res"
  SetValidator :: "'w \<Rightarrow> validator \<Rightarrow> 'w res"
  iter_Close :: "'w \<Rightarrow> unit res"
  ApplyAndReturnValidatorSetUpdates :: "'w \<Rightarrow> 'w res"
  IterateValidatorSigningInfos ::
    "('w iter_state, addr \<times> signing_info) callback \<Rightarrow> 'w iter_state \<Rightarrow> 'w iter_state res"
  SetValidatorSigningInfo :: "'w \<Rightarrow> addr \<times> signing_info \<Rightarrow> 'w res"
  ExportGenesisForModules :: "'w \<Rightarrow> string list \<Rightarrow> 'g res"
  MarshalIndent :: "'g \<Rightarrow> bytes res"
  WriteValidators :: "'w \<Rightarrow> 'v res"
  GetConsensusParams :: "'w \<Rightarrow> 'c"

record ('v, 'c) ExportedApp =
  AppState :: bytes
  Validators :: 'v
  Height :: int
  ConsensusParams :: 'c

section \<open>Errors the code drops\<close>

text \<open>\<open>_, _ = f(...)\<close>: the state stays as the call left it, the error value is lost, a panic is not.\<close>

definition drop_err :: "'w \<times> unit res \<Rightarrow> 'w res" where
  "drop_err r = (case r of (w, Inl e) \<Rightarrow> (if stops e then Inl e else Inr w) | (w, Inr u) \<Rightarrow> Inr w)"

text \<open>\<open>if err != nil { return true }\<close> inside a callback whose error no one reads.\<close>

definition stop_on_err :: "'w \<times> unit res \<Rightarrow> ('w \<times> bool) res" where
  "stop_on_err r =
     (case r of (w, Inl e) \<Rightarrow> (if stops e then Inl e else Inr (w, True)) | (w, Inr u) \<Rightarrow> Inr (w, False))"

section \<open>Steps\<close>

definition check_allowed ::
    "('w, 'd, 'g, 'v, 'c) export_lib \<Rightarrow> string set \<Rightarrow> string \<Rightarrow> string set res" where
  "check_allowed L allowed addr =
     (case xValAddressFromBech32 L addr of
        Inl e \<Rightarrow> Inl (if stops e then e else LogFatal)
      | Inr _ \<Rightarrow> Inr (insert addr allowed))"

text \<open>\<open>sdk.ValAddress(val.GetOperator())\<close> converts the bytes of the bech32 string; nothing is decoded.\<close>

definition withdraw_commission ::
    "('w, 'd, 'g, 'v, 'c) export_lib \<Rightarrow> ('w, validator) callback" where
  "withdraw_commission L w val =
     bnd (drop_err (WithdrawValidatorCommission L w (GetOperator val))) (\<lambda>w. Inr (w, False))"

text \<open>\<open>panic(err)\<close> on a validator address that does not parse\<close>

definition must_val :: "('w, 'd, 'g, 'v, 'c) export_lib \<Rightarrow> string \<Rightarrow> valaddr res" where
  "must_val L s =
     (case xValAddressFromBech32 L s of Inl e \<Rightarrow> Inl (if stops e then e else GoPanic ''invalid validator address'')
      | Inr a \<Rightarrow> Inr a)"

definition withdraw_rewards ::
    "('w, 'd, 'g, 'v, 'c) export_lib \<Rightarrow> 'w \<Rightarrow> export_delegation \<Rightarrow> 'w res" where
  "withdraw_rewards L w delegation =
     bnd (must_val L (xd_ValidatorAddress delegation)) (\<lambda>valAddr.
     bnd (MustAccAddressFromBech32 L (xd_DelegatorAddress delegation)) (\<lambda>delAddr.
     drop_err (WithdrawDelegationRewards L w delAddr valAddr)))"

definition reinit_delegation ::
    "('w, 'd, 'g, 'v, 'c) export_lib \<Rightarrow> 'w \<Rightarrow> export_delegation \<Rightarrow> 'w res" where
  "reinit_delegation L w del =
     bnd (must_val L (xd_ValidatorAddress del)) (\<lambda>valAddr.
     bnd (MustAccAddressFromBech32 L (xd_DelegatorAddress del)) (\<lambda>delAddr.
     bnd (wrap_err (GoPanic ''error while incrementing period'')
            (distr_BeforeDelegationCreated L w delAddr valAddr)) (\<lambda>w.
     wrap_err (GoPanic ''error while creating a new delegation period record'')
       (distr_AfterDelegationModified L w delAddr valAddr))))"

definition reinit_validator :: "('w, 'd, 'g, 'v, 'c) export_lib \<Rightarrow> ('w, validator) callback" where
  "reinit_validator L w val =
     (case GetValidatorOutstandingRewardsCoins L w (GetOperator val) of
        Inl e \<Rightarrow> if stops e then Inl e else Inr (w, True)
      | Inr scraps \<Rightarrow>
          (case FeePoolGet L w of
             Inl e \<Rightarrow> if stops e then Inl e else Inr (w, True)
           | Inr pool \<Rightarrow>
               bnd (stop_on_err (FeePoolSet L w (DecCoinsAdd L pool scraps))) (\<lambda>(w, stop).
               if stop then Inr (w, True)
               else stop_on_err (distr_AfterValidatorCreated L w (GetOperator val)))))"

text \<open>
  The closures over \<open>iterErr\<close>: write the record back with its height reset, and on an error keep it
  and stop.
\<close>

definition write_back :: "('w \<Rightarrow> 'x \<Rightarrow> 'w res) \<Rightarrow> ('x \<Rightarrow> 'x) \<Rightarrow> ('w iter_state, 'x) callback" where
  "write_back set_fn reset st x =
     (case set_fn (fst st) (reset x) of
        Inl e \<Rightarrow> if stops e then Inl e else Inr ((fst st, Some e), True)
      | Inr w \<Rightarrow> Inr ((w, None), False))"

definition reset_entries :: "stake_entry list \<Rightarrow> stake_entry list" where
  "reset_entries entries = map (\<lambda>e. e\<lparr>CreationHeight := 0\<rparr>) entries"

definition reset_redelegation :: "redelegation \<Rightarrow> redelegation" where
  "reset_redelegation red = red\<lparr>red_Entries := reset_entries (red_Entries red)\<rparr>"

definition reset_unbonding :: "unbonding \<Rightarrow> unbonding" where
  "reset_unbonding ubd = ubd\<lparr>ubd_Entries := reset_entries (ubd_Entries ubd)\<rparr>"

definition reset_info :: "addr \<times> signing_info \<Rightarrow> addr \<times> signing_info" where
  "reset_info p = (fst p, snd p\<lparr>StartHeight := 0\<rparr>)"

text \<open>An iteration followed by \<open>if iterErr != nil { return iterErr }\<close>\<close>

definition iterate_checked ::
    "(('w iter_state, 'x) callback \<Rightarrow> 'w iter_state \<Rightarrow> 'w iter_state res) \<Rightarrow> ('w iter_state, 'x) callback \<Rightarrow> 'w \<Rightarrow> 'w res" where
  "iterate_checked iter cb w =
     bnd (iter cb (w, None)) (\<lambda>(w, iterErr). case iterErr of None \<Rightarrow> Inr w | Some e \<Rightarrow> Inl e)"

definition reset_validator ::
    "('w, 'd, 'g, 'v, 'c) export_lib \<Rightarrow> bool \<Rightarrow> string set \<Rightarrow> 'w \<Rightarrow> bytes \<Rightarrow> 'w res" where
  "reset_validator L applyAllowedAddrs allowed w key =
     (let addr = AddressFromValidatorsKey L key
      in bnd (wrap_err (FmtError ''expected validator not found'') (xGetValidator L w addr)) (\<lambda>validator.
         let validator = validator\<lparr>UnbondingHeight := 0\<rparr>;
             validator = (if applyAllowedAddrs \<and> ValAddressString L addr \<notin> allowed
                          then validator\<lparr>Jailed := True\<rparr> else validator)
         in SetValidator L w validator))"

section \<open>Preparation for height zero\<close>

definition prepForZeroHeightGenesis ::
    "('w, 'd, 'g, 'v, 'c) export_lib \<Rightarrow> 'w \<Rightarrow> string list \<Rightarrow> 'w res" where
  "prepForZeroHeightGenesis L ctx jailAllowedAddrs =
     (let applyAllowedAddrs = 0 < length jailAllowedAddrs
      in bnd (foldM (check_allowed L) {} jailAllowedAddrs) (\<lambda>allowedAddrsMap.
         bnd (IterateValidators L (withdraw_commission L) ctx) (\<lambda>ctx.
         bnd (GetAllDelegations L ctx) (\<lambda>dels.
         bnd (foldM (withdraw_rewards L) ctx dels) (\<lambda>ctx.
         bnd (foldM (reinit_delegation L) ctx dels) (\<lambda>ctx.
         let ctx = DeleteAllValidatorSlashEvents L ctx;
             ctx = DeleteAllValidatorHistoricalRewards L ctx;
             height = ctx_BlockHeight L ctx
         in bnd (IterateValidators L (reinit_validator L) (WithBlockHeight L ctx 0)) (\<lambda>ctx.
         let ctx = WithBlockHeight L ctx height
         in bnd (iterate_checked (IterateRedelegations L)
                   (write_back (SetRedelegation L) reset_redelegation) ctx) (\<lambda>ctx.
         bnd (iterate_checked (IterateUnbondingDelegations L)
                (write_back (SetUnbondingDelegation L) reset_unbonding) ctx) (\<lambda>ctx.
         bnd (foldM (reset_validator L applyAllowedAddrs allowedAddrsMap) ctx
                (ValidatorsReverseIterator L ctx)) (\<lambda>ctx.
         case iter_Close L ctx of
           Inl e \<Rightarrow> if stops e then Inl e else Inr ctx
         | Inr _ \<Rightarrow>
             bnd (wrap_err LogFatal (ApplyAndReturnValidatorSetUpdates L ctx)) (\<lambda>ctx.
             iterate_checked (IterateValidatorSigningInfos L)
               (write_back (SetValidatorSigningInfo L) reset_info) ctx)))))))))))"

definition ExportAppStateAndValidators ::
    "('w, 'd, 'g, 'v, 'c) export_lib \<Rightarrow> 'w \<Rightarrow> bool \<Rightarrow> string list \<Rightarrow> string list \<Rightarrow> ('v, 'c) ExportedApp res" where
  "ExportAppStateAndValidators L ctx forZeroHeight jailAllowedAddrs modulesToExport =
     (let height = (if forZeroHeight then 0 else LastBlockHeight L ctx + 1)
      in bnd (if forZeroHeight then prepForZeroHeightGenesis L ctx jailAllowedAddrs else Inr ctx) (\<lambda>ctx.
         bnd (ExportGenesisForModules L ctx modulesToExport) (\<lambda>genState.
         bnd (MarshalIndent L genState) (\<lambda>appState.
         bnd (WriteValidators L ctx) (\<lambda>validators.
         Inr \<lparr>AppState = appState, Validators = validators, Height = height,
              ConsensusParams = GetConsensusParams L ctx\<rparr>)))))"

section \<open>The export command\<close>

text \<open>
  \<open>appExport\<close> and \<open>getChainIDFromOpts\<close> of \<open>cmd/tscd/commands.go\<close>. Options are a parameter type \<open>'o\<close>; \<open>GetHome\<close> is
  the type assertion to a string, \<open>AsViper\<close> the one to \<open>*viper.Viper\<close>.
\<close>

record ('o, 'w) command_lib =
  GetHome :: "'o \<Rightarrow> string option"
  AsViper :: "'o \<Rightarrow> 'o option"
  SetInvCheckPeriod :: "'o \<Rightarrow> int \<Rightarrow> 'o"
  NewChainApp :: "bool \<Rightarrow> 'o \<Rightarrow> 'w res"
  LoadVersion :: "'w \<Rightarrow> int \<Rightarrow> 'w res"
  ChainIDFlag :: "'o \<Rightarrow> string"
  HomeFlag :: "'o \<Rightarrow> string"
  GenesisFileFlag :: "'o \<Rightarrow> string"
  FilepathJoin :: "string \<Rightarrow> string \<Rightarrow> string"
  ChainIDFromFile :: "string \<Rightarrow> string res"

definition LoadHeight :: "('o, 'w) command_lib \<Rightarrow> 'w \<Rightarrow> int \<Rightarrow> 'w res" where
  "LoadHeight C app height = LoadVersion C app height"

definition appExport ::
    "('w, 'd, 'g, 'v, 'c) export_lib \<Rightarrow> ('o, 'w) command_lib \<Rightarrow> int \<Rightarrow> bool \<Rightarrow> string list \<Rightarrow> 'o \<Rightarrow> string list \<Rightarrow>
     ('v, 'c) ExportedApp res" where
  "appExport L C height forZeroHeight jailAllowedAddrs appOpts modulesToExport =
     bnd (require (GetHome C appOpts \<notin> {None, Some []}) (FmtError ''application home is not set'')) (\<lambda>_.
     bnd (case AsViper C appOpts of None \<Rightarrow> Inl (FmtError ''appOpts is not viper.Viper'') | Some v \<Rightarrow> Inr v) (\<lambda>viper.
     bnd (NewChainApp C (height = - 1) (SetInvCheckPeriod C viper 1)) (\<lambda>chainApp.
     bnd (if height \<noteq> - 1 then LoadHeight C chainApp height else Inr chainApp) (\<lambda>chainApp.
     ExportAppStateAndValidators L chainApp forZeroHeight jailAllowedAddrs modulesToExport))))"

definition getChainIDFromOpts :: "('o, 'w) command_lib \<Rightarrow> 'o \<Rightarrow> string res" where
  "getChainIDFromOpts C appOpts =
     (let chainID = ChainIDFlag C appOpts
      in if chainID \<noteq> [] then Inr chainID
         else ChainIDFromFile C (FilepathJoin C (HomeFlag C appOpts) (GenesisFileFlag C appOpts)))"

text \<open>An export that succeeds is the export of the requested height: the latest for -1.\<close>

lemma appExport_height:
  assumes "appExport L C height zero allowed opts mods = Inr ex"
  obtains viper app where "AsViper C opts = Some viper"
    "if height = - 1 then NewChainApp C True (SetInvCheckPeriod C viper 1) = Inr app
     else (\<exists>app0. NewChainApp C False (SetInvCheckPeriod C viper 1) = Inr app0 \<and> LoadVersion C app0 height = Inr app)"
    "ExportAppStateAndValidators L app zero allowed mods = Inr ex"
  using assms by (auto simp: appExport_def LoadHeight_def split: option.splits if_splits)

end
