(* ===== verification/Export_Reset.thy ===== *)
theory Export_Reset
  imports App_Export
begin

text \<open>
  What the preparation for height zero does to the staking and slashing stores, under the documented
  laws of the keepers: an iterator walks over the stored records in some order, a setter replaces the
  record with the same key, and the distribution module does not touch the staking store.
\<close>

section \<open>Iterators\<close>

fun walk :: "('s \<Rightarrow> 'x \<Rightarrow> ('s \<times> bool) res) \<Rightarrow> 'x list \<Rightarrow> 's \<Rightarrow> 's res" where
  "walk cb [] s = Inr s"
| "walk cb (x # xs) s = bnd (cb s x) (\<lambda>(s, stop). if stop then Inr s else walk cb xs s)"

lemma walk_invariant:
  assumes "walk cb xs s = Inr s'" "P s"
    and "\<And>s x t stop. P s \<Longrightarrow> cb s x = Inr (t, stop) \<Longrightarrow> P t"
  shows "P s'"
  using assms(1,2)
  by (induction xs arbitrary: s) (auto split: if_splits dest: assms(3))

lemma write_back_Inr:
  "write_back f r st x = Inr (st', stop) \<longleftrightarrow>
     (\<exists>w. f (fst st) (r x) = Inr w \<and> st' = (w, None) \<and> \<not> stop) \<or>
     (\<exists>e. f (fst st) (r x) = Inl e \<and> \<not> stops e \<and> st' = (fst st, Some e) \<and> stop)"
  by (auto simp: write_back_def split: sum.splits)

text \<open>
  One store of records, seen as a set with one record per key. The closures of the export write each
  record back with a reset field: after a complete iteration every record is the reset one and nothing
  was added or lost.
\<close>

locale reset_store =
  fixes iter :: "('w iter_state, 'x) callback \<Rightarrow> 'w iter_state \<Rightarrow> 'w iter_state res"
    and set_fn :: "'w \<Rightarrow> 'x \<Rightarrow> 'w res"
    and stored :: "'w \<Rightarrow> 'x set"
    and key :: "'x \<Rightarrow> 'k"
  assumes iter_walks: "iter cb st = Inr st' \<Longrightarrow>
      \<exists>xs. set xs = stored (fst st) \<and> distinct (map key xs) \<and> walk cb xs st = Inr st'"
    and set_stores: "set_fn w x = Inr w' \<Longrightarrow> stored w' = insert x {y \<in> stored w. key y \<noteq> key x}"
begin

lemma walk_resets:
  assumes "walk (write_back set_fn reset) xs st = Inr (w', None)" "distinct (map key xs)"
    and reset_key: "\<And>x. key (reset x) = key x"
  shows "stored w' = {y \<in> stored (fst st). key y \<notin> key ` set xs} \<union> reset ` set xs"
  using assms(1,2)
proof (induction xs arbitrary: st)
  case Nil
  then show ?case by auto
next
  case (Cons x xs)
  then obtain w where w: "set_fn (fst st) (reset x) = Inr w" "walk (write_back set_fn reset) xs (w, None) = Inr (w', None)"
    by (auto simp: bnd_eq_Inr write_back_Inr split: if_splits)
  have "stored w' = {y \<in> stored w. key y \<notin> key ` set xs} \<union> reset ` set xs"
    using Cons.IH [OF w(2)] Cons.prems(2) by simp
  moreover have "stored w = insert (reset x) {y \<in> stored (fst st). key y \<noteq> key x}"
    using set_stores [OF w(1)] by (simp add: reset_key)
  moreover have "key x \<notin> key ` set xs" using Cons.prems(2) by simp
  ultimately show ?case by (auto simp: reset_key)
qed

lemma iterate_resets:
  assumes "iterate_checked iter (write_back set_fn reset) w = Inr w'"
    and "\<And>x. key (reset x) = key x"
  shows "stored w' = reset ` stored w"
proof -
  from assms(1) have "iter (write_back set_fn reset) (w, None) = Inr (w', None)"
    by (auto simp: iterate_checked_def split: option.splits)
  from iter_walks [OF this] obtain xs where xs: "set xs = stored w" "distinct (map key xs)"
    "walk (write_back set_fn reset) xs (w, None) = Inr (w', None)" by auto
  from walk_resets [OF xs(3,2) assms(2)] xs(1) show ?thesis by auto
qed

lemma iterate_keeps:
  assumes "iterate_checked iter (write_back set_fn reset) w = Inr w'"
    and "\<And>w x w'. set_fn w x = Inr w' \<Longrightarrow> f w' = f w"
  shows "f w' = f w"
proof -
  from assms(1) have "iter (write_back set_fn reset) (w, None) = Inr (w', None)"
    by (auto simp: iterate_checked_def split: option.splits)
  from iter_walks [OF this] obtain xs where "walk (write_back set_fn reset) xs (w, None) = Inr (w', None)" by auto
  then have "f (fst (w', None :: go_err option)) = f w"
    by (rule walk_invariant) (auto simp: write_back_Inr dest: assms(2))
  then show ?thesis by simp
qed

end

section \<open>Keepers\<close>

abbreviation red_key :: "redelegation \<Rightarrow> string \<times> string \<times> string" where
  "red_key r \<equiv> (red_Delegator r, red_Src r, red_Dst r)"

abbreviation ubd_key :: "unbonding \<Rightarrow> string \<times> string" where
  "ubd_key u \<equiv> (ubd_Delegator u, ubd_Validator u)"

text \<open>
  What a reset to height zero means for a redelegation and for an unbonding: the same record with
  as many entries, the entries as they were but for the creation height, which is zero.
\<close>

definition zeroed :: "stake_entry list \<Rightarrow> stake_entry list \<Rightarrow> bool" where
  "zeroed es es' \<longleftrightarrow> map entry_rest es' = map entry_rest es \<and> (\<forall>e \<in> set es'. CreationHeight e = 0)"

definition red_zeroed :: "redelegation \<Rightarrow> redelegation \<Rightarrow> bool" where
  "red_zeroed r r' \<longleftrightarrow> red_key r' = red_key r \<and> zeroed (red_Entries r) (red_Entries r')"

definition ubd_zeroed :: "unbonding \<Rightarrow> unbonding \<Rightarrow> bool" where
  "ubd_zeroed u u' \<longleftrightarrow> ubd_key u' = ubd_key u \<and> zeroed (ubd_Entries u) (ubd_Entries u')"

lemma zeroed_iff: "zeroed es es' \<longleftrightarrow> es' = reset_entries es"
proof (induction es arbitrary: es')
  case Nil
  then show ?case by (auto simp: zeroed_def reset_entries_def)
next
  case (Cons e es)
  have "zeroed (e # es) es' \<longleftrightarrow> (\<exists>x xs. es' = x # xs \<and> entry_rest x = entry_rest e \<and> CreationHeight x = 0 \<and> zeroed es xs)"
    by (cases es') (auto simp: zeroed_def)
  also have "\<dots> \<longleftrightarrow> es' = reset_entries (e # es)"
    unfolding Cons.IH by (auto simp: reset_entries_def intro: stake_entry.equality)
  finally show ?case .
qed

lemma red_zeroed_iff: "red_zeroed r r' \<longleftrightarrow> r' = reset_redelegation r"
  by (auto simp: red_zeroed_def zeroed_iff reset_redelegation_def intro: redelegation.equality)

lemma ubd_zeroed_iff: "ubd_zeroed u u' \<longleftrightarrow> u' = reset_unbonding u"
  by (auto simp: ubd_zeroed_def zeroed_iff reset_unbonding_def intro: unbonding.equality)

text \<open>What the loop over the validators makes of one of them.\<close>

definition zero_validator ::
    "('w, 'd, 'g, 'v, 'c) export_lib \<Rightarrow> bool \<Rightarrow> string set \<Rightarrow> valaddr \<Rightarrow> validator \<Rightarrow> validator" where
  "zero_validator L ap al a v =
     v\<lparr>UnbondingHeight := 0, Jailed := Jailed v \<or> ap \<and> ValAddressString L a \<notin> al\<rparr>"

lemma zero_validator_idem: "zero_validator L ap al a (zero_validator L ap al a v) = zero_validator L ap al a v"
  by (simp add: zero_validator_def)

lemma check_allowed_loop: "foldM (check_allowed L) al as = Inr al' \<Longrightarrow> al' = al \<union> set as"
  by (induction as arbitrary: al) (auto simp: bnd_eq_Inr check_allowed_def split: sum.splits)

text \<open>
  \<open>reds\<close>, \<open>ubds\<close> and \<open>vals\<close> are the staking store, \<open>infos\<close> the signing infos of the slashing store.
  Committing the validator set updates bonds and unbonds validators; it neither jails nor unjails.
\<close>

locale export_keepers =
  reds: reset_store "IterateRedelegations L" "SetRedelegation L" reds red_key +
  ubds: reset_store "IterateUnbondingDelegations L" "SetUnbondingDelegation L" ubds ubd_key +
  infos: reset_store "IterateValidatorSigningInfos L" "SetValidatorSigningInfo L" infos fst
  for L :: "('w, 'd, 'g, 'v, 'c) export_lib"
    and reds :: "'w \<Rightarrow> redelegation set" and ubds :: "'w \<Rightarrow> unbonding set"
    and infos :: "'w \<Rightarrow> (addr \<times> signing_info) set" +
  fixes vals :: "'w \<Rightarrow> valaddr \<rightharpoonup> validator"
  assumes validators_walk: "IterateValidators L cb w = Inr w' \<Longrightarrow> \<exists>vs. walk cb vs w = Inr w'"
    and commission_frame: "WithdrawValidatorCommission L w a = (w', r) \<Longrightarrow>
      (reds w', ubds w', vals w') = (reds w, ubds w, vals w)"
    and rewards_frame: "WithdrawDelegationRewards L w d a = (w', r) \<Longrightarrow>
      (reds w', ubds w', vals w') = (reds w, ubds w, vals w)"
    and created_frame: "distr_BeforeDelegationCreated L w d a = Inr w' \<Longrightarrow>
      (reds w', ubds w', vals w') = (reds w, ubds w, vals w)"
    and modified_frame: "distr_AfterDelegationModified L w d a = Inr w' \<Longrightarrow>
      (reds w', ubds w', vals w') = (reds w, ubds w, vals w)"
    and slash_events_frame: "(reds (DeleteAllValidatorSlashEvents L w), ubds (DeleteAllValidatorSlashEvents L w),
      vals (DeleteAllValidatorSlashEvents L w)) = (reds w, ubds w, vals w)"
    and historical_frame: "(reds (DeleteAllValidatorHistoricalRewards L w), ubds (DeleteAllValidatorHistoricalRewards L w),
      vals (DeleteAllValidatorHistoricalRewards L w)) = (reds w, ubds w, vals w)"
    and height_frame: "(reds (WithBlockHeight L w h), ubds (WithBlockHeight L w h), vals (WithBlockHeight L w h)) =
      (reds w, ubds w, vals w)"
    and pool_frame: "FeePoolSet L w p = (w', r) \<Longrightarrow> (reds w', ubds w', vals w') = (reds w, ubds w, vals w)"
    and validator_created_frame: "distr_AfterValidatorCreated L w a = (w', r) \<Longrightarrow>
      (reds w', ubds w', vals w') = (reds w, ubds w, vals w)"
    and set_red_frame: "SetRedelegation L w rd = Inr w' \<Longrightarrow> (ubds w', vals w') = (ubds w, vals w)"
    and set_ubd_frame: "SetUnbondingDelegation L w ub = Inr w' \<Longrightarrow> (reds w', vals w') = (reds w, vals w)"
    and set_info_frame: "SetValidatorSigningInfo L w i = Inr w' \<Longrightarrow>
      (reds w', ubds w', vals w') = (reds w, ubds w, vals w)"
    and iterator_keys: "AddressFromValidatorsKey L ` set (ValidatorsReverseIterator L w) = dom (vals w)"
    and get_validator: "xGetValidator L w a = Inr v \<Longrightarrow> vals w a = Some v"
    and set_validator: "vals w a = Some v0 \<Longrightarrow> GetOperator v = GetOperator v0 \<Longrightarrow> SetValidator L w v = Inr w' \<Longrightarrow>
      vals w' = (vals w)(a \<mapsto> v) \<and> reds w' = reds w \<and> ubds w' = ubds w"
    and apply_updates: "ApplyAndReturnValidatorSetUpdates L w = Inr w' \<Longrightarrow>
      reds w' = reds w \<and> ubds w' = ubds w \<and> (\<lambda>a. map_option Jailed (vals w' a)) = (\<lambda>a. map_option Jailed (vals w a))"
begin

definition staking :: "'w \<Rightarrow> redelegation set \<times> unbonding set \<times> (valaddr \<rightharpoonup> validator)" where
  "staking w = (reds w, ubds w, vals w)"

lemmas distr_frames [folded staking_def] = commission_frame rewards_frame created_frame modified_frame
  slash_events_frame historical_frame height_frame pool_frame validator_created_frame set_info_frame

lemma validators_keep:
  assumes "IterateValidators L cb w = Inr w'"
    and "\<And>w x t stop. cb w x = Inr (t, stop) \<Longrightarrow> staking t = staking w"
  shows "staking w' = staking w"
proof -
  from validators_walk [OF assms(1)] obtain vs where "walk cb vs w = Inr w'" by blast
  then show ?thesis by (rule walk_invariant) (auto dest: assms(2))
qed

lemma withdraw_commission_keeps: "withdraw_commission L w v = Inr (t, stop) \<Longrightarrow> staking t = staking w"
  by (auto simp: withdraw_commission_def drop_err_def split: prod.splits sum.splits if_splits dest: distr_frames(1))

lemma withdraw_rewards_keeps: "withdraw_rewards L w d = Inr t \<Longrightarrow> staking t = staking w"
  by (auto simp: withdraw_rewards_def drop_err_def split: prod.splits sum.splits if_splits dest: distr_frames(2))

lemma reinit_delegation_keeps: "reinit_delegation L w d = Inr t \<Longrightarrow> staking t = staking w"
  by (auto simp: reinit_delegation_def wrap_err_def split: sum.splits dest!: distr_frames(3,4))

lemma reinit_validator_keeps: "reinit_validator L w v = Inr (t, stop) \<Longrightarrow> staking t = staking w"
  by (auto simp: reinit_validator_def stop_on_err_def split: prod.splits sum.splits if_splits
      dest!: distr_frames(8,9))

lemma reset_validator_step:
  assumes "reset_validator L ap al w k = Inr t"
  shows "reds t = reds w \<and> ubds t = ubds w \<and> vals t = (\<lambda>a. if a = AddressFromValidatorsKey L k
    then map_option (zero_validator L ap al a) (vals w a) else vals w a)"
proof -
  let ?a = "AddressFromValidatorsKey L k"
  from assms obtain v where v: "vals w ?a = Some v" and s: "SetValidator L w (zero_validator L ap al ?a v) = Inr t"
    by (auto simp: reset_validator_def zero_validator_def Let_def wrap_err_def split: sum.splits if_splits
        dest!: get_validator)
  have "GetOperator (zero_validator L ap al ?a v) = GetOperator v" by (simp add: zero_validator_def)
  from set_validator [OF v this s] v show ?thesis by auto
qed

lemma reset_validators:
  assumes "foldM (reset_validator L ap al) w ks = Inr w'"
  shows "reds w' = reds w \<and> ubds w' = ubds w \<and> vals w' = (\<lambda>a. if a \<in> AddressFromValidatorsKey L ` set ks
    then map_option (zero_validator L ap al a) (vals w a) else vals w a)"
  using assms
proof (induction ks arbitrary: w)
  case Nil
  then show ?case by simp
next
  case (Cons k ks)
  from Cons.prems obtain t where t: "reset_validator L ap al w k = Inr t" "foldM (reset_validator L ap al) t ks = Inr w'"
    by (auto simp: bnd_eq_Inr)
  from reset_validator_step [OF t(1)] Cons.IH [OF t(2)] show ?case
    by (auto simp: option.map_comp comp_def zero_validator_idem fun_eq_iff)
qed

text \<open>The first half of the preparation settles rewards and leaves the staking store as it was.\<close>

lemma settle_keeps:
  assumes "IterateValidators L (withdraw_commission L) w = Inr w1"
    and "foldM (withdraw_rewards L) w1 dels = Inr w2" and "foldM (reinit_delegation L) w2 dels = Inr w3"
    and "IterateValidators L (reinit_validator L) (WithBlockHeight L
      (DeleteAllValidatorHistoricalRewards L (DeleteAllValidatorSlashEvents L w3)) 0) = Inr w4"
  shows "staking (WithBlockHeight L w4 h) = staking w"
proof -
  have "staking w1 = staking w" using assms(1) by (rule validators_keep) (rule withdraw_commission_keeps)
  moreover have "staking w2 = staking w1" using assms(2) by (rule foldM_invariant) (auto dest: withdraw_rewards_keeps)
  moreover have "staking w3 = staking w2" using assms(3) by (rule foldM_invariant) (auto dest: reinit_delegation_keeps)
  moreover have "staking w4 = staking w3"
    using validators_keep [OF assms(4) reinit_validator_keeps] by (simp add: distr_frames(5-7))
  ultimately show ?thesis by (simp add: distr_frames(7))
qed

lemma reset_stores:
  assumes "iterate_checked (IterateRedelegations L) (write_back (SetRedelegation L) reset_redelegation) w = Inr w1"
    and "iterate_checked (IterateUnbondingDelegations L) (write_back (SetUnbondingDelegation L) reset_unbonding) w1 = Inr w2"
  shows "reds w2 = {r'. \<exists>r \<in> reds w. red_zeroed r r'} \<and> ubds w2 = {u'. \<exists>u \<in> ubds w. ubd_zeroed u u'} \<and>
    vals w2 = vals w"
proof -
  have "(ubds w1, vals w1) = (ubds w, vals w)"
    using assms(1) by (rule reds.iterate_keeps) (rule set_red_frame)
  moreover have "(reds w2, vals w2) = (reds w1, vals w1)"
    using assms(2) by (rule ubds.iterate_keeps) (rule set_ubd_frame)
  ultimately show ?thesis
    using reds.iterate_resets [OF assms(1)] ubds.iterate_resets [OF assms(2)]
    by (simp add: reset_redelegation_def reset_unbonding_def red_zeroed_iff ubd_zeroed_iff image_def)
qed

lemma prep_result:
  assumes "prepForZeroHeightGenesis L w allowed = Inr w'" and "\<And>w. iter_Close L w = Inr ()"
  shows "reds w' = {r'. \<exists>r \<in> reds w. red_zeroed r r'} \<and> ubds w' = {u'. \<exists>u \<in> ubds w. ubd_zeroed u u'} \<and>
    (\<forall>p \<in> infos w'. StartHeight (snd p) = 0) \<and>
    (\<forall>a. map_option Jailed (vals w' a) =
      map_option (\<lambda>v. Jailed v \<or> allowed \<noteq> [] \<and> ValAddressString L a \<notin> set allowed) (vals w a))"
proof -
  from assms(1) obtain al w1 dels w2 w3 w4 w5 w6 w7 w8 h where
    al: "foldM (check_allowed L) {} allowed = Inr al"
    and settle: "IterateValidators L (withdraw_commission L) w = Inr w1" "foldM (withdraw_rewards L) w1 dels = Inr w2"
      "foldM (reinit_delegation L) w2 dels = Inr w3"
      "IterateValidators L (reinit_validator L) (WithBlockHeight L
        (DeleteAllValidatorHistoricalRewards L (DeleteAllValidatorSlashEvents L w3)) 0) = Inr w4"
    and stores: "iterate_checked (IterateRedelegations L) (write_back (SetRedelegation L) reset_redelegation)
        (WithBlockHeight L w4 h) = Inr w5"
      "iterate_checked (IterateUnbondingDelegations L) (write_back (SetUnbondingDelegation L) reset_unbonding) w5 = Inr w6"
    and validators: "foldM (reset_validator L (0 < length allowed) al) w6 (ValidatorsReverseIterator L w6) = Inr w7"
    and updates: "ApplyAndReturnValidatorSetUpdates L w7 = Inr w8"
    and signing: "iterate_checked (IterateValidatorSigningInfos L) (write_back (SetValidatorSigningInfo L) reset_info) w8 = Inr w'"
    by (auto simp: prepForZeroHeightGenesis_def assms(2) Let_def bnd_eq_Inr wrap_err_eq_Inr)
  have al': "al = set allowed" using check_allowed_loop [OF al] by simp
  have "staking w' = staking w8" using signing by (rule infos.iterate_keeps) (rule distr_frames(10))
  moreover have "\<forall>p \<in> infos w'. StartHeight (snd p) = 0"
    using infos.iterate_resets [OF signing] by (auto simp: reset_info_def)
  moreover have "map_option Jailed (vals w7 a) =
      map_option (\<lambda>v. Jailed v \<or> allowed \<noteq> [] \<and> ValAddressString L a \<notin> set allowed) (vals w6 a)" for a
    using reset_validators [OF validators] iterator_keys [of w6] al'
    by (auto simp: option.map_comp comp_def zero_validator_def domIff)
  ultimately show ?thesis
    using apply_updates [OF updates] reset_validators [OF validators] reset_stores [OF stores] settle_keeps [OF settle, of h]
    by (simp add: staking_def fun_eq_iff)
qed

end

end
