(* ===== verification/Export_Props.thy ===== *)
theory Export_Props
  imports Export_Reset "HOL-Library.AList"
begin

text \<open>
  The export at height zero, with a small staking and slashing store on which the keepers' laws hold.
\<close>

section \<open>A store\<close>

text \<open>The first record of each key counts.\<close>

fun firsts :: "('x \<Rightarrow> 'k) \<Rightarrow> 'x list \<Rightarrow> 'x list" where
  "firsts key [] = []"
| "firsts key (x # xs) = x # filter (\<lambda>y. key y \<noteq> key x) (firsts key xs)"

lemma firsts_distinct: "distinct (map key (firsts key xs))"
  by (induction xs) (auto simp: distinct_map_filter)

record xworld =
  xw_height :: int
  xw_reds :: "redelegation list"
  xw_ubds :: "unbonding list"
  xw_infos :: "(addr \<times> signing_info) list"
  xw_vals :: "(valaddr \<times> validator) list"

definition ref_vals :: "xworld \<Rightarrow> valaddr \<rightharpoonup> validator" where
  "ref_vals w a = map_option (\<lambda>v. v\<lparr>GetOperator := a\<rparr>) (map_of (xw_vals w) a)"

definition ref_export :: "(xworld, unit, xworld, nat, unit) export_lib" where
  "ref_export = \<lparr>LastBlockHeight = xw_height, ctx_BlockHeight = xw_height,
     WithBlockHeight = (\<lambda>w h. w\<lparr>xw_height := h\<rparr>),
     xValAddressFromBech32 = Inr, MustAccAddressFromBech32 = Inr, ValAddressString = (\<lambda>a. a),
     IterateValidators = (\<lambda>cb w. walk cb (map snd (xw_vals w)) w),
     WithdrawValidatorCommission = (\<lambda>w a. (w, Inl (ExtError ''no commission''))),
     GetAllDelegations = (\<lambda>w. Inr []),
     WithdrawDelegationRewards = (\<lambda>w d a. (w, Inr ())),
     distr_BeforeDelegationCreated = (\<lambda>w d a. Inr w), distr_AfterDelegationModified = (\<lambda>w d a. Inr w),
     DeleteAllValidatorSlashEvents = (\<lambda>w. w), DeleteAllValidatorHistoricalRewards = (\<lambda>w. w),
     GetValidatorOutstandingRewardsCoins = (\<lambda>w a. Inr ()), FeePoolGet = (\<lambda>w. Inr ()),
     FeePoolSet = (\<lambda>w p. (w, Inr ())), DecCoinsAdd = (\<lambda>p q. ()),
     distr_AfterValidatorCreated = (\<lambda>w a. (w, Inr ())),
     IterateRedelegations = (\<lambda>cb st. walk cb (firsts red_key (xw_reds (fst st))) st),
     SetRedelegation = (\<lambda>w r. Inr (w\<lparr>xw_reds := r # xw_reds w\<rparr>)),
     IterateUnbondingDelegations = (\<lambda>cb st. walk cb (firsts ubd_key (xw_ubds (fst st))) st),
     SetUnbondingDelegation = (\<lambda>w u. Inr (w\<lparr>xw_ubds := u # xw_ubds w\<rparr>)),
     ValidatorsReverseIterator = (\<lambda>w. rev (map fst (xw_vals w))),
     AddressFromValidatorsKey = (\<lambda>k. k),
     xGetValidator = (\<lambda>w a. case ref_vals w a of None \<Rightarrow> Inl ErrNotFound | Some v \<Rightarrow> Inr v),
     SetValidator = (\<lambda>w v. Inr (w\<lparr>xw_vals := AList.update (GetOperator v) v (xw_vals w)\<rparr>)),
     iter_Close = (\<lambda>w. Inr ()),
     ApplyAndReturnValidatorSetUpdates = Inr,
     IterateValidatorSigningInfos = (\<lambda>cb st. walk cb (firsts fst (xw_infos (fst st))) st),
     SetValidatorSigningInfo = (\<lambda>w i. Inr (w\<lparr>xw_infos := i # xw_infos w\<rparr>)),
     ExportGenesisForModules = (\<lambda>w ms. Inr w), MarshalIndent = (\<lambda>g. Inr ''state''),
     WriteValidators = (\<lambda>w. Inr (length (xw_vals w))), GetConsensusParams = (\<lambda>w. ())\<rparr>"

abbreviation ref_reds :: "xworld \<Rightarrow> redelegation set" where
  "ref_reds w \<equiv> set (firsts red_key (xw_reds w))"

abbreviation ref_ubds :: "xworld \<Rightarrow> unbonding set" where
  "ref_ubds w \<equiv> set (firsts ubd_key (xw_ubds w))"

abbreviation ref_infos :: "xworld \<Rightarrow> (addr \<times> signing_info) set" where
  "ref_infos w \<equiv> set (firsts fst (xw_infos w))"

interpretation xref: export_keepers ref_export ref_reds ref_ubds ref_infos ref_vals
proof (unfold_locales, goal_cases)
  case (1 cb st st')
  then show ?case using firsts_distinct by (fastforce simp: ref_export_def)
next
  case (3 cb st st')
  then show ?case using firsts_distinct by (fastforce simp: ref_export_def)
next
  case (5 cb st st')
  then show ?case using firsts_distinct by (fastforce simp: ref_export_def)
next
  case (20 w)
  have "dom (ref_vals w) = dom (map_of (xw_vals w))" by (auto simp: ref_vals_def)
  then show ?case by (simp add: ref_export_def dom_map_of_conv_image_fst)
next
  case (22 w a v0 v w')
  then show ?case by (auto simp: ref_export_def ref_vals_def fun_eq_iff update_conv')
qed (auto simp: ref_export_def ref_vals_def split: option.splits)

section \<open>Height zero\<close>

text \<open>
  C38. An export for height zero that succeeds declares height zero and exports a state in which
  exactly the redelegations and unbondings of the chain are left, each with all its entries and with the
  creation height of every entry zero, in which every signing info starts at zero, and in which a validator is jailed
  exactly when it was jailed before or an allow-list was given and does not name it.
\<close>

theorem Export_zero_height:
  assumes "export_keepers L reds ubds infos vals" and "\<And>w. iter_Close L w = Inr ()"
    and "ExportAppStateAndValidators L w True allowed mods = Inr ex"
  shows "Height ex = 0 \<and>
    (\<exists>w' g. ExportGenesisForModules L w' mods = Inr g \<and> MarshalIndent L g = Inr (AppState ex) \<and>
      WriteValidators L w' = Inr (Validators ex) \<and>
      reds w' = {r'. \<exists>r \<in> reds w. red_zeroed r r'} \<and> ubds w' = {u'. \<exists>u \<in> ubds w. ubd_zeroed u u'} \<and>
      (\<forall>p \<in> infos w'. StartHeight (snd p) = 0) \<and>
      (\<forall>a. map_option Jailed (vals w' a) =
        map_option (\<lambda>v. Jailed v \<or> allowed \<noteq> [] \<and> ValAddressString L a \<notin> set allowed) (vals w a)))"
proof -
  from assms(3) obtain w' g where w': "prepForZeroHeightGenesis L w allowed = Inr w'"
    "ExportGenesisForModules L w' mods = Inr g" "MarshalIndent L g = Inr (AppState ex)"
    "WriteValidators L w' = Inr (Validators ex)" "Height ex = 0"
    by (auto simp: ExportAppStateAndValidators_def Let_def)
  with export_keepers.prep_result [OF assms(1) w'(1) assms(2)] show ?thesis by blast
qed

definition xw1 :: xworld where
  "xw1 = \<lparr>xw_height = 77,
     xw_reds = [\<lparr>red_Delegator = ''d'', red_Src = ''v1'', red_Dst = ''v2'',
       red_Entries = [\<lparr>CreationHeight = 40, entry_rest = []\<rparr>]\<rparr>],
     xw_ubds = [\<lparr>ubd_Delegator = ''d'', ubd_Validator = ''v2'',
       ubd_Entries = [\<lparr>CreationHeight = 41, entry_rest = []\<rparr>, \<lparr>CreationHeight = 42, entry_rest = []\<rparr>]\<rparr>],
     xw_infos = [(''c1'', \<lparr>StartHeight = 5, info_rest = []\<rparr>)],
     xw_vals = [(''v1'', \<lparr>GetOperator = ''v1'', UnbondingHeight = 3, Jailed = False, validator_rest = []\<rparr>),
       (''v2'', \<lparr>GetOperator = ''v2'', UnbondingHeight = 0, Jailed = False, validator_rest = []\<rparr>)]\<rparr>"

lemma xw1_export:
  "ExportAppStateAndValidators ref_export xw1 True [''v1''] [] =
     Inr \<lparr>AppState = ''state'', Validators = 2, Height = 0, ConsensusParams = ()\<rparr>"
  by code_simp

theorem Export_zero_height_witness:
  "\<exists>w'. ref_ubds w' = {\<lparr>ubd_Delegator = ''d'', ubd_Validator = ''v2'',
       ubd_Entries = [\<lparr>CreationHeight = 0, entry_rest = []\<rparr>, \<lparr>CreationHeight = 0, entry_rest = []\<rparr>]\<rparr>} \<and>
     ref_reds w' = {\<lparr>red_Delegator = ''d'', red_Src = ''v1'', red_Dst = ''v2'',
       red_Entries = [\<lparr>CreationHeight = 0, entry_rest = []\<rparr>]\<rparr>} \<and>
     map_option Jailed (ref_vals w' ''v1'') = Some False \<and> map_option Jailed (ref_vals w' ''v2'') = Some True"
proof -
  have close: "iter_Close ref_export w = Inr ()" for w by (simp add: ref_export_def)
  from Export_zero_height [OF xref.export_keepers_axioms close xw1_export] obtain w' where w':
    "ref_reds w' = {r'. \<exists>r \<in> ref_reds xw1. red_zeroed r r'}" "ref_ubds w' = {u'. \<exists>u \<in> ref_ubds xw1. ubd_zeroed u u'}"
    "map_option Jailed (ref_vals w' a) =
      map_option (\<lambda>v. Jailed v \<or> [''v1''] \<noteq> [] \<and> ValAddressString ref_export a \<notin> set [''v1'']) (ref_vals xw1 a)" for a
    by blast
  have "ref_vals xw1 ''v1'' = Some \<lparr>GetOperator = ''v1'', UnbondingHeight = 3, Jailed = False, validator_rest = []\<rparr>"
    "ref_vals xw1 ''v2'' = Some \<lparr>GetOperator = ''v2'', UnbondingHeight = 0, Jailed = False, validator_rest = []\<rparr>"
    "ValAddressString ref_export = (\<lambda>a. a)"
    by (simp_all add: ref_vals_def xw1_def ref_export_def)
  then show ?thesis
    by (intro exI [of _ w'] conjI; simp only: w')
      (auto simp: xw1_def red_zeroed_iff ubd_zeroed_iff reset_redelegation_def reset_unbonding_def reset_entries_def)
qed

text \<open>
  The second iteration over the validators drops its errors: when the fee pool cannot be read, the
  loop stops at the first validator and the iteration reports success.
\<close>

lemma reinit_error_dropped:
  assumes "FeePoolGet L w = Inl e" "\<not> stops e"
  shows "walk (reinit_validator L) vs w = Inr w \<or>
    (\<exists>e. GetValidatorOutstandingRewardsCoins L w (GetOperator (hd vs)) = Inl e \<and> stops e)"
  using assms by (cases vs) (auto simp: reinit_validator_def split: sum.splits)

end
