(* ===== verification/App_Genesis.thy ===== *)
theory App_Genesis
  imports Precompile Distro
begin

text \<open>
  The genesis states of the application (\<open>app/genesis.go\<close>, \<open>DefaultGenesis\<close>, \<open>InitChainer\<close>), its module
  accounts and blocked addresses (\<open>app/app.go\<close>), and the upgrade \<open>v2-lockup\<close> (\<open>app/upgrades.go\<close>). The default
  states, names and keepers of the SDK, EVM and wasm modules are parameters; of a foreign state
  only the fields the code sets are spelled out, the rest is one opaque field.
\<close>

section \<open>Constants\<close>

definition BaseDenom :: string where "BaseDenom = ''aTSC''"

definition DisplayDenom :: string where "DisplayDenom = ''TSC''"

definition BaseDenomUnit :: int where "BaseDenomUnit = 18"

definition UpgradeName :: string where "UpgradeName = ''v2-lockup''"

definition distro_ModuleName :: string where "distro_ModuleName = ''distro''"

definition lockup_StoreKey :: string where "lockup_StoreKey = ''lockup''"

definition LockupPrecompileHex :: string where
  "LockupPrecompileHex = ''0x0000000000000000000000000000000000000900''"

section \<open>Foreign states\<close>

record evm_params =
  EvmDenom :: string
  ExtendedDenom :: "string option"
  ExtraEIPs :: "int list"
  ActiveStaticPrecompiles :: "string list"
  evm_params_rest :: bytes

record evm_genesis =
  evm_Params :: evm_params
  Preinstalls :: bytes
  evm_genesis_rest :: bytes

record denom_unit =
  du_Denom :: string
  Exponent :: "32 word"
  Aliases :: "string list"

record denom_metadata =
  Description :: string
  DenomUnits :: "denom_unit list"
  Base :: string
  Display :: string
  md_Name :: string
  Symbol :: string
  md_URI :: string
  md_URIHash :: string

record mint_genesis =
  MintDenom :: string
  mint_genesis_rest :: bytes

record staking_genesis =
  gs_BondDenom :: string
  staking_genesis_rest :: bytes

record bank_genesis =
  DenomMetadata :: "denom_metadata list"
  bank_genesis_rest :: bytes

text \<open>What the code uses of other packages; \<open>marshal_*\<close> is \<open>MustMarshalJSON\<close>.\<close>

record app_lib =
  evm_DefaultGenesisState :: evm_genesis
  AvailableStaticPrecompiles :: "string list"
  DefaultPreinstalls :: bytes
  DefaultExtraEIPs :: "int list"
  erc20_DefaultGenesisState :: bytes
  feemarket_DefaultGenesisState :: bytes
  mint_DefaultGenesisState :: mint_genesis
  staking_DefaultGenesisState :: staking_genesis
  bank_DefaultGenesisState :: bank_genesis
  FeeCollectorName :: string
  distribution_ModuleName :: string
  mint_ModuleName :: string
  BondedPoolName :: string
  NotBondedPoolName :: string
  gov_ModuleName :: string
  nft_ModuleName :: string
  transfer_ModuleName :: string
  ica_ModuleName :: string
  evm_ModuleName :: string
  feemarket_ModuleName :: string
  erc20_ModuleName :: string
  precisebank_ModuleName :: string
  wasm_ModuleName :: string
  staking_ModuleName :: string
  bank_ModuleName :: string
  epochs_StoreKey :: string
  wasm_StoreKey :: string
  crisis_StoreKey :: string
  group_StoreKey :: string
  NewModuleAddress :: "string \<Rightarrow> string"
  EthHexToCosmosAddr :: "string \<Rightarrow> string"
  marshal_evm :: "evm_genesis \<Rightarrow> bytes"
  marshal_mint :: "mint_genesis \<Rightarrow> bytes"
  marshal_staking :: "staking_genesis \<Rightarrow> bytes"
  marshal_bank :: "bank_genesis \<Rightarrow> bytes"
  marshal_erc20 :: "bytes \<Rightarrow> bytes"

section \<open>Genesis\<close>

definition NewEVMGenesisState :: "app_lib \<Rightarrow> evm_genesis" where
  "NewEVMGenesisState A =
     (let g = evm_DefaultGenesisState A;
          activePrecompiles = sort (AvailableStaticPrecompiles A @ [LockupPrecompileHex])
      in g\<lparr>evm_Params := (evm_Params g)\<lparr>EvmDenom := BaseDenom, ExtendedDenom := Some BaseDenom,
             ActiveStaticPrecompiles := activePrecompiles\<rparr>,
           Preinstalls := DefaultPreinstalls A\<rparr>)"

definition NewErc20GenesisState :: "app_lib \<Rightarrow> bytes" where
  "NewErc20GenesisState A = erc20_DefaultGenesisState A"

definition NewMintGenesisState :: "app_lib \<Rightarrow> mint_genesis" where
  "NewMintGenesisState A = (mint_DefaultGenesisState A)\<lparr>MintDenom := BaseDenom\<rparr>"

definition NewFeeMarketGenesisState :: "app_lib \<Rightarrow> bytes" where
  "NewFeeMarketGenesisState A = feemarket_DefaultGenesisState A"

definition NewStakingGenesisState :: "app_lib \<Rightarrow> staking_genesis" where
  "NewStakingGenesisState A = (staking_DefaultGenesisState A)\<lparr>gs_BondDenom := BaseDenom\<rparr>"

definition denom_units :: "denom_unit list" where
  "denom_units =
     [\<lparr>du_Denom = BaseDenom, Exponent = 0, Aliases = [''atsc'']\<rparr>,
      \<lparr>du_Denom = DisplayDenom, Exponent = of_int BaseDenomUnit, Aliases = []\<rparr>]"

definition NewBankGenesisState :: "app_lib \<Rightarrow> bank_genesis" where
  "NewBankGenesisState A = (bank_DefaultGenesisState A)\<lparr>DenomMetadata :=
     [\<lparr>Description = ''The native staking token of the TSC network.'', DenomUnits = denom_units,
       Base = BaseDenom, Display = DisplayDenom, md_Name = DisplayDenom, Symbol = DisplayDenom,
       md_URI = [], md_URIHash = []\<rparr>]\<rparr>"

text \<open>The overrides of \<open>DefaultGenesis\<close> in the module wrappers\<close>

definition evm_DefaultGenesis :: "app_lib \<Rightarrow> bytes" where
  "evm_DefaultGenesis A = marshal_evm A (NewEVMGenesisState A)"

definition staking_DefaultGenesis :: "app_lib \<Rightarrow> bytes" where
  "staking_DefaultGenesis A = marshal_staking A (NewStakingGenesisState A)"

definition bank_DefaultGenesis :: "app_lib \<Rightarrow> bytes" where
  "bank_DefaultGenesis A = marshal_bank A (NewBankGenesisState A)"

definition mint_DefaultGenesis :: "app_lib \<Rightarrow> bytes" where
  "mint_DefaultGenesis A = marshal_mint A (NewMintGenesisState A)"

definition app_DefaultGenesis :: "app_lib \<Rightarrow> (string \<rightharpoonup> bytes) \<Rightarrow> string \<rightharpoonup> bytes" where
  "app_DefaultGenesis A basic = basic
     (mint_ModuleName A \<mapsto> marshal_mint A (NewMintGenesisState A),
      evm_ModuleName A \<mapsto> marshal_evm A (NewEVMGenesisState A),
      erc20_ModuleName A \<mapsto> marshal_erc20 A (NewErc20GenesisState A),
      staking_ModuleName A \<mapsto> marshal_staking A (NewStakingGenesisState A),
      bank_ModuleName A \<mapsto> marshal_bank A (NewBankGenesisState A))"

definition InitChainer ::
    "(bytes \<Rightarrow> 'g res) \<Rightarrow> ('w \<Rightarrow> 'w res) \<Rightarrow> ('w \<Rightarrow> 'g \<Rightarrow> 'r res) \<Rightarrow> 'w \<Rightarrow> bytes \<Rightarrow> 'r res" where
  "InitChainer UnmarshalGenesis SetModuleVersionMap manager_InitGenesis ctx appStateBytes =
     bnd (wrap_err (GoPanic ''invalid genesis'') (UnmarshalGenesis appStateBytes)) (\<lambda>genesisState.
     bnd (wrap_err (GoPanic ''version map'') (SetModuleVersionMap ctx)) (\<lambda>ctx.
     manager_InitGenesis ctx genesisState))"

section \<open>Accounts\<close>

datatype permission = Minter | Burner | Staking

definition maccPerms :: "app_lib \<Rightarrow> (string \<times> permission list) list" where
  "maccPerms A =
     [(FeeCollectorName A, []),
      (distribution_ModuleName A, []),
      (mint_ModuleName A, [Minter]),
      (BondedPoolName A, [Burner, Staking]),
      (NotBondedPoolName A, [Burner, Staking]),
      (gov_ModuleName A, [Burner]),
      (nft_ModuleName A, []),
      (transfer_ModuleName A, [Minter, Burner]),
      (ica_ModuleName A, []),
      (evm_ModuleName A, [Minter, Burner]),
      (feemarket_ModuleName A, []),
      (erc20_ModuleName A, [Minter, Burner]),
      (distro_ModuleName, [Minter, Burner]),
      (precisebank_ModuleName A, [Minter, Burner]),
      (wasm_ModuleName A, [Burner])]"

definition GetMaccPerms :: "app_lib \<Rightarrow> (string \<times> permission list) list" where
  "GetMaccPerms A = maccPerms A"

definition BlockedAddresses :: "app_lib \<Rightarrow> string \<Rightarrow> bool option" where
  "BlockedAddresses A =
     (let blocked = fold (\<lambda>acc m. m(NewModuleAddress A (fst acc) \<mapsto> True)) (GetMaccPerms A) Map.empty;
          blocked = blocked(NewModuleAddress A (gov_ModuleName A) := None);
          precompiles = AvailableStaticPrecompiles A @ [LockupPrecompileHex]
      in fold (\<lambda>p m. m(EthHexToCosmosAddr A p \<mapsto> True)) precompiles blocked)"

section \<open>Upgrade\<close>

record 'w upgrade_lib =
  SetDenomMetaData :: "'w \<Rightarrow> denom_metadata \<Rightarrow> 'w"
  evm_GetParams :: "'w \<Rightarrow> evm_params"
  evm_SetParams :: "'w \<Rightarrow> evm_params \<Rightarrow> 'w res"
  InitEvmCoinInfo :: "'w \<Rightarrow> 'w res"
  EnableStaticPrecompiles :: "'w \<Rightarrow> addr \<Rightarrow> 'w res"
  RunMigrations :: "'w \<Rightarrow> (string \<rightharpoonup> int) \<Rightarrow> ('w \<times> (string \<rightharpoonup> int)) res"

definition upgrade_metadata :: denom_metadata where
  "upgrade_metadata =
     \<lparr>Description = ''The native staking token of Trusted Smart Chain'', DenomUnits = denom_units,
      Base = BaseDenom, Display = DisplayDenom, md_Name = ''Trusted Smart Chain'', Symbol = DisplayDenom,
      md_URI = [], md_URIHash = []\<rparr>"

text \<open>The handler up to the migrations, and with them\<close>

definition upgrade_evm :: "app_lib \<Rightarrow> 'w upgrade_lib \<Rightarrow> 'w \<Rightarrow> 'w res" where
  "upgrade_evm A U ctx =
     (let ctx = SetDenomMetaData U ctx upgrade_metadata;
          evmParams = (evm_GetParams U ctx)\<lparr>EvmDenom := BaseDenom, ExtendedDenom := Some BaseDenom,
            ExtraEIPs := DefaultExtraEIPs A, ActiveStaticPrecompiles := AvailableStaticPrecompiles A\<rparr>
      in bnd (evm_SetParams U ctx evmParams) (\<lambda>ctx.
         bnd (InitEvmCoinInfo U ctx) (\<lambda>ctx.
         EnableStaticPrecompiles U ctx LockupPrecompileAddress)))"

definition upgrade_handler ::
    "app_lib \<Rightarrow> 'w upgrade_lib \<Rightarrow> 'w \<Rightarrow> (string \<rightharpoonup> int) \<Rightarrow> ('w \<times> (string \<rightharpoonup> int)) res" where
  "upgrade_handler A U ctx fromVM = bnd (upgrade_evm A U ctx) (\<lambda>ctx. RunMigrations U ctx fromVM)"

record store_upgrades =
  Added :: "string list"
  Deleted :: "string list"

definition storeUpgrades :: "app_lib \<Rightarrow> store_upgrades" where
  "storeUpgrades A =
     \<lparr>Added = [epochs_StoreKey A, wasm_StoreKey A, lockup_StoreKey],
      Deleted = [crisis_StoreKey A, group_StoreKey A, ''circuit'', ''feeibc'', ''capability'', ''tokenfactory'',
        ''packetforwardmiddleware'', ''08-wasm'', ''ratelimit'']\<rparr>"

text \<open>The second half of \<open>RegisterUpgradeHandlers\<close>: the height and stores of the loader, if one is set\<close>

definition upgrade_store_loader ::
    "app_lib \<Rightarrow> (string \<times> int) res \<Rightarrow> (int \<Rightarrow> bool) \<Rightarrow> (int \<times> store_upgrades) option res" where
  "upgrade_store_loader A ReadUpgradeInfoFromDisk IsSkipHeight =
     bnd (wrap_err (GoPanic ''upgrade info'') ReadUpgradeInfoFromDisk) (\<lambda>(name, height).
     Inr (if name = UpgradeName \<and> \<not> IsSkipHeight height then Some (height, storeUpgrades A) else None))"

end
