(* ===== verification/App_Props.thy ===== *)
theory App_Props
  imports App_Genesis
begin

text \<open>
  The addresses the application blocks, and its EVM configuration after the upgrade, which is that of
  a fresh genesis.
\<close>

lemma fold_marks: "fold (\<lambda>x m. m(f x \<mapsto> True)) xs m a = (if a \<in> f ` set xs then Some True else m a)"
  by (induction xs arbitrary: m) auto

text \<open>
  The bank blocks exactly the addresses of the precompiles and of the module accounts other than
  governance, also where a precompile shares the governance account's address.
\<close>

lemma blocked_iff:
  "BlockedAddresses A a = Some True \<longleftrightarrow>
     a \<in> EthHexToCosmosAddr A ` set (AvailableStaticPrecompiles A @ [LockupPrecompileHex]) \<or>
     a \<noteq> NewModuleAddress A (gov_ModuleName A) \<and> a \<in> NewModuleAddress A ` fst ` set (maccPerms A)"
  unfolding BlockedAddresses_def Let_def fold_marks GetMaccPerms_def by (auto simp: image_iff)

section \<open>The upgrade\<close>

text \<open>
  The documented effect of the EVM keeper's calls on the stored parameters: metadata and coin info
  leave them, setting them stores them up to the order of the active precompiles (the keeper sorts
  those), and enabling a precompile adds its hex address to the active ones.
\<close>

locale evm_keeper =
  fixes U :: "'w upgrade_lib" and hex :: "addr \<Rightarrow> string"
  assumes get_set: "evm_SetParams U w p = Inr w' \<Longrightarrow>
      \<exists>ps. set ps = set (ActiveStaticPrecompiles p) \<and> evm_GetParams U w' = p\<lparr>ActiveStaticPrecompiles := ps\<rparr>"
    and coin_info: "InitEvmCoinInfo U w = Inr w' \<Longrightarrow> evm_GetParams U w' = evm_GetParams U w"
    and enable: "EnableStaticPrecompiles U w a = Inr w' \<Longrightarrow>
      set (ActiveStaticPrecompiles (evm_GetParams U w')) = insert (hex a) (set (ActiveStaticPrecompiles (evm_GetParams U w))) \<and>
      EvmDenom (evm_GetParams U w') = EvmDenom (evm_GetParams U w) \<and>
      ExtendedDenom (evm_GetParams U w') = ExtendedDenom (evm_GetParams U w) \<and>
      ExtraEIPs (evm_GetParams U w') = ExtraEIPs (evm_GetParams U w)"
    and hex_lockup: "hex LockupPrecompileAddress = LockupPrecompileHex"
begin

lemma upgrade_params:
  assumes "upgrade_evm A U w = Inr w'"
  defines "p \<equiv> evm_GetParams U w'" and "g \<equiv> evm_Params (NewEVMGenesisState A)"
  shows "EvmDenom p = EvmDenom g \<and> ExtendedDenom p = ExtendedDenom g \<and> ExtraEIPs p = DefaultExtraEIPs A \<and>
    set (ActiveStaticPrecompiles p) = set (ActiveStaticPrecompiles g)"
proof -
  define q where "q = (evm_GetParams U (SetDenomMetaData U w upgrade_metadata))\<lparr>EvmDenom := BaseDenom,
    ExtendedDenom := Some BaseDenom, ExtraEIPs := DefaultExtraEIPs A,
    ActiveStaticPrecompiles := AvailableStaticPrecompiles A\<rparr>"
  from assms(1) obtain w1 w2 where w: "evm_SetParams U (SetDenomMetaData U w upgrade_metadata) q = Inr w1"
    "InitEvmCoinInfo U w1 = Inr w2" "EnableStaticPrecompiles U w2 LockupPrecompileAddress = Inr w'"
    by (auto simp: upgrade_evm_def Let_def q_def)
  obtain ps where "set ps = set (ActiveStaticPrecompiles q)" "evm_GetParams U w2 = q\<lparr>ActiveStaticPrecompiles := ps\<rparr>"
    using get_set [OF w(1)] coin_info [OF w(2)] by auto
  then show ?thesis
    using enable [OF w(3)] by (simp add: q_def p_def g_def NewEVMGenesisState_def Let_def hex_lockup)
qed

end

text \<open>
  C40. The upgrade of a running chain ends, before the modules' migrations, in the EVM configuration
  of a fresh one: the same denominations and the same active precompiles as the genesis state,
  whatever the parameters were before; and the stores it adds include the lockup module's.
\<close>

theorem upgrade_matches_genesis:
  assumes "evm_keeper U hex" and "upgrade_handler A U w fromVM = Inr r"
  shows "\<exists>w'. RunMigrations U w' fromVM = Inr r \<and>
    EvmDenom (evm_GetParams U w') = EvmDenom (evm_Params (NewEVMGenesisState A)) \<and>
    ExtendedDenom (evm_GetParams U w') = ExtendedDenom (evm_Params (NewEVMGenesisState A)) \<and>
    set (ActiveStaticPrecompiles (evm_GetParams U w')) =
      set (ActiveStaticPrecompiles (evm_Params (NewEVMGenesisState A))) \<and>
    lockup_StoreKey \<in> set (Added (storeUpgrades A))"
proof -
  from assms(2) obtain w' where "upgrade_evm A U w = Inr w'" "RunMigrations U w' fromVM = Inr r"
    by (auto simp: upgrade_handler_def)
  with evm_keeper.upgrade_params [OF assms(1) this(1)] show ?thesis by (auto simp: storeUpgrades_def)
qed

section \<open>An application\<close>

definition ref_app :: app_lib where
  "ref_app = \<lparr>evm_DefaultGenesisState = \<lparr>evm_Params = \<lparr>EvmDenom = ''atest'', ExtendedDenom = None, ExtraEIPs = [],
       ActiveStaticPrecompiles = [], evm_params_rest = []\<rparr>, Preinstalls = [], evm_genesis_rest = []\<rparr>,
     AvailableStaticPrecompiles = [''0x0000000000000000000000000000000000000100'',
       ''0x0000000000000000000000000000000000000800''],
     DefaultPreinstalls = [], DefaultExtraEIPs = [], erc20_DefaultGenesisState = [], feemarket_DefaultGenesisState = [],
     mint_DefaultGenesisState = \<lparr>MintDenom = ''stake'', mint_genesis_rest = []\<rparr>,
     staking_DefaultGenesisState = \<lparr>gs_BondDenom = ''stake'', staking_genesis_rest = []\<rparr>,
     bank_DefaultGenesisState = \<lparr>DenomMetadata = [], bank_genesis_rest = []\<rparr>,
     FeeCollectorName = ''fee_collector'', distribution_ModuleName = ''distribution'', mint_ModuleName = ''mint'',
     BondedPoolName = ''bonded_tokens_pool'', NotBondedPoolName = ''not_bonded_tokens_pool'', gov_ModuleName = ''gov'',
     nft_ModuleName = ''nft'', transfer_ModuleName = ''transfer'', ica_ModuleName = ''interchainaccounts'',
     evm_ModuleName = ''evm'', feemarket_ModuleName = ''feemarket'', erc20_ModuleName = ''erc20'',
     precisebank_ModuleName = ''precisebank'', wasm_ModuleName = ''wasm'', staking_ModuleName = ''staking'',
     bank_ModuleName = ''bank'', epochs_StoreKey = ''epochs'', wasm_StoreKey = ''wasm'', crisis_StoreKey = ''crisis'',
     group_StoreKey = ''group'', NewModuleAddress = (\<lambda>n. ''module:'' @ n), EthHexToCosmosAddr = (\<lambda>x. ''eth:'' @ x),
     marshal_evm = (\<lambda>_. []), marshal_mint = (\<lambda>_. []), marshal_staking = (\<lambda>_. []), marshal_bank = (\<lambda>_. []),
     marshal_erc20 = (\<lambda>_. [])\<rparr>"

text \<open>A chain that stores nothing but the EVM parameters\<close>

definition ref_hex :: "addr \<Rightarrow> string" where
  "ref_hex a = (if a = LockupPrecompileAddress then LockupPrecompileHex else a)"

definition ref_upgrade :: "evm_params upgrade_lib" where
  "ref_upgrade = \<lparr>SetDenomMetaData = (\<lambda>w m. w), evm_GetParams = (\<lambda>w. w), 
     evm_SetParams = (\<lambda>w p. Inr (p\<lparr>ActiveStaticPrecompiles := sort (ActiveStaticPrecompiles p)\<rparr>)),
     InitEvmCoinInfo = Inr,
     EnableStaticPrecompiles = (\<lambda>w a. Inr (w\<lparr>ActiveStaticPrecompiles := sort (ref_hex a # ActiveStaticPrecompiles w)\<rparr>)),
     RunMigrations = (\<lambda>w vm. Inr (w, vm))\<rparr>"

interpretation ref_keeper: evm_keeper ref_upgrade ref_hex
proof (unfold_locales, goal_cases)
  case (1 w p w')
  then show ?case
    by (intro exI [of _ "sort (ActiveStaticPrecompiles p)"]) (auto simp: ref_upgrade_def)
qed (auto simp: ref_upgrade_def ref_hex_def set_insort_key)

definition old_params :: evm_params where
  "old_params = \<lparr>EvmDenom = ''old'', ExtendedDenom = None, ExtraEIPs = [1], ActiveStaticPrecompiles = [''garbage''],
     evm_params_rest = []\<rparr>"

theorem upgrade_matches_genesis_witness:
  "\<exists>p. upgrade_handler ref_app ref_upgrade old_params Map.empty = Inr (p, Map.empty) \<and>
     EvmDenom p = ''aTSC'' \<and> LockupPrecompileHex \<in> set (ActiveStaticPrecompiles p)"
proof -
  obtain p where p: "upgrade_handler ref_app ref_upgrade old_params Map.empty = Inr (p, Map.empty)"
    by (simp add: upgrade_handler_def upgrade_evm_def ref_upgrade_def Let_def)
  from upgrade_matches_genesis [OF ref_keeper.evm_keeper_axioms p] p show ?thesis
    by (auto simp: ref_upgrade_def NewEVMGenesisState_def Let_def BaseDenom_def)
qed

end
