(* ===== verification/Msg_Codec.thy ===== *)
theory Msg_Codec
  imports Proto_Message Lock_Msgs
begin

text \<open>
  The wire format of the lockup messages: the generated \<open>Size\<close>, \<open>MarshalToSizedBuffer\<close> and
  \<open>Unmarshal\<close> of \<open>x/lockup/types/tx.pb.go\<close>, \<open>extension.pb.go\<close> and \<open>output.pb.go\<close>. The codec of
  \<open>sdk.Coin\<close> is foreign: \<open>cm\<close> gives its bytes and \<open>cu\<close> merges bytes into a coin. Under the contract
  \<open>coin_codec\<close> (its amount starts at 0 for Go's nil integer) each message type fulfils \<open>pb_message\<close>, so it survives the way through a transaction.
\<close>

definition zero_coin :: coin where
  "zero_coin = \<lparr>Denom = [], CoinAmount = 0\<rparr>"

section \<open>Extensions and outputs\<close>

definition Extension_Size :: "(coin \<Rightarrow> bytes res) \<Rightarrow> Extension \<Rightarrow> nat" where
  "Extension_Size cm m =
     size_str (FromDate m) + size_str (ToDate m) +
     size_len (foreign_Size (cm (ext_Amount m)))"

definition Extension_MarshalToSizedBuffer ::
    "(coin \<Rightarrow> bytes res) \<Rightarrow> Extension \<Rightarrow> bytes \<Rightarrow> pb_buf res" where
  "Extension_MarshalToSizedBuffer cm m = sized_buffer (\<lambda>st.
     bnd (put_foreign 26 (cm (ext_Amount m)) st) (\<lambda>st.
     bnd (put_str 18 (ToDate m) st)
         (put_str 10 (FromDate m))))"

definition Extension_Marshal :: "(coin \<Rightarrow> bytes res) \<Rightarrow> Extension \<Rightarrow> bytes res" where
  "Extension_Marshal cm m = pb_Marshal (Extension_Size cm m) (Extension_MarshalToSizedBuffer cm m)"

definition Extension_fields :: "(bytes \<Rightarrow> coin \<Rightarrow> coin res) \<Rightarrow> int \<Rightarrow> Extension pb_field" where
  "Extension_fields cu fieldNum =
     (if fieldNum = 1 then PbLen (\<lambda>bs m. Inr (m\<lparr>FromDate := bs\<rparr>))
      else if fieldNum = 2 then PbLen (\<lambda>bs m. Inr (m\<lparr>ToDate := bs\<rparr>))
      else if fieldNum = 3 then PbLen (\<lambda>bs m. bnd (cu bs (ext_Amount m)) (\<lambda>c. Inr (m\<lparr>ext_Amount := c\<rparr>)))
      else PbSkip)"

definition zero_Extension :: Extension where
  "zero_Extension = \<lparr>FromDate = [], ToDate = [], ext_Amount = zero_coin\<rparr>"

definition Extension_Unmarshal :: "(bytes \<Rightarrow> coin \<Rightarrow> coin res) \<Rightarrow> bytes \<Rightarrow> Extension res" where
  "Extension_Unmarshal cu dAtA = pb_unmarshal (Extension_fields cu) dAtA zero_Extension"

definition Extension_wire :: "(coin \<Rightarrow> bytes) \<Rightarrow> Extension \<Rightarrow> bytes" where
  "Extension_wire enc m =
     (str_field 1 (FromDate m) @ str_field 2 (ToDate m)) @ len_field 3 (enc (ext_Amount m))"

definition MultiOutput_Size :: "(coin \<Rightarrow> bytes res) \<Rightarrow> MultiOutput \<Rightarrow> nat" where
  "MultiOutput_Size cm m =
     size_str (out_FromAddress m) + size_str (out_ToAddress m) +
     size_str (out_ValidatorAddress m) + size_str (out_UnlockDate m) +
     size_len (foreign_Size (cm (out_Amount m)))"

definition MultiOutput_MarshalToSizedBuffer ::
    "(coin \<Rightarrow> bytes res) \<Rightarrow> MultiOutput \<Rightarrow> bytes \<Rightarrow> pb_buf res" where
  "MultiOutput_MarshalToSizedBuffer cm m = sized_buffer (\<lambda>st.
     bnd (put_foreign 42 (cm (out_Amount m)) st) (\<lambda>st.
     bnd (put_str 34 (out_UnlockDate m) st) (\<lambda>st.
     bnd (put_str 26 (out_ValidatorAddress m) st) (\<lambda>st.
     bnd (put_str 18 (out_ToAddress m) st)
         (put_str 10 (out_FromAddress m))))))"

definition MultiOutput_Marshal :: "(coin \<Rightarrow> bytes res) \<Rightarrow> MultiOutput \<Rightarrow> bytes res" where
  "MultiOutput_Marshal cm m = pb_Marshal (MultiOutput_Size cm m) (MultiOutput_MarshalToSizedBuffer cm m)"

definition MultiOutput_fields :: "(bytes \<Rightarrow> coin \<Rightarrow> coin res) \<Rightarrow> int \<Rightarrow> MultiOutput pb_field" where
  "MultiOutput_fields cu fieldNum =
     (if fieldNum = 1 then PbLen (\<lambda>bs m. Inr (m\<lparr>out_FromAddress := bs\<rparr>))
      else if fieldNum = 2 then PbLen (\<lambda>bs m. Inr (m\<lparr>out_ToAddress := bs\<rparr>))
      else if fieldNum = 3 then PbLen (\<lambda>bs m. Inr (m\<lparr>out_ValidatorAddress := bs\<rparr>))
      else if fieldNum = 4 then PbLen (\<lambda>bs m. Inr (m\<lparr>out_UnlockDate := bs\<rparr>))
      else if fieldNum = 5 then PbLen (\<lambda>bs m. bnd (cu bs (out_Amount m)) (\<lambda>c. Inr (m\<lparr>out_Amount := c\<rparr>)))
      else PbSkip)"

definition zero_MultiOutput :: MultiOutput where
  "zero_MultiOutput = \<lparr>out_FromAddress = [], out_ToAddress = [], out_ValidatorAddress = [],
      out_UnlockDate = [], out_Amount = zero_coin\<rparr>"

definition MultiOutput_Unmarshal :: "(bytes \<Rightarrow> coin \<Rightarrow> coin res) \<Rightarrow> bytes \<Rightarrow> MultiOutput res" where
  "MultiOutput_Unmarshal cu dAtA = pb_unmarshal (MultiOutput_fields cu) dAtA zero_MultiOutput"

definition MultiOutput_wire :: "(coin \<Rightarrow> bytes) \<Rightarrow> MultiOutput \<Rightarrow> bytes" where
  "MultiOutput_wire enc m =
     (((str_field 1 (out_FromAddress m) @ str_field 2 (out_ToAddress m)) @
     str_field 3 (out_ValidatorAddress m)) @ str_field 4 (out_UnlockDate m)) @
     len_field 5 (enc (out_Amount m))"

section \<open>Messages\<close>

definition MsgLock_Size :: "(coin \<Rightarrow> bytes res) \<Rightarrow> MsgLock \<Rightarrow> nat" where
  "MsgLock_Size cm m =
     size_str (lk_Address m) + size_str (lk_UnlockDate m) +
     size_len (foreign_Size (cm (lk_Amount m)))"

definition MsgLock_MarshalToSizedBuffer ::
    "(coin \<Rightarrow> bytes res) \<Rightarrow> MsgLock \<Rightarrow> bytes \<Rightarrow> pb_buf res" where
  "MsgLock_MarshalToSizedBuffer cm m = sized_buffer (\<lambda>st.
     bnd (put_foreign 26 (cm (lk_Amount m)) st) (\<lambda>st.
     bnd (put_str 18 (lk_UnlockDate m) st)
         (put_str 10 (lk_Address m))))"

definition MsgLock_Marshal :: "(coin \<Rightarrow> bytes res) \<Rightarrow> MsgLock \<Rightarrow> bytes res" where
  "MsgLock_Marshal cm m = pb_Marshal (MsgLock_Size cm m) (MsgLock_MarshalToSizedBuffer cm m)"

definition MsgLock_fields :: "(bytes \<Rightarrow> coin \<Rightarrow> coin res) \<Rightarrow> int \<Rightarrow> MsgLock pb_field" where
  "MsgLock_fields cu fieldNum =
     (if fieldNum = 1 then PbLen (\<lambda>bs m. Inr (m\<lparr>lk_Address := bs\<rparr>))
      else if fieldNum = 2 then PbLen (\<lambda>bs m. Inr (m\<lparr>lk_UnlockDate := bs\<rparr>))
      else if fieldNum = 3 then PbLen (\<lambda>bs m. bnd (cu bs (lk_Amount m)) (\<lambda>c. Inr (m\<lparr>lk_Amount := c\<rparr>)))
      else PbSkip)"

definition zero_MsgLock :: MsgLock where
  "zero_MsgLock = \<lparr>lk_Address = [], lk_UnlockDate = [], lk_Amount = zero_coin\<rparr>"

definition MsgLock_Unmarshal :: "(bytes \<Rightarrow> coin \<Rightarrow> coin res) \<Rightarrow> bytes \<Rightarrow> MsgLock res" where
  "MsgLock_Unmarshal cu dAtA = pb_unmarshal (MsgLock_fields cu) dAtA zero_MsgLock"

definition MsgLock_wire :: "(coin \<Rightarrow> bytes) \<Rightarrow> MsgLock \<Rightarrow> bytes" where
  "MsgLock_wire enc m =
     (str_field 1 (lk_Address m) @ str_field 2 (lk_UnlockDate m)) @
     len_field 3 (enc (lk_Amount m))"

definition MsgExtend_Size :: "(coin \<Rightarrow> bytes res) \<Rightarrow> MsgExtend \<Rightarrow> nat" where
  "MsgExtend_Size cm m =
     size_str (ex_Address m) + size_msgs (Extension_Size cm) (Extensions m)"

definition MsgExtend_MarshalToSizedBuffer ::
    "(coin \<Rightarrow> bytes res) \<Rightarrow> MsgExtend \<Rightarrow> bytes \<Rightarrow> pb_buf res" where
  "MsgExtend_MarshalToSizedBuffer cm m = sized_buffer (\<lambda>st.
     bnd (put_msgs 18 (Extension_MarshalToSizedBuffer cm) (Extensions m) st)
         (put_str 10 (ex_Address m)))"

definition MsgExtend_Marshal :: "(coin \<Rightarrow> bytes res) \<Rightarrow> MsgExtend \<Rightarrow> bytes res" where
  "MsgExtend_Marshal cm m = pb_Marshal (MsgExtend_Size cm m) (MsgExtend_MarshalToSizedBuffer cm m)"

definition MsgExtend_fields :: "(bytes \<Rightarrow> coin \<Rightarrow> coin res) \<Rightarrow> int \<Rightarrow> MsgExtend pb_field" where
  "MsgExtend_fields cu fieldNum =
     (if fieldNum = 1 then PbLen (\<lambda>bs m. Inr (m\<lparr>ex_Address := bs\<rparr>))
      else if fieldNum = 2 then PbLen (\<lambda>bs m.
        bnd (Extension_Unmarshal cu bs) (\<lambda>x. Inr (m\<lparr>Extensions := Extensions m @ [x]\<rparr>)))
      else PbSkip)"

definition zero_MsgExtend :: MsgExtend where
  "zero_MsgExtend = \<lparr>ex_Address = [], Extensions = []\<rparr>"

definition MsgExtend_Unmarshal :: "(bytes \<Rightarrow> coin \<Rightarrow> coin res) \<Rightarrow> bytes \<Rightarrow> MsgExtend res" where
  "MsgExtend_Unmarshal cu dAtA = pb_unmarshal (MsgExtend_fields cu) dAtA zero_MsgExtend"

definition MsgExtend_wire :: "(coin \<Rightarrow> bytes) \<Rightarrow> MsgExtend \<Rightarrow> bytes" where
  "MsgExtend_wire enc m =
     str_field 1 (ex_Address m) @ msgs_field 2 (Extension_wire enc) (Extensions m)"

definition MsgSendDelegateAndLock_Size :: "(coin \<Rightarrow> bytes res) \<Rightarrow> MsgSendDelegateAndLock \<Rightarrow> nat" where
  "MsgSendDelegateAndLock_Size cm m =
     size_str (FromAddress m) + size_str (ToAddress m) + size_str (ValidatorAddress m) +
     size_str (sdl_UnlockDate m) + size_len (foreign_Size (cm (sdl_Amount m)))"

definition MsgSendDelegateAndLock_MarshalToSizedBuffer ::
    "(coin \<Rightarrow> bytes res) \<Rightarrow> MsgSendDelegateAndLock \<Rightarrow> bytes \<Rightarrow> pb_buf res" where
  "MsgSendDelegateAndLock_MarshalToSizedBuffer cm m = sized_buffer (\<lambda>st.
     bnd (put_foreign 42 (cm (sdl_Amount m)) st) (\<lambda>st.
     bnd (put_str 34 (sdl_UnlockDate m) st) (\<lambda>st.
     bnd (put_str 26 (ValidatorAddress m) st) (\<lambda>st.
     bnd (put_str 18 (ToAddress m) st)
         (put_str 10 (FromAddress m))))))"

definition MsgSendDelegateAndLock_Marshal :: "(coin \<Rightarrow> bytes res) \<Rightarrow> MsgSendDelegateAndLock \<Rightarrow> bytes res" where
  "MsgSendDelegateAndLock_Marshal cm m = pb_Marshal (MsgSendDelegateAndLock_Size cm m) (MsgSendDelegateAndLock_MarshalToSizedBuffer cm m)"

definition MsgSendDelegateAndLock_fields :: "(bytes \<Rightarrow> coin \<Rightarrow> coin res) \<Rightarrow> int \<Rightarrow> MsgSendDelegateAndLock pb_field" where
  "MsgSendDelegateAndLock_fields cu fieldNum =
     (if fieldNum = 1 then PbLen (\<lambda>bs m. Inr (m\<lparr>FromAddress := bs\<rparr>))
      else if fieldNum = 2 then PbLen (\<lambda>bs m. Inr (m\<lparr>ToAddress := bs\<rparr>))
      else if fieldNum = 3 then PbLen (\<lambda>bs m. Inr (m\<lparr>ValidatorAddress := bs\<rparr>))
      else if fieldNum = 4 then PbLen (\<lambda>bs m. Inr (m\<lparr>sdl_UnlockDate := bs\<rparr>))
      else if fieldNum = 5 then PbLen (\<lambda>bs m. bnd (cu bs (sdl_Amount m)) (\<lambda>c. Inr (m\<lparr>sdl_Amount := c\<rparr>)))
      else PbSkip)"

definition zero_MsgSendDelegateAndLock :: MsgSendDelegateAndLock where
  "zero_MsgSendDelegateAndLock = \<lparr>FromAddress = [], ToAddress = [], ValidatorAddress = [], sdl_UnlockDate = [],
      sdl_Amount = zero_coin\<rparr>"

definition MsgSendDelegateAndLock_Unmarshal :: "(bytes \<Rightarrow> coin \<Rightarrow> coin res) \<Rightarrow> bytes \<Rightarrow> MsgSendDelegateAndLock res" where
  "MsgSendDelegateAndLock_Unmarshal cu dAtA = pb_unmarshal (MsgSendDelegateAndLock_fields cu) dAtA zero_MsgSendDelegateAndLock"

definition MsgSendDelegateAndLock_wire :: "(coin \<Rightarrow> bytes) \<Rightarrow> MsgSendDelegateAndLock \<Rightarrow> bytes" where
  "MsgSendDelegateAndLock_wire enc m =
     (((str_field 1 (FromAddress m) @ str_field 2 (ToAddress m)) @
     str_field 3 (ValidatorAddress m)) @ str_field 4 (sdl_UnlockDate m)) @
     len_field 5 (enc (sdl_Amount m))"

definition MsgMultiSendDelegateAndLock_Size :: "(coin \<Rightarrow> bytes res) \<Rightarrow> MsgMultiSendDelegateAndLock \<Rightarrow> nat" where
  "MsgMultiSendDelegateAndLock_Size cm m =
     size_str (mu_FromAddress m) + size_len (foreign_Size (cm (TotalAmount m))) +
     size_msgs (MultiOutput_Size cm) (Outputs m)"

definition MsgMultiSendDelegateAndLock_MarshalToSizedBuffer ::
    "(coin \<Rightarrow> bytes res) \<Rightarrow> MsgMultiSendDelegateAndLock \<Rightarrow> bytes \<Rightarrow> pb_buf res" where
  "MsgMultiSendDelegateAndLock_MarshalToSizedBuffer cm m = sized_buffer (\<lambda>st.
     bnd (put_msgs 26 (MultiOutput_MarshalToSizedBuffer cm) (Outputs m) st) (\<lambda>st.
     bnd (put_foreign 18 (cm (TotalAmount m)) st)
         (put_str 10 (mu_FromAddress m))))"

definition MsgMultiSendDelegateAndLock_Marshal :: "(coin \<Rightarrow> bytes res) \<Rightarrow> MsgMultiSendDelegateAndLock \<Rightarrow> bytes res" where
  "MsgMultiSendDelegateAndLock_Marshal cm m = pb_Marshal (MsgMultiSendDelegateAndLock_Size cm m) (MsgMultiSendDelegateAndLock_MarshalToSizedBuffer cm m)"

definition MsgMultiSendDelegateAndLock_fields :: "(bytes \<Rightarrow> coin \<Rightarrow> coin res) \<Rightarrow> int \<Rightarrow> MsgMultiSendDelegateAndLock pb_field" where
  "MsgMultiSendDelegateAndLock_fields cu fieldNum =
     (if fieldNum = 1 then PbLen (\<lambda>bs m. Inr (m\<lparr>mu_FromAddress := bs\<rparr>))
      else if fieldNum = 2 then PbLen (\<lambda>bs m. bnd (cu bs (TotalAmount m)) (\<lambda>c. Inr (m\<lparr>TotalAmount := c\<rparr>)))
      else if fieldNum = 3 then PbLen (\<lambda>bs m.
        bnd (MultiOutput_Unmarshal cu bs) (\<lambda>x. Inr (m\<lparr>Outputs := Outputs m @ [x]\<rparr>)))
      else PbSkip)"

definition zero_MsgMultiSendDelegateAndLock :: MsgMultiSendDelegateAndLock where
  "zero_MsgMultiSendDelegateAndLock = \<lparr>mu_FromAddress = [], TotalAmount = zero_coin, Outputs = []\<rparr>"

definition MsgMultiSendDelegateAndLock_Unmarshal :: "(bytes \<Rightarrow> coin \<Rightarrow> coin res) \<Rightarrow> bytes \<Rightarrow> MsgMultiSendDelegateAndLock res" where
  "MsgMultiSendDelegateAndLock_Unmarshal cu dAtA = pb_unmarshal (MsgMultiSendDelegateAndLock_fields cu) dAtA zero_MsgMultiSendDelegateAndLock"

definition MsgMultiSendDelegateAndLock_wire :: "(coin \<Rightarrow> bytes) \<Rightarrow> MsgMultiSendDelegateAndLock \<Rightarrow> bytes" where
  "MsgMultiSendDelegateAndLock_wire enc m =
     (str_field 1 (mu_FromAddress m) @ len_field 2 (enc (TotalAmount m))) @
     msgs_field 3 (MultiOutput_wire enc) (Outputs m)"

section \<open>Every message type fulfils the contract of a codec\<close>

locale coin_codec = coin: foreign_codec cm cu zero_coin
  for cm :: "coin \<Rightarrow> bytes res" and cu :: "bytes \<Rightarrow> coin \<Rightarrow> coin res"

text \<open>Appending the elements of a repeated field one by one.\<close>

lemma fold_append:
  "fold (\<lambda>x m. m\<lparr>Extensions := Extensions m @ [x]\<rparr>) es m = m\<lparr>Extensions := Extensions m @ es\<rparr>"
  "fold (\<lambda>x n. n\<lparr>Outputs := Outputs n @ [x]\<rparr>) os n = n\<lparr>Outputs := Outputs n @ os\<rparr>"
  by (induction es arbitrary: m, simp_all, induction os arbitrary: n, simp_all)

sublocale coin_codec \<subseteq> extension: pb_message "Extension_Size cm"
  "Extension_MarshalToSizedBuffer cm" "Extension_Unmarshal cu" "Extension_wire (enc_of cm)"
  "\<lambda>m. codable cm (ext_Amount m)"
proof
  fix m :: Extension
  assume ok: "codable cm (ext_Amount m)"
  show "Extension_Size cm m = length (Extension_wire (enc_of cm) m)"
    using ok by (simp add: Extension_Size_def Extension_wire_def)
  show "writes_buf (Extension_MarshalToSizedBuffer cm m) (Extension_wire (enc_of cm) m)"
    unfolding Extension_MarshalToSizedBuffer_def Extension_wire_def
    using ok by (intro wire_intros codable_enc) simp_all
  assume "length (Extension_wire (enc_of cm) m) < 2 ^ 63"
  then show "Extension_Unmarshal cu (Extension_wire (enc_of cm) m) = Inr m"
    unfolding Extension_Unmarshal_def Extension_wire_def
    by (rule unmarshalI)
      (rule reads_rules | simp add: Extension_fields_def zero_Extension_def fold_append ok; fail)+
qed

sublocale coin_codec \<subseteq> multi_output: pb_message "MultiOutput_Size cm"
  "MultiOutput_MarshalToSizedBuffer cm" "MultiOutput_Unmarshal cu" "MultiOutput_wire (enc_of cm)"
  "\<lambda>m. codable cm (out_Amount m)"
proof
  fix m :: MultiOutput
  assume ok: "codable cm (out_Amount m)"
  show "MultiOutput_Size cm m = length (MultiOutput_wire (enc_of cm) m)"
    using ok by (simp add: MultiOutput_Size_def MultiOutput_wire_def)
  show "writes_buf (MultiOutput_MarshalToSizedBuffer cm m) (MultiOutput_wire (enc_of cm) m)"
    unfolding MultiOutput_MarshalToSizedBuffer_def MultiOutput_wire_def
    using ok by (intro wire_intros codable_enc) simp_all
  assume "length (MultiOutput_wire (enc_of cm) m) < 2 ^ 63"
  then show "MultiOutput_Unmarshal cu (MultiOutput_wire (enc_of cm) m) = Inr m"
    unfolding MultiOutput_Unmarshal_def MultiOutput_wire_def
    by (rule unmarshalI)
      (rule reads_rules | simp add: MultiOutput_fields_def zero_MultiOutput_def fold_append ok; fail)+
qed

sublocale coin_codec \<subseteq> msg_lock: pb_message "MsgLock_Size cm"
  "MsgLock_MarshalToSizedBuffer cm" "MsgLock_Unmarshal cu" "MsgLock_wire (enc_of cm)"
  "\<lambda>m. codable cm (lk_Amount m)"
proof
  fix m :: MsgLock
  assume ok: "codable cm (lk_Amount m)"
  show "MsgLock_Size cm m = length (MsgLock_wire (enc_of cm) m)"
    using ok by (simp add: MsgLock_Size_def MsgLock_wire_def)
  show "writes_buf (MsgLock_MarshalToSizedBuffer cm m) (MsgLock_wire (enc_of cm) m)"
    unfolding MsgLock_MarshalToSizedBuffer_def MsgLock_wire_def
    using ok by (intro wire_intros codable_enc) simp_all
  assume "length (MsgLock_wire (enc_of cm) m) < 2 ^ 63"
  then show "MsgLock_Unmarshal cu (MsgLock_wire (enc_of cm) m) = Inr m"
    unfolding MsgLock_Unmarshal_def MsgLock_wire_def
    by (rule unmarshalI)
      (rule reads_rules | simp add: MsgLock_fields_def zero_MsgLock_def fold_append ok; fail)+
qed

sublocale coin_codec \<subseteq> msg_extend: pb_message "MsgExtend_Size cm"
  "MsgExtend_MarshalToSizedBuffer cm" "MsgExtend_Unmarshal cu" "MsgExtend_wire (enc_of cm)"
  "\<lambda>m. \<forall>e \<in> set (Extensions m). codable cm (ext_Amount e)"
proof
  fix m :: MsgExtend
  assume ok: "\<forall>e \<in> set (Extensions m). codable cm (ext_Amount e)"
  show "MsgExtend_Size cm m = length (MsgExtend_wire (enc_of cm) m)"
    using ok by (simp add: MsgExtend_Size_def MsgExtend_wire_def extension.size_wire)
  show "writes_buf (MsgExtend_MarshalToSizedBuffer cm m) (MsgExtend_wire (enc_of cm) m)"
    unfolding MsgExtend_MarshalToSizedBuffer_def MsgExtend_wire_def
    using ok by (intro wire_intros codable_enc extension.marshal_wire) simp_all
  assume "length (MsgExtend_wire (enc_of cm) m) < 2 ^ 63"
  then show "MsgExtend_Unmarshal cu (MsgExtend_wire (enc_of cm) m) = Inr m"
    unfolding MsgExtend_Unmarshal_def MsgExtend_wire_def
    by (rule unmarshalI)
      (rule reads_rules extension.unmarshal_wire | simp add: MsgExtend_fields_def zero_MsgExtend_def fold_append ok; fail)+
qed

sublocale coin_codec \<subseteq> msg_send: pb_message "MsgSendDelegateAndLock_Size cm"
  "MsgSendDelegateAndLock_MarshalToSizedBuffer cm" "MsgSendDelegateAndLock_Unmarshal cu" "MsgSendDelegateAndLock_wire (enc_of cm)"
  "\<lambda>m. codable cm (sdl_Amount m)"
proof
  fix m :: MsgSendDelegateAndLock
  assume ok: "codable cm (sdl_Amount m)"
  show "MsgSendDelegateAndLock_Size cm m = length (MsgSendDelegateAndLock_wire (enc_of cm) m)"
    using ok by (simp add: MsgSendDelegateAndLock_Size_def MsgSendDelegateAndLock_wire_def)
  show "writes_buf (MsgSendDelegateAndLock_MarshalToSizedBuffer cm m) (MsgSendDelegateAndLock_wire (enc_of cm) m)"
    unfolding MsgSendDelegateAndLock_MarshalToSizedBuffer_def MsgSendDelegateAndLock_wire_def
    using ok by (intro wire_intros codable_enc) simp_all
  assume "length (MsgSendDelegateAndLock_wire (enc_of cm) m) < 2 ^ 63"
  then show "MsgSendDelegateAndLock_Unmarshal cu (MsgSendDelegateAndLock_wire (enc_of cm) m) = Inr m"
    unfolding MsgSendDelegateAndLock_Unmarshal_def MsgSendDelegateAndLock_wire_def
    by (rule unmarshalI)
      (rule reads_rules | simp add: MsgSendDelegateAndLock_fields_def zero_MsgSendDelegateAndLock_def fold_append ok; fail)+
qed

sublocale coin_codec \<subseteq> msg_multi: pb_message "MsgMultiSendDelegateAndLock_Size cm"
  "MsgMultiSendDelegateAndLock_MarshalToSizedBuffer cm" "MsgMultiSendDelegateAndLock_Unmarshal cu" "MsgMultiSendDelegateAndLock_wire (enc_of cm)"
  "\<lambda>m. codable cm (TotalAmount m) \<and> (\<forall>e \<in> set (Outputs m). codable cm (out_Amount e))"
proof
  fix m :: MsgMultiSendDelegateAndLock
  assume ok: "codable cm (TotalAmount m) \<and> (\<forall>e \<in> set (Outputs m). codable cm (out_Amount e))"
  show "MsgMultiSendDelegateAndLock_Size cm m = length (MsgMultiSendDelegateAndLock_wire (enc_of cm) m)"
    using ok by (simp add: MsgMultiSendDelegateAndLock_Size_def MsgMultiSendDelegateAndLock_wire_def multi_output.size_wire)
  show "writes_buf (MsgMultiSendDelegateAndLock_MarshalToSizedBuffer cm m) (MsgMultiSendDelegateAndLock_wire (enc_of cm) m)"
    unfolding MsgMultiSendDelegateAndLock_MarshalToSizedBuffer_def MsgMultiSendDelegateAndLock_wire_def
    using ok by (intro wire_intros codable_enc multi_output.marshal_wire) simp_all
  assume "length (MsgMultiSendDelegateAndLock_wire (enc_of cm) m) < 2 ^ 63"
  then show "MsgMultiSendDelegateAndLock_Unmarshal cu (MsgMultiSendDelegateAndLock_wire (enc_of cm) m) = Inr m"
    unfolding MsgMultiSendDelegateAndLock_Unmarshal_def MsgMultiSendDelegateAndLock_wire_def
    by (rule unmarshalI)
      (rule reads_rules multi_output.unmarshal_wire | simp add: MsgMultiSendDelegateAndLock_fields_def zero_MsgMultiSendDelegateAndLock_def fold_append ok; fail)+
qed

context coin_codec
begin

lemmas message_roundtrips =
  msg_lock.codec_roundtrip [folded MsgLock_Marshal_def]
  msg_extend.codec_roundtrip [folded MsgExtend_Marshal_def]
  msg_send.codec_roundtrip [folded MsgSendDelegateAndLock_Marshal_def]
  msg_multi.codec_roundtrip [folded MsgMultiSendDelegateAndLock_Marshal_def]

lemmas message_injective =
  msg_lock.codec_injective [folded MsgLock_Marshal_def]
  msg_extend.codec_injective [folded MsgExtend_Marshal_def]
  msg_send.codec_injective [folded MsgSendDelegateAndLock_Marshal_def]
  msg_multi.codec_injective [folded MsgMultiSendDelegateAndLock_Marshal_def]

end

end
