(* ===== verification/Query_Codec.thy ===== *)
theory Query_Codec
  imports Msg_Codec Lock_Query
begin

text \<open>
  The wire format of the lockup queries, their requests, resources and responses: the generated
  \<open>Size\<close>, \<open>MarshalToSizedBuffer\<close> and \<open>Unmarshal\<close> of \<open>x/lockup/types/query.pb.go\<close>. Coins and the page
  types of the SDK are foreign. The request of the total amount has no fields and is left out.
\<close>

definition zero_PageRequest :: PageRequest where
  "zero_PageRequest = \<lparr>page_Key = [], page_Offset = 0, page_Limit = 0, page_CountTotal = False,
     page_Reverse = False\<rparr>"

definition zero_PageResponse :: PageResponse where
  "zero_PageResponse = \<lparr>NextKey = [], page_Total = 0\<rparr>"

section \<open>Resources\<close>

definition ActiveLockResource_Size :: "(coin \<Rightarrow> bytes res) \<Rightarrow> ActiveLockResource \<Rightarrow> nat" where
  "ActiveLockResource_Size cm m =
     size_str (ar_Address m) + size_str (ar_UnlockDate m) +
     size_len (foreign_Size (cm (ar_Amount m)))"

definition ActiveLockResource_MarshalToSizedBuffer ::
    "(coin \<Rightarrow> bytes res) \<Rightarrow> ActiveLockResource \<Rightarrow> bytes \<Rightarrow> pb_buf res" where
  "ActiveLockResource_MarshalToSizedBuffer cm m = sized_buffer (\<lambda>st.
     bnd (put_foreign 26 (cm (ar_Amount m)) st) (\<lambda>st.
     bnd (put_str 18 (ar_UnlockDate m) st)
         (put_str 10 (ar_Address m))))"

definition ActiveLockResource_Marshal :: "(coin \<Rightarrow> bytes res) \<Rightarrow> ActiveLockResource \<Rightarrow> bytes res" where
  "ActiveLockResource_Marshal cm m = pb_Marshal (ActiveLockResource_Size cm m) (ActiveLockResource_MarshalToSizedBuffer cm m)"

definition ActiveLockResource_fields :: "(bytes \<Rightarrow> coin \<Rightarrow> coin res) \<Rightarrow> int \<Rightarrow> ActiveLockResource pb_field" where
  "ActiveLockResource_fields cu fieldNum =
     (if fieldNum = 1 then PbLen (\<lambda>bs m. Inr (m\<lparr>ar_Address := bs\<rparr>))
      else if fieldNum = 2 then PbLen (\<lambda>bs m. Inr (m\<lparr>ar_UnlockDate := bs\<rparr>))
      else if fieldNum = 3 then PbLen (\<lambda>bs m. bnd (cu bs (ar_Amount m)) (\<lambda>c. Inr (m\<lparr>ar_Amount := c\<rparr>)))
      else PbSkip)"

definition zero_ActiveLockResource :: ActiveLockResource where
  "zero_ActiveLockResource = \<lparr>ar_Address = [], ar_UnlockDate = [], ar_Amount = zero_coin\<rparr>"

definition ActiveLockResource_Unmarshal :: "(bytes \<Rightarrow> coin \<Rightarrow> coin res) \<Rightarrow> bytes \<Rightarrow> ActiveLockResource res" where
  "ActiveLockResource_Unmarshal cu dAtA = pb_unmarshal (ActiveLockResource_fields cu) dAtA zero_ActiveLockResource"

definition ActiveLockResource_wire :: "(coin \<Rightarrow> bytes) \<Rightarrow> ActiveLockResource \<Rightarrow> bytes" where
  "ActiveLockResource_wire cenc m =
     (str_field 1 (ar_Address m) @ str_field 2 (ar_UnlockDate m)) @
     len_field 3 (cenc (ar_Amount m))"

definition LockResource_Size :: "(coin \<Rightarrow> bytes res) \<Rightarrow> LockResource \<Rightarrow> nat" where
  "LockResource_Size cm m =
     size_str (lr_UnlockDate m) + size_len (foreign_Size (cm (lr_Amount m)))"

definition LockResource_MarshalToSizedBuffer ::
    "(coin \<Rightarrow> bytes res) \<Rightarrow> LockResource \<Rightarrow> bytes \<Rightarrow> pb_buf res" where
  "LockResource_MarshalToSizedBuffer cm m = sized_buffer (\<lambda>st.
     bnd (put_foreign 26 (cm (lr_Amount m)) st)
         (put_str 10 (lr_UnlockDate m)))"

definition LockResource_Marshal :: "(coin \<Rightarrow> bytes res) \<Rightarrow> LockResource \<Rightarrow> bytes res" where
  "LockResource_Marshal cm m = pb_Marshal (LockResource_Size cm m) (LockResource_MarshalToSizedBuffer cm m)"

definition LockResource_fields :: "(bytes \<Rightarrow> coin \<Rightarrow> coin res) \<Rightarrow> int \<Rightarrow> LockResource pb_field" where
  "LockResource_fields cu fieldNum =
     (if fieldNum = 1 then PbLen (\<lambda>bs m. Inr (m\<lparr>lr_UnlockDate := bs\<rparr>))
      else if fieldNum = 3 then PbLen (\<lambda>bs m. bnd (cu bs (lr_Amount m)) (\<lambda>c. Inr (m\<lparr>lr_Amount := c\<rparr>)))
      else PbSkip)"

definition zero_LockResource :: LockResource where
  "zero_LockResource = \<lparr>lr_UnlockDate = [], lr_Amount = zero_coin\<rparr>"

definition LockResource_Unmarshal :: "(bytes \<Rightarrow> coin \<Rightarrow> coin res) \<Rightarrow> bytes \<Rightarrow> LockResource res" where
  "LockResource_Unmarshal cu dAtA = pb_unmarshal (LockResource_fields cu) dAtA zero_LockResource"

definition LockResource_wire :: "(coin \<Rightarrow> bytes) \<Rightarrow> LockResource \<Rightarrow> bytes" where
  "LockResource_wire cenc m =
     str_field 1 (lr_UnlockDate m) @ len_field 3 (cenc (lr_Amount m))"

definition AccountLocksResource_Size :: "(coin \<Rightarrow> bytes res) \<Rightarrow> AccountLocksResource \<Rightarrow> nat" where
  "AccountLocksResource_Size cm m =
     size_str (acc_Address m) + size_msgs (LockResource_Size cm) (acc_Locks m)"

definition AccountLocksResource_MarshalToSizedBuffer ::
    "(coin \<Rightarrow> bytes res) \<Rightarrow> AccountLocksResource \<Rightarrow> bytes \<Rightarrow> pb_buf res" where
  "AccountLocksResource_MarshalToSizedBuffer cm m = sized_buffer (\<lambda>st.
     bnd (put_msgs 18 (LockResource_MarshalToSizedBuffer cm) (acc_Locks m) st)
         (put_str 10 (acc_Address m)))"

definition AccountLocksResource_Marshal :: "(coin \<Rightarrow> bytes res) \<Rightarrow> AccountLocksResource \<Rightarrow> bytes res" where
  "AccountLocksResource_Marshal cm m = pb_Marshal (AccountLocksResource_Size cm m) (AccountLocksResource_MarshalToSizedBuffer cm m)"

definition AccountLocksResource_fields :: "(bytes \<Rightarrow> coin \<Rightarrow> coin res) \<Rightarrow> int \<Rightarrow> AccountLocksResource pb_field" where
  "AccountLocksResource_fields cu fieldNum =
     (if fieldNum = 1 then PbLen (\<lambda>bs m. Inr (m\<lparr>acc_Address := bs\<rparr>))
      else if fieldNum = 2 then PbLen (\<lambda>bs m.
        bnd (LockResource_Unmarshal cu bs) (\<lambda>x. Inr (m\<lparr>acc_Locks := acc_Locks m @ [x]\<rparr>)))
      else PbSkip)"

definition zero_AccountLocksResource :: AccountLocksResource where
  "zero_AccountLocksResource = \<lparr>acc_Address = [], acc_Locks = []\<rparr>"

definition AccountLocksResource_Unmarshal :: "(bytes \<Rightarrow> coin \<Rightarrow> coin res) \<Rightarrow> bytes \<Rightarrow> AccountLocksResource res" where
  "AccountLocksResource_Unmarshal cu dAtA = pb_unmarshal (AccountLocksResource_fields cu) dAtA zero_AccountLocksResource"

definition AccountLocksResource_wire :: "(coin \<Rightarrow> bytes) \<Rightarrow> AccountLocksResource \<Rightarrow> bytes" where
  "AccountLocksResource_wire cenc m =
     str_field 1 (acc_Address m) @ msgs_field 2 (LockResource_wire cenc) (acc_Locks m)"

section \<open>Requests\<close>

definition QueryActiveLocksRequest_Size :: "(PageRequest \<Rightarrow> bytes res) \<Rightarrow> QueryActiveLocksRequest \<Rightarrow> nat" where
  "QueryActiveLocksRequest_Size qm m =
     size_opt (\<lambda>p. foreign_Size (qm p)) (al_Pagination m)"

definition QueryActiveLocksRequest_MarshalToSizedBuffer ::
    "(PageRequest \<Rightarrow> bytes res) \<Rightarrow> QueryActiveLocksRequest \<Rightarrow> bytes \<Rightarrow> pb_buf res" where
  "QueryActiveLocksRequest_MarshalToSizedBuffer qm m = sized_buffer (put_opt (\<lambda>p. put_foreign 10 (qm p)) (al_Pagination m))"

definition QueryActiveLocksRequest_Marshal :: "(PageRequest \<Rightarrow> bytes res) \<Rightarrow> QueryActiveLocksRequest \<Rightarrow> bytes res" where
  "QueryActiveLocksRequest_Marshal qm m = pb_Marshal (QueryActiveLocksRequest_Size qm m) (QueryActiveLocksRequest_MarshalToSizedBuffer qm m)"

definition QueryActiveLocksRequest_fields :: "(bytes \<Rightarrow> PageRequest \<Rightarrow> PageRequest res) \<Rightarrow> int \<Rightarrow> QueryActiveLocksRequest pb_field" where
  "QueryActiveLocksRequest_fields qu fieldNum =
     (if fieldNum = 1 then PbLen (\<lambda>bs m.
        bnd (qu bs (case al_Pagination m of None \<Rightarrow> zero_PageRequest | Some p \<Rightarrow> p)) (\<lambda>p.
        Inr (m\<lparr>al_Pagination := Some p\<rparr>)))
      else PbSkip)"

definition zero_QueryActiveLocksRequest :: QueryActiveLocksRequest where
  "zero_QueryActiveLocksRequest = \<lparr>al_Pagination = None\<rparr>"

definition QueryActiveLocksRequest_Unmarshal :: "(bytes \<Rightarrow> PageRequest \<Rightarrow> PageRequest res) \<Rightarrow> bytes \<Rightarrow> QueryActiveLocksRequest res" where
  "QueryActiveLocksRequest_Unmarshal qu dAtA = pb_unmarshal (QueryActiveLocksRequest_fields qu) dAtA zero_QueryActiveLocksRequest"

definition QueryActiveLocksRequest_wire :: "(PageRequest \<Rightarrow> bytes) \<Rightarrow> QueryActiveLocksRequest \<Rightarrow> bytes" where
  "QueryActiveLocksRequest_wire qenc m =
     opt_field 1 qenc (al_Pagination m)"

definition QueryAccountLocksRequest_Size :: "(PageRequest \<Rightarrow> bytes res) \<Rightarrow> QueryAccountLocksRequest \<Rightarrow> nat" where
  "QueryAccountLocksRequest_Size qm m =
     size_str (Addresses m) + size_opt (\<lambda>p. foreign_Size (qm p)) (acc_Pagination m)"

definition QueryAccountLocksRequest_MarshalToSizedBuffer ::
    "(PageRequest \<Rightarrow> bytes res) \<Rightarrow> QueryAccountLocksRequest \<Rightarrow> bytes \<Rightarrow> pb_buf res" where
  "QueryAccountLocksRequest_MarshalToSizedBuffer qm m = sized_buffer (\<lambda>st.
     bnd (put_opt (\<lambda>p. put_foreign 18 (qm p)) (acc_Pagination m) st)
         (put_str 10 (Addresses m)))"

definition QueryAccountLocksRequest_Marshal :: "(PageRequest \<Rightarrow> bytes res) \<Rightarrow> QueryAccountLocksRequest \<Rightarrow> bytes res" where
  "QueryAccountLocksRequest_Marshal qm m = pb_Marshal (QueryAccountLocksRequest_Size qm m) (QueryAccountLocksRequest_MarshalToSizedBuffer qm m)"

definition QueryAccountLocksRequest_fields :: "(bytes \<Rightarrow> PageRequest \<Rightarrow> PageRequest res) \<Rightarrow> int \<Rightarrow> QueryAccountLocksRequest pb_field" where
  "QueryAccountLocksRequest_fields qu fieldNum =
     (if fieldNum = 1 then PbLen (\<lambda>bs m. Inr (m\<lparr>Addresses := bs\<rparr>))
      else if fieldNum = 2 then PbLen (\<lambda>bs m.
        bnd (qu bs (case acc_Pagination m of None \<Rightarrow> zero_PageRequest | Some p \<Rightarrow> p)) (\<lambda>p.
        Inr (m\<lparr>acc_Pagination := Some p\<rparr>)))
      else PbSkip)"

definition zero_QueryAccountLocksRequest :: QueryAccountLocksRequest where
  "zero_QueryAccountLocksRequest = \<lparr>Addresses = [], acc_Pagination = None\<rparr>"

definition QueryAccountLocksRequest_Unmarshal :: "(bytes \<Rightarrow> PageRequest \<Rightarrow> PageRequest res) \<Rightarrow> bytes \<Rightarrow> QueryAccountLocksRequest res" where
  "QueryAccountLocksRequest_Unmarshal qu dAtA = pb_unmarshal (QueryAccountLocksRequest_fields qu) dAtA zero_QueryAccountLocksRequest"

definition QueryAccountLocksRequest_wire :: "(PageRequest \<Rightarrow> bytes) \<Rightarrow> QueryAccountLocksRequest \<Rightarrow> bytes" where
  "QueryAccountLocksRequest_wire qenc m =
     str_field 1 (Addresses m) @ opt_field 2 qenc (acc_Pagination m)"

definition QueryLocksRequest_Size :: "(PageRequest \<Rightarrow> bytes res) \<Rightarrow> QueryLocksRequest \<Rightarrow> nat" where
  "QueryLocksRequest_Size qm m =
     size_str (ql_Address m) + size_opt (\<lambda>p. foreign_Size (qm p)) (ql_Pagination m)"

definition QueryLocksRequest_MarshalToSizedBuffer ::
    "(PageRequest \<Rightarrow> bytes res) \<Rightarrow> QueryLocksRequest \<Rightarrow> bytes \<Rightarrow> pb_buf res" where
  "QueryLocksRequest_MarshalToSizedBuffer qm m = sized_buffer (\<lambda>st.
     bnd (put_opt (\<lambda>p. put_foreign 18 (qm p)) (ql_Pagination m) st)
         (put_str 10 (ql_Address m)))"

definition QueryLocksRequest_Marshal :: "(PageRequest \<Rightarrow> bytes res) \<Rightarrow> QueryLocksRequest \<Rightarrow> bytes res" where
  "QueryLocksRequest_Marshal qm m = pb_Marshal (QueryLocksRequest_Size qm m) (QueryLocksRequest_MarshalToSizedBuffer qm m)"

definition QueryLocksRequest_fields :: "(bytes \<Rightarrow> PageRequest \<Rightarrow> PageRequest res) \<Rightarrow> int \<Rightarrow> QueryLocksRequest pb_field" where
  "QueryLocksRequest_fields qu fieldNum =
     (if fieldNum = 1 then PbLen (\<lambda>bs m. Inr (m\<lparr>ql_Address := bs\<rparr>))
      else if fieldNum = 2 then PbLen (\<lambda>bs m.
        bnd (qu bs (case ql_Pagination m of None \<Rightarrow> zero_PageRequest | Some p \<Rightarrow> p)) (\<lambda>p.
        Inr (m\<lparr>ql_Pagination := Some p\<rparr>)))
      else PbSkip)"

definition zero_QueryLocksRequest :: QueryLocksRequest where
  "zero_QueryLocksRequest = \<lparr>ql_Address = [], ql_Pagination = None\<rparr>"

definition QueryLocksRequest_Unmarshal :: "(bytes \<Rightarrow> PageRequest \<Rightarrow> PageRequest res) \<Rightarrow> bytes \<Rightarrow> QueryLocksRequest res" where
  "QueryLocksRequest_Unmarshal qu dAtA = pb_unmarshal (QueryLocksRequest_fields qu) dAtA zero_QueryLocksRequest"

definition QueryLocksRequest_wire :: "(PageRequest \<Rightarrow> bytes) \<Rightarrow> QueryLocksRequest \<Rightarrow> bytes" where
  "QueryLocksRequest_wire qenc m =
     str_field 1 (ql_Address m) @ opt_field 2 qenc (ql_Pagination m)"

section \<open>Responses\<close>

definition QueryActiveLocksResponse_Size :: "(coin \<Rightarrow> bytes res) \<Rightarrow> (PageResponse \<Rightarrow> bytes res) \<Rightarrow> QueryActiveLocksResponse \<Rightarrow> nat" where
  "QueryActiveLocksResponse_Size cm rm m =
     size_msgs (ActiveLockResource_Size cm) (qar_Locks m) +
     size_opt (\<lambda>p. foreign_Size (rm p)) (qar_Pagination m)"

definition QueryActiveLocksResponse_MarshalToSizedBuffer ::
    "(coin \<Rightarrow> bytes res) \<Rightarrow> (PageResponse \<Rightarrow> bytes res) \<Rightarrow> QueryActiveLocksResponse \<Rightarrow> bytes \<Rightarrow> pb_buf res" where
  "QueryActiveLocksResponse_MarshalToSizedBuffer cm rm m = sized_buffer (\<lambda>st.
     bnd (put_opt (\<lambda>p. put_foreign 18 (rm p)) (qar_Pagination m) st)
         (put_msgs 10 (ActiveLockResource_MarshalToSizedBuffer cm) (qar_Locks m)))"

definition QueryActiveLocksResponse_Marshal :: "(coin \<Rightarrow> bytes res) \<Rightarrow> (PageResponse \<Rightarrow> bytes res) \<Rightarrow> QueryActiveLocksResponse \<Rightarrow> bytes res" where
  "QueryActiveLocksResponse_Marshal cm rm m = pb_Marshal (QueryActiveLocksResponse_Size cm rm m) (QueryActiveLocksResponse_MarshalToSizedBuffer cm rm m)"

definition QueryActiveLocksResponse_fields :: "(bytes \<Rightarrow> coin \<Rightarrow> coin res) \<Rightarrow> (bytes \<Rightarrow> PageResponse \<Rightarrow> PageResponse res) \<Rightarrow> int \<Rightarrow> QueryActiveLocksResponse pb_field" where
  "QueryActiveLocksResponse_fields cu ru fieldNum =
     (if fieldNum = 1 then PbLen (\<lambda>bs m.
        bnd (ActiveLockResource_Unmarshal cu bs) (\<lambda>x. Inr (m\<lparr>qar_Locks := qar_Locks m @ [x]\<rparr>)))
      else if fieldNum = 2 then PbLen (\<lambda>bs m.
        bnd (ru bs (case qar_Pagination m of None \<Rightarrow> zero_PageResponse | Some p \<Rightarrow> p)) (\<lambda>p.
        Inr (m\<lparr>qar_Pagination := Some p\<rparr>)))
      else PbSkip)"

definition zero_QueryActiveLocksResponse :: QueryActiveLocksResponse where
  "zero_QueryActiveLocksResponse = \<lparr>qar_Locks = [], qar_Pagination = None\<rparr>"

definition QueryActiveLocksResponse_Unmarshal :: "(bytes \<Rightarrow> coin \<Rightarrow> coin res) \<Rightarrow> (bytes \<Rightarrow> PageResponse \<Rightarrow> PageResponse res) \<Rightarrow> bytes \<Rightarrow> QueryActiveLocksResponse res" where
  "QueryActiveLocksResponse_Unmarshal cu ru dAtA = pb_unmarshal (QueryActiveLocksResponse_fields cu ru) dAtA zero_QueryActiveLocksResponse"

definition QueryActiveLocksResponse_wire :: "(coin \<Rightarrow> bytes) \<Rightarrow> (PageResponse \<Rightarrow> bytes) \<Rightarrow> QueryActiveLocksResponse \<Rightarrow> bytes" where
  "QueryActiveLocksResponse_wire cenc renc m =
     msgs_field 1 (ActiveLockResource_wire cenc) (qar_Locks m) @
     opt_field 2 renc (qar_Pagination m)"

definition QueryTotalLockedAmountResponse_Size :: "(coin \<Rightarrow> bytes res) \<Rightarrow> QueryTotalLockedAmountResponse \<Rightarrow> nat" where
  "QueryTotalLockedAmountResponse_Size cm m =
     size_len (foreign_Size (cm (TotalLocked m)))"

definition QueryTotalLockedAmountResponse_MarshalToSizedBuffer ::
    "(coin \<Rightarrow> bytes res) \<Rightarrow> QueryTotalLockedAmountResponse \<Rightarrow> bytes \<Rightarrow> pb_buf res" where
  "QueryTotalLockedAmountResponse_MarshalToSizedBuffer cm m = sized_buffer (put_foreign 10 (cm (TotalLocked m)))"

definition QueryTotalLockedAmountResponse_Marshal :: "(coin \<Rightarrow> bytes res) \<Rightarrow> QueryTotalLockedAmountResponse \<Rightarrow> bytes res" where
  "QueryTotalLockedAmountResponse_Marshal cm m = pb_Marshal (QueryTotalLockedAmountResponse_Size cm m) (QueryTotalLockedAmountResponse_MarshalToSizedBuffer cm m)"

definition QueryTotalLockedAmountResponse_fields :: "(bytes \<Rightarrow> coin \<Rightarrow> coin res) \<Rightarrow> int \<Rightarrow> QueryTotalLockedAmountResponse pb_field" where
  "QueryTotalLockedAmountResponse_fields cu fieldNum =
     (if fieldNum = 1 then PbLen (\<lambda>bs m. bnd (cu bs (TotalLocked m)) (\<lambda>c. Inr (m\<lparr>TotalLocked := c\<rparr>)))
      else PbSkip)"

definition zero_QueryTotalLockedAmountResponse :: QueryTotalLockedAmountResponse where
  "zero_QueryTotalLockedAmountResponse = \<lparr>TotalLocked = zero_coin\<rparr>"

definition QueryTotalLockedAmountResponse_Unmarshal :: "(bytes \<Rightarrow> coin \<Rightarrow> coin res) \<Rightarrow> bytes \<Rightarrow> QueryTotalLockedAmountResponse res" where
  "QueryTotalLockedAmountResponse_Unmarshal cu dAtA = pb_unmarshal (QueryTotalLockedAmountResponse_fields cu) dAtA zero_QueryTotalLockedAmountResponse"

definition QueryTotalLockedAmountResponse_wire :: "(coin \<Rightarrow> bytes) \<Rightarrow> QueryTotalLockedAmountResponse \<Rightarrow> bytes" where
  "QueryTotalLockedAmountResponse_wire cenc m =
     len_field 1 (cenc (TotalLocked m))"

definition QueryAccountLocksResponse_Size :: "(coin \<Rightarrow> bytes res) \<Rightarrow> (PageResponse \<Rightarrow> bytes res) \<Rightarrow> QueryAccountLocksResponse \<Rightarrow> nat" where
  "QueryAccountLocksResponse_Size cm rm m =
     size_msgs (AccountLocksResource_Size cm) (Accounts m) +
     size_opt (\<lambda>p. foreign_Size (rm p)) (qac_Pagination m)"

definition QueryAccountLocksResponse_MarshalToSizedBuffer ::
    "(coin \<Rightarrow> bytes res) \<Rightarrow> (PageResponse \<Rightarrow> bytes res) \<Rightarrow> QueryAccountLocksResponse \<Rightarrow> bytes \<Rightarrow> pb_buf res" where
  "QueryAccountLocksResponse_MarshalToSizedBuffer cm rm m = sized_buffer (\<lambda>st.
     bnd (put_opt (\<lambda>p. put_foreign 18 (rm p)) (qac_Pagination m) st)
         (put_msgs 10 (AccountLocksResource_MarshalToSizedBuffer cm) (Accounts m)))"

definition QueryAccountLocksResponse_Marshal :: "(coin \<Rightarrow> bytes res) \<Rightarrow> (PageResponse \<Rightarrow> bytes res) \<Rightarrow> QueryAccountLocksResponse \<Rightarrow> bytes res" where
  "QueryAccountLocksResponse_Marshal cm rm m = pb_Marshal (QueryAccountLocksResponse_Size cm rm m) (QueryAccountLocksResponse_MarshalToSizedBuffer cm rm m)"

definition QueryAccountLocksResponse_fields :: "(bytes \<Rightarrow> coin \<Rightarrow> coin res) \<Rightarrow> (bytes \<Rightarrow> PageResponse \<Rightarrow> PageResponse res) \<Rightarrow> int \<Rightarrow> QueryAccountLocksResponse pb_field" where
  "QueryAccountLocksResponse_fields cu ru fieldNum =
     (if fieldNum = 1 then PbLen (\<lambda>bs m.
        bnd (AccountLocksResource_Unmarshal cu bs) (\<lambda>x. Inr (m\<lparr>Accounts := Accounts m @ [x]\<rparr>)))
      else if fieldNum = 2 then PbLen (\<lambda>bs m.
        bnd (ru bs (case qac_Pagination m of None \<Rightarrow> zero_PageResponse | Some p \<Rightarrow> p)) (\<lambda>p.
        Inr (m\<lparr>qac_Pagination := Some p\<rparr>)))
      else PbSkip)"

definition zero_QueryAccountLocksResponse :: QueryAccountLocksResponse where
  "zero_QueryAccountLocksResponse = \<lparr>Accounts = [], qac_Pagination = None\<rparr>"

definition QueryAccountLocksResponse_Unmarshal :: "(bytes \<Rightarrow> coin \<Rightarrow> coin res) \<Rightarrow> (bytes \<Rightarrow> PageResponse \<Rightarrow> PageResponse res) \<Rightarrow> bytes \<Rightarrow> QueryAccountLocksResponse res" where
  "QueryAccountLocksResponse_Unmarshal cu ru dAtA = pb_unmarshal (QueryAccountLocksResponse_fields cu ru) dAtA zero_QueryAccountLocksResponse"

definition QueryAccountLocksResponse_wire :: "(coin \<Rightarrow> bytes) \<Rightarrow> (PageResponse \<Rightarrow> bytes) \<Rightarrow> QueryAccountLocksResponse \<Rightarrow> bytes" where
  "QueryAccountLocksResponse_wire cenc renc m =
     msgs_field 1 (AccountLocksResource_wire cenc) (Accounts m) @
     opt_field 2 renc (qac_Pagination m)"

definition QueryLocksResponse_Size :: "(coin \<Rightarrow> bytes res) \<Rightarrow> (PageResponse \<Rightarrow> bytes res) \<Rightarrow> QueryLocksResponse \<Rightarrow> nat" where
  "QueryLocksResponse_Size cm rm m =
     size_msgs (LockResource_Size cm) (qlr_Locks m) +
     size_opt (\<lambda>p. foreign_Size (rm p)) (qlr_Pagination m)"

definition QueryLocksResponse_MarshalToSizedBuffer ::
    "(coin \<Rightarrow> bytes res) \<Rightarrow> (PageResponse \<Rightarrow> bytes res) \<Rightarrow> QueryLocksResponse \<Rightarrow> bytes \<Rightarrow> pb_buf res" where
  "QueryLocksResponse_MarshalToSizedBuffer cm rm m = sized_buffer (\<lambda>st.
     bnd (put_opt (\<lambda>p. put_foreign 18 (rm p)) (qlr_Pagination m) st)
         (put_msgs 10 (LockResource_MarshalToSizedBuffer cm) (qlr_Locks m)))"

definition QueryLocksResponse_Marshal :: "(coin \<Rightarrow> bytes res) \<Rightarrow> (PageResponse \<Rightarrow> bytes res) \<Rightarrow> QueryLocksResponse \<Rightarrow> bytes res" where
  "QueryLocksResponse_Marshal cm rm m = pb_Marshal (QueryLocksResponse_Size cm rm m) (QueryLocksResponse_MarshalToSizedBuffer cm rm m)"

definition QueryLocksResponse_fields :: "(bytes \<Rightarrow> coin \<Rightarrow> coin res) \<Rightarrow> (bytes \<Rightarrow> PageResponse \<Rightarrow> PageResponse res) \<Rightarrow> int \<Rightarrow> QueryLocksResponse pb_field" where
  "QueryLocksResponse_fields cu ru fieldNum =
     (if fieldNum = 1 then PbLen (\<lambda>bs m.
        bnd (LockResource_Unmarshal cu bs) (\<lambda>x. Inr (m\<lparr>qlr_Locks := qlr_Locks m @ [x]\<rparr>)))
      else if fieldNum = 2 then PbLen (\<lambda>bs m.
        bnd (ru bs (case qlr_Pagination m of None \<Rightarrow> zero_PageResponse | Some p \<Rightarrow> p)) (\<lambda>p.
        Inr (m\<lparr>qlr_Pagination := Some p\<rparr>)))
      else PbSkip)"

definition zero_QueryLocksResponse :: QueryLocksResponse where
  "zero_QueryLocksResponse = \<lparr>qlr_Locks = [], qlr_Pagination = None\<rparr>"

definition QueryLocksResponse_Unmarshal :: "(bytes \<Rightarrow> coin \<Rightarrow> coin res) \<Rightarrow> (bytes \<Rightarrow> PageResponse \<Rightarrow> PageResponse res) \<Rightarrow> bytes \<Rightarrow> QueryLocksResponse res" where
  "QueryLocksResponse_Unmarshal cu ru dAtA = pb_unmarshal (QueryLocksResponse_fields cu ru) dAtA zero_QueryLocksResponse"

definition QueryLocksResponse_wire :: "(coin \<Rightarrow> bytes) \<Rightarrow> (PageResponse \<Rightarrow> bytes) \<Rightarrow> QueryLocksResponse \<Rightarrow> bytes" where
  "QueryLocksResponse_wire cenc renc m =
     msgs_field 1 (LockResource_wire cenc) (qlr_Locks m) @
     opt_field 2 renc (qlr_Pagination m)"

section \<open>Every type fulfils the contract of a codec\<close>

locale query_codec = coin_codec cm cu + request: foreign_codec qm qu zero_PageRequest +
    response: foreign_codec rm ru zero_PageResponse
  for cm cu qm qu rm ru

lemma fold_appends:
  "fold (\<lambda>x m. m\<lparr>acc_Locks := acc_Locks m @ [x]\<rparr>) es a = a\<lparr>acc_Locks := acc_Locks a @ es\<rparr>"
  "fold (\<lambda>x m. m\<lparr>qar_Locks := qar_Locks m @ [x]\<rparr>) fs b = b\<lparr>qar_Locks := qar_Locks b @ fs\<rparr>"
  "fold (\<lambda>x m. m\<lparr>Accounts := Accounts m @ [x]\<rparr>) gs c = c\<lparr>Accounts := Accounts c @ gs\<rparr>"
  "fold (\<lambda>x m. m\<lparr>qlr_Locks := qlr_Locks m @ [x]\<rparr>) es d = d\<lparr>qlr_Locks := qlr_Locks d @ es\<rparr>"
  by (induction es arbitrary: a d, simp_all, induction fs arbitrary: b, simp_all, induction gs arbitrary: c, simp_all)

sublocale query_codec \<subseteq> active_lock: pb_message "ActiveLockResource_Size cm"
  "ActiveLockResource_MarshalToSizedBuffer cm" "ActiveLockResource_Unmarshal cu" "ActiveLockResource_wire (enc_of cm)"
  "\<lambda>m. codable cm (ar_Amount m)"
proof
  fix m :: ActiveLockResource
  assume ok: "codable cm (ar_Amount m)"
  show "ActiveLockResource_Size cm m = length (ActiveLockResource_wire (enc_of cm) m)"
    using ok by (simp add: ActiveLockResource_Size_def ActiveLockResource_wire_def)
  show "writes_buf (ActiveLockResource_MarshalToSizedBuffer cm m) (ActiveLockResource_wire (enc_of cm) m)"
    unfolding ActiveLockResource_MarshalToSizedBuffer_def ActiveLockResource_wire_def
    using ok by (intro wire_intros codable_enc) simp_all
  assume "length (ActiveLockResource_wire (enc_of cm) m) < 2 ^ 63"
  then show "ActiveLockResource_Unmarshal cu (ActiveLockResource_wire (enc_of cm) m) = Inr m"
    unfolding ActiveLockResource_Unmarshal_def ActiveLockResource_wire_def
    by (rule unmarshalI)
      (rule reads_rules | (simp add: ActiveLockResource_fields_def ok; fail) |
        (use ok in \<open>auto simp: zero_ActiveLockResource_def fold_appends intro!: ActiveLockResource.equality split: option.splits\<close>))+
qed

sublocale query_codec \<subseteq> lock_resource: pb_message "LockResource_Size cm"
  "LockResource_MarshalToSizedBuffer cm" "LockResource_Unmarshal cu" "LockResource_wire (enc_of cm)"
  "\<lambda>m. codable cm (lr_Amount m)"
proof
  fix m :: LockResource
  assume ok: "codable cm (lr_Amount m)"
  show "LockResource_Size cm m = length (LockResource_wire (enc_of cm) m)"
    using ok by (simp add: LockResource_Size_def LockResource_wire_def)
  show "writes_buf (LockResource_MarshalToSizedBuffer cm m) (LockResource_wire (enc_of cm) m)"
    unfolding LockResource_MarshalToSizedBuffer_def LockResource_wire_def
    using ok by (intro wire_intros codable_enc) simp_all
  assume "length (LockResource_wire (enc_of cm) m) < 2 ^ 63"
  then show "LockResource_Unmarshal cu (LockResource_wire (enc_of cm) m) = Inr m"
    unfolding LockResource_Unmarshal_def LockResource_wire_def
    by (rule unmarshalI)
      (rule reads_rules | (simp add: LockResource_fields_def ok; fail) |
        (use ok in \<open>auto simp: zero_LockResource_def fold_appends intro!: LockResource.equality split: option.splits\<close>))+
qed

sublocale query_codec \<subseteq> account_locks: pb_message "AccountLocksResource_Size cm"
  "AccountLocksResource_MarshalToSizedBuffer cm" "AccountLocksResource_Unmarshal cu" "AccountLocksResource_wire (enc_of cm)"
  "\<lambda>m. \<forall>r \<in> set (acc_Locks m). codable cm (lr_Amount r)"
proof
  fix m :: AccountLocksResource
  assume ok: "\<forall>r \<in> set (acc_Locks m). codable cm (lr_Amount r)"
  show "AccountLocksResource_Size cm m = length (AccountLocksResource_wire (enc_of cm) m)"
    using ok by (simp add: AccountLocksResource_Size_def AccountLocksResource_wire_def lock_resource.size_wire)
  show "writes_buf (AccountLocksResource_MarshalToSizedBuffer cm m) (AccountLocksResource_wire (enc_of cm) m)"
    unfolding AccountLocksResource_MarshalToSizedBuffer_def AccountLocksResource_wire_def
    using ok by (intro wire_intros codable_enc lock_resource.marshal_wire) simp_all
  assume "length (AccountLocksResource_wire (enc_of cm) m) < 2 ^ 63"
  then show "AccountLocksResource_Unmarshal cu (AccountLocksResource_wire (enc_of cm) m) = Inr m"
    unfolding AccountLocksResource_Unmarshal_def AccountLocksResource_wire_def
    by (rule unmarshalI)
      (rule reads_rules lock_resource.unmarshal_wire | (simp add: AccountLocksResource_fields_def ok; fail) |
        (use ok in \<open>auto simp: zero_AccountLocksResource_def fold_appends intro!: AccountLocksResource.equality split: option.splits\<close>))+
qed

sublocale query_codec \<subseteq> active_request: pb_message "QueryActiveLocksRequest_Size qm"
  "QueryActiveLocksRequest_MarshalToSizedBuffer qm" "QueryActiveLocksRequest_Unmarshal qu" "QueryActiveLocksRequest_wire (enc_of qm)"
  "\<lambda>m. pred_option (codable qm) (al_Pagination m)"
proof
  fix m :: QueryActiveLocksRequest
  assume ok: "pred_option (codable qm) (al_Pagination m)"
  show "QueryActiveLocksRequest_Size qm m = length (QueryActiveLocksRequest_wire (enc_of qm) m)"
    using ok by (simp add: QueryActiveLocksRequest_Size_def QueryActiveLocksRequest_wire_def)
  show "writes_buf (QueryActiveLocksRequest_MarshalToSizedBuffer qm m) (QueryActiveLocksRequest_wire (enc_of qm) m)"
    unfolding QueryActiveLocksRequest_MarshalToSizedBuffer_def QueryActiveLocksRequest_wire_def
    using ok by (intro wire_intros codable_enc) simp_all
  assume "length (QueryActiveLocksRequest_wire (enc_of qm) m) < 2 ^ 63"
  then show "QueryActiveLocksRequest_Unmarshal qu (QueryActiveLocksRequest_wire (enc_of qm) m) = Inr m"
    unfolding QueryActiveLocksRequest_Unmarshal_def QueryActiveLocksRequest_wire_def
    by (rule unmarshalI)
      (rule reads_rules | (simp add: QueryActiveLocksRequest_fields_def ok; fail) |
        (use ok in \<open>auto simp: zero_QueryActiveLocksRequest_def fold_appends intro!: QueryActiveLocksRequest.equality split: option.splits\<close>))+
qed

sublocale query_codec \<subseteq> account_request: pb_message "QueryAccountLocksRequest_Size qm"
  "QueryAccountLocksRequest_MarshalToSizedBuffer qm" "QueryAccountLocksRequest_Unmarshal qu" "QueryAccountLocksRequest_wire (enc_of qm)"
  "\<lambda>m. pred_option (codable qm) (acc_Pagination m)"
proof
  fix m :: QueryAccountLocksRequest
  assume ok: "pred_option (codable qm) (acc_Pagination m)"
  show "QueryAccountLocksRequest_Size qm m = length (QueryAccountLocksRequest_wire (enc_of qm) m)"
    using ok by (simp add: QueryAccountLocksRequest_Size_def QueryAccountLocksRequest_wire_def)
  show "writes_buf (QueryAccountLocksRequest_MarshalToSizedBuffer qm m) (QueryAccountLocksRequest_wire (enc_of qm) m)"
    unfolding QueryAccountLocksRequest_MarshalToSizedBuffer_def QueryAccountLocksRequest_wire_def
    using ok by (intro wire_intros codable_enc) simp_all
  assume "length (QueryAccountLocksRequest_wire (enc_of qm) m) < 2 ^ 63"
  then show "QueryAccountLocksRequest_Unmarshal qu (QueryAccountLocksRequest_wire (enc_of qm) m) = Inr m"
    unfolding QueryAccountLocksRequest_Unmarshal_def QueryAccountLocksRequest_wire_def
    by (rule unmarshalI)
      (rule reads_rules | (simp add: QueryAccountLocksRequest_fields_def ok; fail) |
        (use ok in \<open>auto simp: zero_QueryAccountLocksRequest_def fold_appends intro!: QueryAccountLocksRequest.equality split: option.splits\<close>))+
qed

sublocale query_codec \<subseteq> locks_request: pb_message "QueryLocksRequest_Size qm"
  "QueryLocksRequest_MarshalToSizedBuffer qm" "QueryLocksRequest_Unmarshal qu" "QueryLocksRequest_wire (enc_of qm)"
  "\<lambda>m. pred_option (codable qm) (ql_Pagination m)"
proof
  fix m :: QueryLocksRequest
  assume ok: "pred_option (codable qm) (ql_Pagination m)"
  show "QueryLocksRequest_Size qm m = length (QueryLocksRequest_wire (enc_of qm) m)"
    using ok by (simp add: QueryLocksRequest_Size_def QueryLocksRequest_wire_def)
  show "writes_buf (QueryLocksRequest_MarshalToSizedBuffer qm m) (QueryLocksRequest_wire (enc_of qm) m)"
    unfolding QueryLocksRequest_MarshalToSizedBuffer_def QueryLocksRequest_wire_def
    using ok by (intro wire_intros codable_enc) simp_all
  assume "length (QueryLocksRequest_wire (enc_of qm) m) < 2 ^ 63"
  then show "QueryLocksRequest_Unmarshal qu (QueryLocksRequest_wire (enc_of qm) m) = Inr m"
    unfolding QueryLocksRequest_Unmarshal_def QueryLocksRequest_wire_def
    by (rule unmarshalI)
      (rule reads_rules | (simp add: QueryLocksRequest_fields_def ok; fail) |
        (use ok in \<open>auto simp: zero_QueryLocksRequest_def fold_appends intro!: QueryLocksRequest.equality split: option.splits\<close>))+
qed

sublocale query_codec \<subseteq> active_response: pb_message "QueryActiveLocksResponse_Size cm rm"
  "QueryActiveLocksResponse_MarshalToSizedBuffer cm rm" "QueryActiveLocksResponse_Unmarshal cu ru" "QueryActiveLocksResponse_wire (enc_of cm) (enc_of rm)"
  "\<lambda>m. (\<forall>r \<in> set (qar_Locks m). codable cm (ar_Amount r)) \<and> pred_option (codable rm) (qar_Pagination m)"
proof
  fix m :: QueryActiveLocksResponse
  assume ok: "(\<forall>r \<in> set (qar_Locks m). codable cm (ar_Amount r)) \<and> pred_option (codable rm) (qar_Pagination m)"
  show "QueryActiveLocksResponse_Size cm rm m = length (QueryActiveLocksResponse_wire (enc_of cm) (enc_of rm) m)"
    using ok by (simp add: QueryActiveLocksResponse_Size_def QueryActiveLocksResponse_wire_def active_lock.size_wire)
  show "writes_buf (QueryActiveLocksResponse_MarshalToSizedBuffer cm rm m) (QueryActiveLocksResponse_wire (enc_of cm) (enc_of rm) m)"
    unfolding QueryActiveLocksResponse_MarshalToSizedBuffer_def QueryActiveLocksResponse_wire_def
    using ok by (intro wire_intros codable_enc active_lock.marshal_wire) simp_all
  assume "length (QueryActiveLocksResponse_wire (enc_of cm) (enc_of rm) m) < 2 ^ 63"
  then show "QueryActiveLocksResponse_Unmarshal cu ru (QueryActiveLocksResponse_wire (enc_of cm) (enc_of rm) m) = Inr m"
    unfolding QueryActiveLocksResponse_Unmarshal_def QueryActiveLocksResponse_wire_def
    by (rule unmarshalI)
      (rule reads_rules active_lock.unmarshal_wire | (simp add: QueryActiveLocksResponse_fields_def ok; fail) |
        (use ok in \<open>auto simp: zero_QueryActiveLocksResponse_def fold_appends intro!: QueryActiveLocksResponse.equality split: option.splits\<close>))+
qed

sublocale query_codec \<subseteq> total_response: pb_message "QueryTotalLockedAmountResponse_Size cm"
  "QueryTotalLockedAmountResponse_MarshalToSizedBuffer cm" "QueryTotalLockedAmountResponse_Unmarshal cu" "QueryTotalLockedAmountResponse_wire (enc_of cm)"
  "\<lambda>m. codable cm (TotalLocked m)"
proof
  fix m :: QueryTotalLockedAmountResponse
  assume ok: "codable cm (TotalLocked m)"
  show "QueryTotalLockedAmountResponse_Size cm m = length (QueryTotalLockedAmountResponse_wire (enc_of cm) m)"
    using ok by (simp add: QueryTotalLockedAmountResponse_Size_def QueryTotalLockedAmountResponse_wire_def)
  show "writes_buf (QueryTotalLockedAmountResponse_MarshalToSizedBuffer cm m) (QueryTotalLockedAmountResponse_wire (enc_of cm) m)"
    unfolding QueryTotalLockedAmountResponse_MarshalToSizedBuffer_def QueryTotalLockedAmountResponse_wire_def
    using ok by (intro wire_intros codable_enc) simp_all
  assume "length (QueryTotalLockedAmountResponse_wire (enc_of cm) m) < 2 ^ 63"
  then show "QueryTotalLockedAmountResponse_Unmarshal cu (QueryTotalLockedAmountResponse_wire (enc_of cm) m) = Inr m"
    unfolding QueryTotalLockedAmountResponse_Unmarshal_def QueryTotalLockedAmountResponse_wire_def
    by (rule unmarshalI)
      (rule reads_rules | (simp add: QueryTotalLockedAmountResponse_fields_def ok; fail) |
        (use ok in \<open>auto simp: zero_QueryTotalLockedAmountResponse_def fold_appends intro!: QueryTotalLockedAmountResponse.equality split: option.splits\<close>))+
qed

sublocale query_codec \<subseteq> account_response: pb_message "QueryAccountLocksResponse_Size cm rm"
  "QueryAccountLocksResponse_MarshalToSizedBuffer cm rm" "QueryAccountLocksResponse_Unmarshal cu ru" "QueryAccountLocksResponse_wire (enc_of cm) (enc_of rm)"
  "\<lambda>m. (\<forall>r \<in> set (Accounts m). \<forall>l \<in> set (acc_Locks r). codable cm (lr_Amount l)) \<and>
    pred_option (codable rm) (qac_Pagination m)"
proof
  fix m :: QueryAccountLocksResponse
  assume ok: "(\<forall>r \<in> set (Accounts m). \<forall>l \<in> set (acc_Locks r). codable cm (lr_Amount l)) \<and>
    pred_option (codable rm) (qac_Pagination m)"
  show "QueryAccountLocksResponse_Size cm rm m = length (QueryAccountLocksResponse_wire (enc_of cm) (enc_of rm) m)"
    using ok by (simp add: QueryAccountLocksResponse_Size_def QueryAccountLocksResponse_wire_def account_locks.size_wire)
  show "writes_buf (QueryAccountLocksResponse_MarshalToSizedBuffer cm rm m) (QueryAccountLocksResponse_wire (enc_of cm) (enc_of rm) m)"
    unfolding QueryAccountLocksResponse_MarshalToSizedBuffer_def QueryAccountLocksResponse_wire_def
    using ok by (intro wire_intros codable_enc account_locks.marshal_wire) simp_all
  assume "length (QueryAccountLocksResponse_wire (enc_of cm) (enc_of rm) m) < 2 ^ 63"
  then show "QueryAccountLocksResponse_Unmarshal cu ru (QueryAccountLocksResponse_wire (enc_of cm) (enc_of rm) m) = Inr m"
    unfolding QueryAccountLocksResponse_Unmarshal_def QueryAccountLocksResponse_wire_def
    by (rule unmarshalI)
      (rule reads_rules account_locks.unmarshal_wire | (simp add: QueryAccountLocksResponse_fields_def ok; fail) |
        (use ok in \<open>auto simp: zero_QueryAccountLocksResponse_def fold_appends intro!: QueryAccountLocksResponse.equality split: option.splits\<close>))+
qed

sublocale query_codec \<subseteq> locks_response: pb_message "QueryLocksResponse_Size cm rm"
  "QueryLocksResponse_MarshalToSizedBuffer cm rm" "QueryLocksResponse_Unmarshal cu ru" "QueryLocksResponse_wire (enc_of cm) (enc_of rm)"
  "\<lambda>m. (\<forall>r \<in> set (qlr_Locks m). codable cm (lr_Amount r)) \<and> pred_option (codable rm) (qlr_Pagination m)"
proof
  fix m :: QueryLocksResponse
  assume ok: "(\<forall>r \<in> set (qlr_Locks m). codable cm (lr_Amount r)) \<and> pred_option (codable rm) (qlr_Pagination m)"
  show "QueryLocksResponse_Size cm rm m = length (QueryLocksResponse_wire (enc_of cm) (enc_of rm) m)"
    using ok by (simp add: QueryLocksResponse_Size_def QueryLocksResponse_wire_def lock_resource.size_wire)
  show "writes_buf (QueryLocksResponse_MarshalToSizedBuffer cm rm m) (QueryLocksResponse_wire (enc_of cm) (enc_of rm) m)"
    unfolding QueryLocksResponse_MarshalToSizedBuffer_def QueryLocksResponse_wire_def
    using ok by (intro wire_intros codable_enc lock_resource.marshal_wire) simp_all
  assume "length (QueryLocksResponse_wire (enc_of cm) (enc_of rm) m) < 2 ^ 63"
  then show "QueryLocksResponse_Unmarshal cu ru (QueryLocksResponse_wire (enc_of cm) (enc_of rm) m) = Inr m"
    unfolding QueryLocksResponse_Unmarshal_def QueryLocksResponse_wire_def
    by (rule unmarshalI)
      (rule reads_rules lock_resource.unmarshal_wire | (simp add: QueryLocksResponse_fields_def ok; fail) |
        (use ok in \<open>auto simp: zero_QueryLocksResponse_def fold_appends intro!: QueryLocksResponse.equality split: option.splits\<close>))+
qed

context query_codec
begin

lemmas response_roundtrips =
  active_response.codec_roundtrip [folded QueryActiveLocksResponse_Marshal_def]
  account_response.codec_roundtrip [folded QueryAccountLocksResponse_Marshal_def]
  locks_response.codec_roundtrip [folded QueryLocksResponse_Marshal_def]
  total_response.codec_roundtrip [folded QueryTotalLockedAmountResponse_Marshal_def]

end

end
