(* ===== verification/Distro_Codec.thy ===== *)
theory Distro_Codec
  imports Proto_Message Distro
begin

text \<open>
  The wire format of the distribution module: the generated \<open>Size\<close>, \<open>MarshalToSizedBuffer\<close> and
  \<open>Unmarshal\<close> of its parameters and genesis (\<open>x/distro/types/genesis.pb.go\<close>) and of its messages
  (\<open>x/distro/types/tx.pb.go\<close>). The parameters are stored in this format. Every type fulfils
  \<open>pb_message\<close> without a condition.
\<close>

section \<open>Parameters and genesis\<close>

definition Params_Size :: "Params \<Rightarrow> nat" where
  "Params_Size m =
     size_str (MintingAddress m) + size_str (ReceivingAddress m) + size_str (p_Denom m) +
     size_str (MaxSupply m) + size_str (DistributionStartDate m) +
     size_uint (MonthsInHalvingPeriod m)"

definition Params_MarshalToSizedBuffer ::
    "Params \<Rightarrow> bytes \<Rightarrow> pb_buf res" where
  "Params_MarshalToSizedBuffer m = sized_buffer (\<lambda>st.
     bnd (put_uint 48 (MonthsInHalvingPeriod m) st) (\<lambda>st.
     bnd (put_str 42 (DistributionStartDate m) st) (\<lambda>st.
     bnd (put_str 34 (MaxSupply m) st) (\<lambda>st.
     bnd (put_str 26 (p_Denom m) st) (\<lambda>st.
     bnd (put_str 18 (ReceivingAddress m) st)
         (put_str 10 (MintingAddress m)))))))"

definition Params_Marshal :: "Params \<Rightarrow> bytes res" where
  "Params_Marshal m = pb_Marshal (Params_Size m) (Params_MarshalToSizedBuffer m)"

definition Params_fields :: "int \<Rightarrow> Params pb_field" where
  "Params_fields fieldNum =
     (if fieldNum = 1 then PbLen (\<lambda>bs m. Inr (m\<lparr>MintingAddress := bs\<rparr>))
      else if fieldNum = 2 then PbLen (\<lambda>bs m. Inr (m\<lparr>ReceivingAddress := bs\<rparr>))
      else if fieldNum = 3 then PbLen (\<lambda>bs m. Inr (m\<lparr>p_Denom := bs\<rparr>))
      else if fieldNum = 4 then PbLen (\<lambda>bs m. Inr (m\<lparr>MaxSupply := bs\<rparr>))
      else if fieldNum = 5 then PbLen (\<lambda>bs m. Inr (m\<lparr>DistributionStartDate := bs\<rparr>))
      else if fieldNum = 6 then PbVar (\<lambda>v m. m\<lparr>MonthsInHalvingPeriod := v\<rparr>)
      else PbSkip)"

definition zero_Params :: Params where
  "zero_Params = \<lparr>MintingAddress = [], ReceivingAddress = [], p_Denom = [], MaxSupply = [],
      DistributionStartDate = [], MonthsInHalvingPeriod = 0\<rparr>"

definition Params_Unmarshal :: "bytes \<Rightarrow> Params res" where
  "Params_Unmarshal dAtA = pb_unmarshal Params_fields dAtA zero_Params"

definition Params_wire :: "Params \<Rightarrow> bytes" where
  "Params_wire m =
     ((((str_field 1 (MintingAddress m) @ str_field 2 (ReceivingAddress m)) @
     str_field 3 (p_Denom m)) @ str_field 4 (MaxSupply m)) @
     str_field 5 (DistributionStartDate m)) @ uint_field 6 (MonthsInHalvingPeriod m)"

definition GenesisState_Size :: "distro_GenesisState \<Rightarrow> nat" where
  "GenesisState_Size m =
     size_len (Params_Size (gs_Params m))"

definition GenesisState_MarshalToSizedBuffer :: "distro_GenesisState \<Rightarrow> bytes \<Rightarrow> pb_buf res" where
  "GenesisState_MarshalToSizedBuffer m = sized_buffer (put_msg 10 (Params_MarshalToSizedBuffer (gs_Params m)))"

definition GenesisState_Marshal :: "distro_GenesisState \<Rightarrow> bytes res" where
  "GenesisState_Marshal m = pb_Marshal (GenesisState_Size m) (GenesisState_MarshalToSizedBuffer m)"

definition GenesisState_fields :: "int \<Rightarrow> distro_GenesisState pb_field" where
  "GenesisState_fields fieldNum =
     (if fieldNum = 1 then PbLen (\<lambda>bs m.
        bnd (pb_unmarshal Params_fields bs (gs_Params m)) (\<lambda>x. Inr (m\<lparr>gs_Params := x\<rparr>)))
      else PbSkip)"

definition zero_GenesisState :: distro_GenesisState where
  "zero_GenesisState = \<lparr>gs_Params = zero_Params\<rparr>"

definition GenesisState_Unmarshal :: "bytes \<Rightarrow> distro_GenesisState res" where
  "GenesisState_Unmarshal dAtA = pb_unmarshal GenesisState_fields dAtA zero_GenesisState"

definition GenesisState_wire :: "distro_GenesisState \<Rightarrow> bytes" where
  "GenesisState_wire m =
     len_field 1 (Params_wire (gs_Params m))"

section \<open>Messages\<close>

definition MsgMint_Size :: "MsgMint \<Rightarrow> nat" where
  "MsgMint_Size m =
     size_str (mint_Amount m) + size_str (Minter m)"

definition MsgMint_MarshalToSizedBuffer ::
    "MsgMint \<Rightarrow> bytes \<Rightarrow> pb_buf res" where
  "MsgMint_MarshalToSizedBuffer m = sized_buffer (\<lambda>st.
     bnd (put_str 18 (Minter m) st)
         (put_str 10 (mint_Amount m)))"

definition MsgMint_Marshal :: "MsgMint \<Rightarrow> bytes res" where
  "MsgMint_Marshal m = pb_Marshal (MsgMint_Size m) (MsgMint_MarshalToSizedBuffer m)"

definition MsgMint_fields :: "int \<Rightarrow> MsgMint pb_field" where
  "MsgMint_fields fieldNum =
     (if fieldNum = 1 then PbLen (\<lambda>bs m. Inr (m\<lparr>mint_Amount := bs\<rparr>))
      else if fieldNum = 2 then PbLen (\<lambda>bs m. Inr (m\<lparr>Minter := bs\<rparr>))
      else PbSkip)"

definition zero_MsgMint :: MsgMint where
  "zero_MsgMint = \<lparr>mint_Amount = [], Minter = []\<rparr>"

definition MsgMint_Unmarshal :: "bytes \<Rightarrow> MsgMint res" where
  "MsgMint_Unmarshal dAtA = pb_unmarshal MsgMint_fields dAtA zero_MsgMint"

definition MsgMint_wire :: "MsgMint \<Rightarrow> bytes" where
  "MsgMint_wire m =
     str_field 1 (mint_Amount m) @ str_field 2 (Minter m)"

definition MsgUpdateParams_Size :: "MsgUpdateParams \<Rightarrow> nat" where
  "MsgUpdateParams_Size m =
     size_str (Authority m) + size_len (Params_Size (up_Params m))"

definition MsgUpdateParams_MarshalToSizedBuffer ::
    "MsgUpdateParams \<Rightarrow> bytes \<Rightarrow> pb_buf res" where
  "MsgUpdateParams_MarshalToSizedBuffer m = sized_buffer (\<lambda>st.
     bnd (put_msg 18 (Params_MarshalToSizedBuffer (up_Params m)) st)
         (put_str 10 (Authority m)))"

definition MsgUpdateParams_Marshal :: "MsgUpdateParams \<Rightarrow> bytes res" where
  "MsgUpdateParams_Marshal m = pb_Marshal (MsgUpdateParams_Size m) (MsgUpdateParams_MarshalToSizedBuffer m)"

definition MsgUpdateParams_fields :: "int \<Rightarrow> MsgUpdateParams pb_field" where
  "MsgUpdateParams_fields fieldNum =
     (if fieldNum = 1 then PbLen (\<lambda>bs m. Inr (m\<lparr>Authority := bs\<rparr>))
      else if fieldNum = 2 then PbLen (\<lambda>bs m.
        bnd (pb_unmarshal Params_fields bs (up_Params m)) (\<lambda>x. Inr (m\<lparr>up_Params := x\<rparr>)))
      else PbSkip)"

definition zero_MsgUpdateParams :: MsgUpdateParams where
  "zero_MsgUpdateParams = \<lparr>Authority = [], up_Params = zero_Params\<rparr>"

definition MsgUpdateParams_Unmarshal :: "bytes \<Rightarrow> MsgUpdateParams res" where
  "MsgUpdateParams_Unmarshal dAtA = pb_unmarshal MsgUpdateParams_fields dAtA zero_MsgUpdateParams"

definition MsgUpdateParams_wire :: "MsgUpdateParams \<Rightarrow> bytes" where
  "MsgUpdateParams_wire m =
     str_field 1 (Authority m) @ len_field 2 (Params_wire (up_Params m))"

section \<open>Every type fulfils the contract of a codec\<close>

interpretation params: pb_message Params_Size Params_MarshalToSizedBuffer Params_Unmarshal Params_wire
  "\<lambda>_. True"
proof
  fix m :: Params
  show "Params_Size m = length (Params_wire m)"
    by (simp add: Params_Size_def Params_wire_def)
  show "writes_buf (Params_MarshalToSizedBuffer m) (Params_wire m)"
    unfolding Params_MarshalToSizedBuffer_def Params_wire_def
    by (intro wire_intros) simp_all
  assume len: "length (Params_wire m) < 2 ^ 63"
  from len show "Params_Unmarshal (Params_wire m) = Inr m"
    unfolding Params_Unmarshal_def Params_wire_def
    by (rule unmarshalI)
      (rule reads_rules | simp add: Params_fields_def zero_Params_def; fail)+
qed

interpretation genesis_state: pb_message GenesisState_Size GenesisState_MarshalToSizedBuffer GenesisState_Unmarshal GenesisState_wire
  "\<lambda>_. True"
proof
  fix m :: distro_GenesisState
  show "GenesisState_Size m = length (GenesisState_wire m)"
    by (simp add: GenesisState_Size_def GenesisState_wire_def params.size_wire)
  show "writes_buf (GenesisState_MarshalToSizedBuffer m) (GenesisState_wire m)"
    unfolding GenesisState_MarshalToSizedBuffer_def GenesisState_wire_def
    by (intro wire_intros params.marshal_wire) simp_all
  assume len: "length (GenesisState_wire m) < 2 ^ 63"
  then have "length (Params_wire (gs_Params m)) < 2 ^ 63" by (simp add: GenesisState_wire_def size_len_def)
  then have p: "pb_unmarshal Params_fields (Params_wire (gs_Params m)) zero_Params = Inr (gs_Params m)"
    using params.unmarshal_wire by (simp add: Params_Unmarshal_def)
  from len show "GenesisState_Unmarshal (GenesisState_wire m) = Inr m"
    unfolding GenesisState_Unmarshal_def GenesisState_wire_def
    by (rule unmarshalI)
      (rule reads_rules | simp add: GenesisState_fields_def zero_GenesisState_def p; fail)+
qed

interpretation msg_mint: pb_message MsgMint_Size MsgMint_MarshalToSizedBuffer MsgMint_Unmarshal MsgMint_wire
  "\<lambda>_. True"
proof
  fix m :: MsgMint
  show "MsgMint_Size m = length (MsgMint_wire m)"
    by (simp add: MsgMint_Size_def MsgMint_wire_def)
  show "writes_buf (MsgMint_MarshalToSizedBuffer m) (MsgMint_wire m)"
    unfolding MsgMint_MarshalToSizedBuffer_def MsgMint_wire_def
    by (intro wire_intros) simp_all
  assume len: "length (MsgMint_wire m) < 2 ^ 63"
  from len show "MsgMint_Unmarshal (MsgMint_wire m) = Inr m"
    unfolding MsgMint_Unmarshal_def MsgMint_wire_def
    by (rule unmarshalI)
      (rule reads_rules | simp add: MsgMint_fields_def zero_MsgMint_def; fail)+
qed

interpretation msg_update_params: pb_message MsgUpdateParams_Size MsgUpdateParams_MarshalToSizedBuffer MsgUpdateParams_Unmarshal MsgUpdateParams_wire
  "\<lambda>_. True"
proof
  fix m :: MsgUpdateParams
  show "MsgUpdateParams_Size m = length (MsgUpdateParams_wire m)"
    by (simp add: MsgUpdateParams_Size_def MsgUpdateParams_wire_def params.size_wire)
  show "writes_buf (MsgUpdateParams_MarshalToSizedBuffer m) (MsgUpdateParams_wire m)"
    unfolding MsgUpdateParams_MarshalToSizedBuffer_def MsgUpdateParams_wire_def
    by (intro wire_intros params.marshal_wire) simp_all
  assume len: "length (MsgUpdateParams_wire m) < 2 ^ 63"
  then have "length (Params_wire (up_Params m)) < 2 ^ 63" by (simp add: MsgUpdateParams_wire_def size_len_def)
  then have p: "pb_unmarshal Params_fields (Params_wire (up_Params m)) zero_Params = Inr (up_Params m)"
    using params.unmarshal_wire by (simp add: Params_Unmarshal_def)
  from len show "MsgUpdateParams_Unmarshal (MsgUpdateParams_wire m) = Inr m"
    unfolding MsgUpdateParams_Unmarshal_def MsgUpdateParams_wire_def
    by (rule unmarshalI)
      (rule reads_rules | simp add: MsgUpdateParams_fields_def zero_MsgUpdateParams_def p; fail)+
qed

section \<open>The response of the parameter query\<close>

record QueryParamsResponse =
  qp_Params :: "Params option"

definition QueryParamsResponse_Size :: "QueryParamsResponse \<Rightarrow> nat" where
  "QueryParamsResponse_Size m = size_opt Params_Size (qp_Params m)"

definition QueryParamsResponse_MarshalToSizedBuffer :: "QueryParamsResponse \<Rightarrow> bytes \<Rightarrow> pb_buf res" where
  "QueryParamsResponse_MarshalToSizedBuffer m =
     sized_buffer (put_opt (\<lambda>p. put_msg 10 (Params_MarshalToSizedBuffer p)) (qp_Params m))"

definition QueryParamsResponse_Marshal :: "QueryParamsResponse \<Rightarrow> bytes res" where
  "QueryParamsResponse_Marshal m = pb_Marshal (QueryParamsResponse_Size m) (QueryParamsResponse_MarshalToSizedBuffer m)"

definition QueryParamsResponse_fields :: "int \<Rightarrow> QueryParamsResponse pb_field" where
  "QueryParamsResponse_fields fieldNum =
     (if fieldNum = 1 then PbLen (\<lambda>bs m.
        bnd (pb_unmarshal Params_fields bs (case qp_Params m of None \<Rightarrow> zero_Params | Some p \<Rightarrow> p)) (\<lambda>p.
        Inr (m\<lparr>qp_Params := Some p\<rparr>)))
      else PbSkip)"

definition zero_QueryParamsResponse :: QueryParamsResponse where
  "zero_QueryParamsResponse = \<lparr>qp_Params = None\<rparr>"

definition QueryParamsResponse_Unmarshal :: "bytes \<Rightarrow> QueryParamsResponse res" where
  "QueryParamsResponse_Unmarshal dAtA = pb_unmarshal QueryParamsResponse_fields dAtA zero_QueryParamsResponse"

definition QueryParamsResponse_wire :: "QueryParamsResponse \<Rightarrow> bytes" where
  "QueryParamsResponse_wire m = opt_field 1 Params_wire (qp_Params m)"

interpretation params_response: pb_message QueryParamsResponse_Size QueryParamsResponse_MarshalToSizedBuffer
  QueryParamsResponse_Unmarshal QueryParamsResponse_wire "\<lambda>_. True"
proof
  fix m :: QueryParamsResponse
  show "QueryParamsResponse_Size m = length (QueryParamsResponse_wire m)"
    by (simp add: QueryParamsResponse_Size_def QueryParamsResponse_wire_def params.size_wire)
  show "writes_buf (QueryParamsResponse_MarshalToSizedBuffer m) (QueryParamsResponse_wire m)"
    unfolding QueryParamsResponse_MarshalToSizedBuffer_def QueryParamsResponse_wire_def
    by (intro wire_intros params.marshal_wire) simp_all
  assume len: "length (QueryParamsResponse_wire m) < 2 ^ 63"
  have p: "pb_unmarshal Params_fields (Params_wire x) zero_Params = Inr x" if "qp_Params m = Some x" for x
    using len that params.unmarshal_wire [of x]
    by (simp add: Params_Unmarshal_def QueryParamsResponse_wire_def size_opt_def size_len_def)
  from len show "QueryParamsResponse_Unmarshal (QueryParamsResponse_wire m) = Inr m"
    unfolding QueryParamsResponse_Unmarshal_def QueryParamsResponse_wire_def
    by (rule unmarshalI)
      (rule reads_rules | (simp add: QueryParamsResponse_fields_def; fail) |
        (auto simp: zero_QueryParamsResponse_def p intro!: QueryParamsResponse.equality split: option.splits))+
qed

end
