(* ===== verification/Codec_Props.thy ===== *)
theory Codec_Props
  imports Query_Codec Distro_Codec Ref_Run
begin

text \<open>
  The properties of the message formats, and codecs of the foreign types to instantiate them with:
  coins and pages in the layout of the SDK's own proto files, refused when they do not fit into a
  buffer.
\<close>

section \<open>Reference codecs of the foreign types\<close>

definition ref_CoinMarshal :: "coin \<Rightarrow> bytes res" where
  "ref_CoinMarshal c =
     bnd (ref_IntMarshal (CoinAmount c)) (\<lambda>a.
     let w = str_field 1 (Denom c) @ len_field 2 a
     in bnd (require (int (length w) < 2 ^ 63) (ExtError ''too long'')) (\<lambda>_. Inr w))"

definition ref_coin_fields :: "int \<Rightarrow> coin pb_field" where
  "ref_coin_fields fieldNum =
     (if fieldNum = 1 then PbLen (\<lambda>bs c. Inr (c\<lparr>Denom := bs\<rparr>))
      else if fieldNum = 2 then PbLen (\<lambda>bs c. bnd (ref_IntUnmarshal bs) (\<lambda>x. Inr (c\<lparr>CoinAmount := x\<rparr>)))
      else PbSkip)"

definition ref_CoinUnmarshal :: "bytes \<Rightarrow> coin \<Rightarrow> coin res" where
  "ref_CoinUnmarshal bz c = pb_unmarshal ref_coin_fields bz c"

interpretation ref_coins: coin_codec ref_CoinMarshal ref_CoinUnmarshal
proof
  fix c bz
  assume "ref_CoinMarshal c = Inr bz"
  then obtain a where a: "ref_IntMarshal (CoinAmount c) = Inr a"
    and bz: "bz = str_field 1 (Denom c) @ len_field 2 a" and len: "length bz < 2 ^ 63"
    by (auto simp: ref_CoinMarshal_def Let_def)
  from len show "ref_CoinUnmarshal bz zero_coin = Inr c"
    unfolding ref_CoinUnmarshal_def bz
    by (rule unmarshalI)
      (rule reads_rules | simp add: ref_coin_fields_def zero_coin_def ref_int_roundtrip [OF a]; fail)+
qed

definition ref_page_wire :: "PageRequest \<Rightarrow> bytes" where
  "ref_page_wire p =
     (((str_field 1 (page_Key p) @ uint_field 2 (page_Offset p)) @ uint_field 3 (page_Limit p)) @
      uint_field 4 (of_bool (page_CountTotal p))) @ uint_field 5 (of_bool (page_Reverse p))"

definition ref_PageRequestMarshal :: "PageRequest \<Rightarrow> bytes res" where
  "ref_PageRequestMarshal p =
     bnd (require (int (length (ref_page_wire p)) < 2 ^ 63) (ExtError ''too long'')) (\<lambda>_. Inr (ref_page_wire p))"

definition ref_page_fields :: "int \<Rightarrow> PageRequest pb_field" where
  "ref_page_fields fieldNum =
     (if fieldNum = 1 then PbLen (\<lambda>bs p. Inr (p\<lparr>page_Key := bs\<rparr>))
      else if fieldNum = 2 then PbVar (\<lambda>v p. p\<lparr>page_Offset := v\<rparr>)
      else if fieldNum = 3 then PbVar (\<lambda>v p. p\<lparr>page_Limit := v\<rparr>)
      else if fieldNum = 4 then PbVar (\<lambda>v p. p\<lparr>page_CountTotal := (v \<noteq> 0)\<rparr>)
      else if fieldNum = 5 then PbVar (\<lambda>v p. p\<lparr>page_Reverse := (v \<noteq> 0)\<rparr>)
      else PbSkip)"

definition ref_PageResponseMarshal :: "PageResponse \<Rightarrow> bytes res" where
  "ref_PageResponseMarshal p =
     (let w = str_field 1 (NextKey p) @ uint_field 2 (page_Total p)
      in bnd (require (int (length w) < 2 ^ 63) (ExtError ''too long'')) (\<lambda>_. Inr w))"

definition ref_response_fields :: "int \<Rightarrow> PageResponse pb_field" where
  "ref_response_fields fieldNum =
     (if fieldNum = 1 then PbLen (\<lambda>bs p. Inr (p\<lparr>NextKey := bs\<rparr>))
      else if fieldNum = 2 then PbVar (\<lambda>v p. p\<lparr>page_Total := v\<rparr>)
      else PbSkip)"

interpretation ref_queries: query_codec ref_CoinMarshal ref_CoinUnmarshal
  ref_PageRequestMarshal "pb_unmarshal ref_page_fields" ref_PageResponseMarshal "pb_unmarshal ref_response_fields"
proof
  fix p bz
  assume "ref_PageRequestMarshal p = Inr bz"
  then have bz: "bz = ref_page_wire p" and len: "length bz < 2 ^ 63"
    by (auto simp: ref_PageRequestMarshal_def)
  from len show "pb_unmarshal ref_page_fields bz zero_PageRequest = Inr p"
    unfolding bz ref_page_wire_def
    by (rule unmarshalI)
      (rule reads_rules | (simp add: ref_page_fields_def; fail) |
        (auto simp: zero_PageRequest_def intro!: PageRequest.equality))+
next
  fix p bz
  assume "ref_PageResponseMarshal p = Inr bz"
  then have bz: "bz = str_field 1 (NextKey p) @ uint_field 2 (page_Total p)" and len: "length bz < 2 ^ 63"
    by (auto simp: ref_PageResponseMarshal_def Let_def)
  from len show "pb_unmarshal ref_response_fields bz zero_PageResponse = Inr p"
    unfolding bz
    by (rule unmarshalI)
      (rule reads_rules | (simp add: ref_response_fields_def; fail) |
        (auto simp: zero_PageResponse_def intro!: PageResponse.equality))+
qed

section \<open>Messages\<close>

text \<open>
  C20. Lockup messages survive the wire: given the codec of the SDK's coins, marshalling a \<open>MsgLock\<close>,
  \<open>MsgExtend\<close>, \<open>MsgSendDelegateAndLock\<close> or \<open>MsgMultiSendDelegateAndLock\<close> whose coins can be marshalled
  succeeds, fills exactly the buffer its \<open>Size\<close> computes, without an index out of range, and the
  \<open>Unmarshal\<close> of the receiving node gives back the same message, with all extensions and outputs
  in their order.
\<close>

theorem lockup_msgs_roundtrip:
  assumes "coin_codec cm cu"
  shows "(codable cm (lk_Amount l) \<and> MsgLock_Size cm l < 2 ^ 63 \<longrightarrow>
      (\<exists>bz. MsgLock_Marshal cm l = Inr bz \<and> length bz = MsgLock_Size cm l \<and> MsgLock_Unmarshal cu bz = Inr l)) \<and>
    ((\<forall>e \<in> set (Extensions x). codable cm (ext_Amount e)) \<and> MsgExtend_Size cm x < 2 ^ 63 \<longrightarrow>
      (\<exists>bz. MsgExtend_Marshal cm x = Inr bz \<and> length bz = MsgExtend_Size cm x \<and> MsgExtend_Unmarshal cu bz = Inr x)) \<and>
    (codable cm (sdl_Amount s) \<and> MsgSendDelegateAndLock_Size cm s < 2 ^ 63 \<longrightarrow>
      (\<exists>bz. MsgSendDelegateAndLock_Marshal cm s = Inr bz \<and> length bz = MsgSendDelegateAndLock_Size cm s \<and>
        MsgSendDelegateAndLock_Unmarshal cu bz = Inr s)) \<and>
    (codable cm (TotalAmount m) \<and> (\<forall>e \<in> set (Outputs m). codable cm (out_Amount e)) \<and>
      MsgMultiSendDelegateAndLock_Size cm m < 2 ^ 63 \<longrightarrow>
      (\<exists>bz. MsgMultiSendDelegateAndLock_Marshal cm m = Inr bz \<and> length bz = MsgMultiSendDelegateAndLock_Size cm m \<and>
        MsgMultiSendDelegateAndLock_Unmarshal cu bz = Inr m))"
  using coin_codec.message_roundtrips [OF assms] by simp

theorem lockup_msgs_roundtrip_witness:
  "(\<exists>bz. MsgExtend_Marshal ref_CoinMarshal extend_50 = Inr bz \<and>
      MsgExtend_Unmarshal ref_CoinUnmarshal bz = Inr extend_50) \<and>
   (\<exists>bz. MsgMultiSendDelegateAndLock_Marshal ref_CoinMarshal multi_300 = Inr bz \<and>
      MsgMultiSendDelegateAndLock_Unmarshal ref_CoinUnmarshal bz = Inr multi_300)"
proof -
  have "int (MsgExtend_Size ref_CoinMarshal extend_50) < 2 ^ 63"
    "list_all (\<lambda>e. codable ref_CoinMarshal (ext_Amount e)) (Extensions extend_50)" by code_simp+
  moreover have "int (MsgMultiSendDelegateAndLock_Size ref_CoinMarshal multi_300) < 2 ^ 63"
    "codable ref_CoinMarshal (TotalAmount multi_300)"
    "list_all (\<lambda>e. codable ref_CoinMarshal (out_Amount e)) (Outputs multi_300)" by code_simp+
  ultimately show ?thesis
    using lockup_msgs_roundtrip [OF ref_coins.coin_codec_axioms, of lock_200 extend_50 send_300 multi_300]
    by (auto simp: list_all_iff)
qed

text \<open>
  The bytes that are signed and broadcast determine the message: two lockup messages of one type
  with the same bytes are the same message.
\<close>

theorem lockup_msgs_unambiguous:
  assumes "coin_codec cm cu" and "codable cm (sdl_Amount s)" and "codable cm (sdl_Amount t)"
    and "MsgSendDelegateAndLock_Size cm s < 2 ^ 63"
    and "MsgSendDelegateAndLock_Marshal cm s = MsgSendDelegateAndLock_Marshal cm t"
  shows "s = t"
  using coin_codec.message_injective(3) [OF assms] .

text \<open>
  C39. The distribution module's parameters, genesis and messages survive the wire and the store:
  marshalling any \<open>Params\<close>, \<open>GenesisState\<close>, \<open>MsgMint\<close> or \<open>MsgUpdateParams\<close> whose size fits an index
  succeeds, fills exactly the buffer its \<open>Size\<close> computes, and unmarshalling the bytes gives the same value
  back, with the nested parameters.
\<close>

theorem distro_roundtrip:
  "(Params_Size p < 2 ^ 63 \<longrightarrow>
      (\<exists>bz. Params_Marshal p = Inr bz \<and> length bz = Params_Size p \<and> Params_Unmarshal bz = Inr p)) \<and>
   (GenesisState_Size g < 2 ^ 63 \<longrightarrow>
      (\<exists>bz. GenesisState_Marshal g = Inr bz \<and> length bz = GenesisState_Size g \<and> GenesisState_Unmarshal bz = Inr g)) \<and>
   (MsgMint_Size m < 2 ^ 63 \<longrightarrow>
      (\<exists>bz. MsgMint_Marshal m = Inr bz \<and> length bz = MsgMint_Size m \<and> MsgMint_Unmarshal bz = Inr m)) \<and>
   (MsgUpdateParams_Size u < 2 ^ 63 \<longrightarrow>
      (\<exists>bz. MsgUpdateParams_Marshal u = Inr bz \<and> length bz = MsgUpdateParams_Size u \<and>
        MsgUpdateParams_Unmarshal bz = Inr u))"
  using params.codec_roundtrip [of p] genesis_state.codec_roundtrip [of g] msg_mint.codec_roundtrip [of m]
    msg_update_params.codec_roundtrip [of u]
  by (simp add: Params_Marshal_def GenesisState_Marshal_def MsgMint_Marshal_def MsgUpdateParams_Marshal_def)

definition mint_wire :: MsgMint where
  "mint_wire = \<lparr>mint_Amount = ''1000'', Minter = ''alice''\<rparr>"

definition update_wire :: MsgUpdateParams where
  "update_wire = \<lparr>Authority = ''gov'', up_Params = DefaultParams\<rparr>"

theorem distro_roundtrip_witness:
  "(\<exists>bz. Params_Marshal DefaultParams = Inr bz \<and> Params_Unmarshal bz = Inr DefaultParams) \<and>
   (\<exists>bz. GenesisState_Marshal \<lparr>gs_Params = DefaultParams\<rparr> = Inr bz \<and>
      GenesisState_Unmarshal bz = Inr \<lparr>gs_Params = DefaultParams\<rparr>) \<and>
   (\<exists>bz. MsgMint_Marshal mint_wire = Inr bz \<and> MsgMint_Unmarshal bz = Inr mint_wire) \<and>
   (\<exists>bz. MsgUpdateParams_Marshal update_wire = Inr bz \<and> MsgUpdateParams_Unmarshal bz = Inr update_wire)"
proof -
  have "int (Params_Size DefaultParams) < 2 ^ 63" "int (GenesisState_Size \<lparr>gs_Params = DefaultParams\<rparr>) < 2 ^ 63"
    "int (MsgMint_Size mint_wire) < 2 ^ 63" "int (MsgUpdateParams_Size update_wire) < 2 ^ 63" by code_simp+
  then show ?thesis
    using distro_roundtrip [of DefaultParams "\<lparr>gs_Params = DefaultParams\<rparr>" mint_wire update_wire] by auto
qed

text \<open>The answers of the paged queries arrive with every resource and their next key.\<close>

theorem query_responses_roundtrip:
  assumes "query_codec cm cu qm qu rm ru"
    and "\<forall>r \<in> set (qar_Locks a). codable cm (ar_Amount r)" and "pred_option (codable rm) (qar_Pagination a)"
    and "QueryActiveLocksResponse_Size cm rm a < 2 ^ 63"
    and "\<forall>r \<in> set (Accounts c). \<forall>l \<in> set (acc_Locks r). codable cm (lr_Amount l)"
    and "pred_option (codable rm) (qac_Pagination c)" and "QueryAccountLocksResponse_Size cm rm c < 2 ^ 63"
  shows "(\<exists>bz. QueryActiveLocksResponse_Marshal cm rm a = Inr bz \<and>
      QueryActiveLocksResponse_Unmarshal cu ru bz = Inr a) \<and>
    (\<exists>bz. QueryAccountLocksResponse_Marshal cm rm c = Inr bz \<and>
      QueryAccountLocksResponse_Unmarshal cu ru bz = Inr c)"
  using query_codec.response_roundtrips(1,2) [OF assms(1)] assms(2-) by blast

end
