(* ===== verification/App_Modules.thy ===== *)
theory App_Modules
  imports App_Genesis Cli Distro_Mint Distro_Codec
begin

text \<open>
  How the application puts its modules together: the modules of the manager and the orders in which
  it calls them, the stores it mounts (\<open>app/app.go\<close>), and the genesis functions of the two modules of the repository,
  \<open>x/distro/module.go\<close> and \<open>x/lockup/module.go\<close>, over the JSON codec of the SDK. The lemmas show the
  orders that the comments of \<open>app.go\<close> ask for, that an exported genesis of the distribution module
  is valid and restores its parameters, and what an invalid one does.
\<close>

section \<open>Modules and their orders\<close>

text \<open>The names of the modules, one for each \<open>ModuleName\<close> that \<open>app.go\<close> uses.\<close>

datatype app_module =
    M_genutil | M_auth | M_bank | M_feegrant | M_gov | M_nft | M_mint | M_slashing | M_distr | M_staking
  | M_upgrade | M_evidence | M_params | M_authz | M_consensus | M_epochs | M_vesting | M_ibc | M_ibctm
  | M_transfer | M_ica | M_evm | M_feemarket | M_erc20 | M_precisebank | M_distro | M_lockup | M_wasm

definition ModuleManager_modules :: "app_module list" where
  "ModuleManager_modules =
     [M_genutil, M_auth, M_bank, M_feegrant, M_gov, M_nft, M_mint, M_slashing, M_distr, M_staking,
      M_upgrade, M_evidence, M_params, M_authz, M_consensus, M_epochs, M_vesting,
      M_ibc, M_ibctm, M_transfer, M_ica,
      M_evm, M_feemarket, M_erc20,
      M_distro, M_lockup,
      M_wasm]"

definition OrderPreBlockers :: "app_module list" where
  "OrderPreBlockers = [M_upgrade, M_auth, M_evm]"

definition OrderBeginBlockers :: "app_module list" where
  "OrderBeginBlockers =
     [M_epochs, M_mint,
      M_ibc, M_transfer, M_ica,
      M_erc20, M_feemarket, M_evm,
      M_distr, M_slashing, M_evidence, M_staking, M_auth, M_bank, M_gov, M_nft,
      M_genutil, M_authz, M_feegrant, M_consensus, M_precisebank, M_vesting,
      M_wasm,
      M_distro, M_lockup]"

definition OrderEndBlockers :: "app_module list" where
  "OrderEndBlockers =
     [M_bank, M_gov, M_staking, M_auth,
      M_evm, M_erc20, M_feemarket,
      M_ibc, M_transfer, M_ica, M_distr, M_slashing, M_mint, M_genutil, M_evidence, M_authz, M_nft,
      M_feegrant, M_upgrade, M_consensus, M_epochs, M_precisebank, M_vesting,
      M_wasm,
      M_distro, M_lockup]"

definition genesisModuleOrder :: "app_module list" where
  "genesisModuleOrder =
     [M_auth, M_bank, M_distr, M_staking, M_slashing, M_gov, M_mint, M_ibc, M_ica,
      M_evm, M_feemarket, M_erc20, M_precisebank,
      M_transfer, M_genutil, M_evidence, M_authz, M_feegrant, M_nft, M_params,
      M_transfer, M_ibc, M_ica, M_upgrade, M_vesting, M_consensus, M_epochs,
      M_wasm,
      M_distro, M_lockup]"

text \<open>\<open>x\<close> is called before the first call of \<open>y\<close>.\<close>

definition precedes :: "app_module list \<Rightarrow> app_module \<Rightarrow> app_module \<Rightarrow> bool" where
  "precedes order x y \<longleftrightarrow> y \<in> set order \<and> x \<in> set (takeWhile (\<lambda>z. z \<noteq> y) order)"

text \<open>
  The orders the comments of \<open>app.go\<close> ask for: upgrades come first before a block; slashing begins
  a block after the distribution and the EVM after the fee market; genutil is initialized after
  staking and the fee market, and wasm after IBC and the bank.
\<close>

theorem module_orders:
  "hd OrderPreBlockers = M_upgrade \<and>
   precedes OrderBeginBlockers M_distr M_slashing \<and> precedes OrderBeginBlockers M_feemarket M_evm \<and>
   precedes genesisModuleOrder M_staking M_genutil \<and> precedes genesisModuleOrder M_feemarket M_genutil \<and>
   precedes genesisModuleOrder M_ibc M_wasm \<and> precedes genesisModuleOrder M_bank M_wasm"
  by (simp add: precedes_def OrderPreBlockers_def OrderBeginBlockers_def genesisModuleOrder_def)

text \<open>
  Every managed module but the light client is in the genesis order, which also names the precise
  bank, a module that is not managed; three modules are listed twice, so they are initialized and
  exported twice.
\<close>

theorem genesis_order_modules:
  "set genesisModuleOrder = set ModuleManager_modules - {M_ibctm} \<union> {M_precisebank} \<and>
   filter (\<lambda>x. 1 < length (filter (\<lambda>y. y = x) genesisModuleOrder)) ModuleManager_modules =
     [M_ibc, M_transfer, M_ica]"
  by (auto simp: genesisModuleOrder_def ModuleManager_modules_def)

text \<open>Each order of a block names a module at most once, and both modules of the repository.\<close>

theorem block_orders_distinct:
  "distinct OrderPreBlockers \<and> distinct OrderBeginBlockers \<and> distinct OrderEndBlockers \<and>
   {M_distro, M_lockup} \<subseteq> set OrderBeginBlockers \<inter> set OrderEndBlockers \<inter> set genesisModuleOrder"
  by (simp add: OrderPreBlockers_def OrderBeginBlockers_def OrderEndBlockers_def genesisModuleOrder_def)

section \<open>Stores\<close>

text \<open>The store keys the application mounts, by the package that names them.\<close>

datatype app_store =
    K_auth | K_bank | K_staking | K_mint | K_distr | K_slashing | K_gov | K_params | K_consensus | K_upgrade
  | K_feegrant | K_evidence | K_authz | K_nft | K_epochs | K_ibc | K_transfer | K_icahost | K_icacontroller
  | K_evm | K_feemarket | K_erc20 | K_distro | K_lockup | K_wasm

definition app_stores :: "app_store list" where
  "app_stores =
     [K_auth, K_bank, K_staking, K_mint, K_distr, K_slashing, K_gov, K_params, K_consensus, K_upgrade,
      K_feegrant, K_evidence, K_authz, K_nft, K_epochs,
      K_ibc, K_transfer, K_icahost, K_icacontroller,
      K_evm, K_feemarket, K_erc20,
      K_distro, K_lockup,
      K_wasm]"

text \<open>
  \<open>GetStoreKeys\<close> collects the names of the keys in the order in which Go happens to iterate over
  the map, and sorts them.
\<close>

definition GetStoreKeys :: "string list \<Rightarrow> string list" where
  "GetStoreKeys iteration = sort iteration"

theorem GetStoreKeys_deterministic:
  assumes "mset xs = mset ys"
  shows "GetStoreKeys xs = GetStoreKeys ys \<and> sorted (GetStoreKeys xs) \<and> set (GetStoreKeys xs) = set ys"
proof -
  have "sort ys = sort xs" by (rule properties_for_sort) (simp_all add: assms)
  then show ?thesis using mset_eq_setD [OF assms] by (simp add: GetStoreKeys_def)
qed

text \<open>
  The stores that the upgrade adds are mounted by the application, so that the loader finds each of
  them.
\<close>

theorem upgrade_stores_mounted:
  assumes "key K_epochs = epochs_StoreKey A" and "key K_wasm = wasm_StoreKey A" and "key K_lockup = lockup_StoreKey"
  shows "set (Added (storeUpgrades A)) \<subseteq> set (map key app_stores) \<and> distinct app_stores"
  using assms by (auto simp: storeUpgrades_def app_stores_def)

section \<open>Genesis of the distribution module\<close>

text \<open>
  The JSON codec is the SDK's: \<open>mj\<close> is \<open>MarshalJSON\<close> and \<open>uj\<close> is \<open>UnmarshalJSON\<close>. The \<open>Must\<close> variants
  panic where these give an error.
\<close>

definition or_panic :: "'a res \<Rightarrow> 'a res" where
  "or_panic r = wrap_err (GoPanic ''genesis'') r"

definition distro_module_DefaultGenesis :: "(distro_GenesisState \<Rightarrow> bytes res) \<Rightarrow> bytes res" where
  "distro_module_DefaultGenesis mj = or_panic (mj \<lparr>gs_Params = DefaultParams\<rparr>)"

definition distro_module_ValidateGenesis ::
    "'w distro_env \<Rightarrow> (bytes \<Rightarrow> distro_GenesisState res) \<Rightarrow> bytes \<Rightarrow> unit res" where
  "distro_module_ValidateGenesis E uj message =
     bnd (uj message) (\<lambda>data.
     wrap_err (FmtError ''params'') (Params_Validate E (gs_Params data)))"

definition distro_module_InitGenesis ::
    "'w distro_env \<Rightarrow> (bytes \<Rightarrow> distro_GenesisState res) \<Rightarrow> 'w \<Rightarrow> bytes \<Rightarrow> 'w res" where
  "distro_module_InitGenesis E uj w message =
     bnd (or_panic (uj message)) (\<lambda>genesisState.
     bnd (or_panic (ParamsSet E w (gs_Params genesisState))) (\<lambda>w.
     or_panic (InitGenesis E w genesisState)))"

definition distro_module_ExportGenesis ::
    "'w distro_env \<Rightarrow> (distro_GenesisState \<Rightarrow> bytes res) \<Rightarrow> 'w \<Rightarrow> bytes res" where
  "distro_module_ExportGenesis E mj w = bnd (ExportGenesis E w) (\<lambda>genState. or_panic (mj genState))"

section \<open>Genesis of the lockup module\<close>

definition lockup_module_DefaultGenesis :: "(lockup_GenesisState \<Rightarrow> bytes res) \<Rightarrow> bytes res" where
  "lockup_module_DefaultGenesis mj = or_panic (mj GenesisState)"

definition lockup_module_ValidateGenesis :: "(bytes \<Rightarrow> lockup_GenesisState res) \<Rightarrow> bytes \<Rightarrow> unit res" where
  "lockup_module_ValidateGenesis uj message = bnd (uj message) (\<lambda>_. Inr ())"

definition lockup_module_InitGenesis ::
    "(bytes \<Rightarrow> lockup_GenesisState res) \<Rightarrow> 'w \<Rightarrow> bytes \<Rightarrow> 'w res" where
  "lockup_module_InitGenesis uj w message =
     bnd (or_panic (uj message)) (\<lambda>genesisState. or_panic (lockup_InitGenesis w genesisState))"

definition lockup_module_ExportGenesis :: "(lockup_GenesisState \<Rightarrow> bytes res) \<Rightarrow> 'w \<Rightarrow> bytes res" where
  "lockup_module_ExportGenesis mj w = or_panic (mj (lockup_ExportGenesis w))"

section \<open>Export and import\<close>

text \<open>The contract of the JSON codec.\<close>

locale json_codec =
  fixes mj :: "'g \<Rightarrow> bytes res" and uj :: "bytes \<Rightarrow> 'g res"
  assumes json_roundtrip: "mj g = Inr bz \<Longrightarrow> uj bz = Inr g"

text \<open>The empty state of the lockup module is the empty object.\<close>

definition empty_object :: "lockup_GenesisState \<Rightarrow> bytes res" where
  "empty_object g = Inr ''{}''"

definition read_object :: "bytes \<Rightarrow> lockup_GenesisState res" where
  "read_object bz = (if bz = ''{}'' then Inr GenesisState else Inl (FmtError ''unexpected JSON''))"

interpretation lockup_json: json_codec empty_object read_object
proof
  fix g bz
  assume "empty_object g = Inr bz"
  then show "read_object bz = Inr g" by (cases g) (simp add: empty_object_def read_object_def)
qed

text \<open>The proto format of the distribution genesis is another instance.\<close>

definition genesis_proto :: "distro_GenesisState \<Rightarrow> bytes res" where
  "genesis_proto g =
     bnd (require (int (GenesisState_Size g) < 2 ^ 63) (FmtError ''too long'')) (\<lambda>_. GenesisState_Marshal g)"

interpretation distro_proto: json_codec genesis_proto GenesisState_Unmarshal
proof
  fix g bz
  assume "genesis_proto g = Inr bz"
  then show "GenesisState_Unmarshal bz = Inr g"
    using genesis_state.codec_roundtrip [of g] by (auto simp: genesis_proto_def GenesisState_Marshal_def)
qed

lemma or_panic_Inr [simp]: "or_panic r = Inr x \<longleftrightarrow> r = Inr x"
  by (simp add: or_panic_def wrap_err_def split: sum.splits)

lemma or_panic_simps [simp]: "or_panic (Inr x) = Inr x"
  by simp

text \<open>A genesis with invalid parameters never initializes the module.\<close>

theorem InitGenesis_valid:
  assumes "distro_bank E stored bal" and "distro_module_InitGenesis E uj w message = Inr w'"
  shows "\<exists>g. uj message = Inr g \<and> distro_module_ValidateGenesis E uj message = Inr () \<and>
    stored w' = Some (gs_Params g)"
  using assms(2) distro_bank.InitGenesis_stored [OF assms(1)]
  by (auto simp: distro_module_InitGenesis_def distro_module_ValidateGenesis_def wrap_err_def)

text \<open>
  The distribution module survives an export: the genesis exported in a reachable state is valid,
  and a chain started from it has the same parameters.
\<close>

theorem distro_export_import:
  assumes "distro_bank E stored bal" and "json_codec mj uj" and "distro_reachable E stored authority w"
    and "distro_module_ExportGenesis E mj w = Inr bz"
  shows "distro_module_ValidateGenesis E uj bz = Inr () \<and>
    (\<forall>w0 w1. distro_module_InitGenesis E uj w0 bz = Inr w1 \<longrightarrow> stored w1 = stored w)"
proof -
  from assms(4) obtain p where p: "ParamsGet E w = Inr p" and mj: "mj \<lparr>gs_Params = p\<rparr> = Inr bz"
    by (auto simp: distro_module_ExportGenesis_def ExportGenesis_def)
  have s: "stored w = Some p" using distro_bank.params_get [OF assms(1) p] .
  have uj: "uj bz = Inr \<lparr>gs_Params = p\<rparr>" using json_codec.json_roundtrip [OF assms(2) mj] .
  have "Params_Validate E p = Inr ()"
    using distro_bank.reachable_valid [OF assms(1,3)] s by auto
  then show ?thesis
    using InitGenesis_valid [OF assms(1)] uj s
    by (fastforce simp: distro_module_ValidateGenesis_def wrap_err_def)
qed

text \<open>
  The lockup module does not survive it: whatever a chain held, the chain started from its exported
  genesis is the one started from the default genesis, without a lock.
\<close>

theorem lockup_export_default:
  "lockup_module_ExportGenesis mj w = lockup_module_DefaultGenesis mj \<and>
   (lockup_module_InitGenesis uj w0 bz = Inr w1 \<longrightarrow> w1 = w0)"
  by (auto simp: lockup_module_ExportGenesis_def lockup_module_DefaultGenesis_def lockup_ExportGenesis_def
      lockup_module_InitGenesis_def lockup_InitGenesis_def)

end
