(* ===== verification/Spec2Isabelle.thy ===== *)
theory Spec2Isabelle
  imports Lock_Props Guard_Props Query_Props Distro_Props Legacy_Props Precompile_Props Ante_Props
    Cli_Props Chain_Props Export_Props App_Props Codec_Props App_Modules
begin

text \<open>
  Verification of the Trusted Smart Chain node (\<open>tscd\<close>), a Cosmos SDK chain with an EVM. Its own code
  is two modules, \<^emph>\<open>lockup\<close> (tokens that stay delegated until a date) and \<^emph>\<open>distro\<close> (minting on a
  halving schedule), an EVM precompile for lockup, an ante handler, a decoder for EVM transactions
  in an old wire format, the application's genesis, upgrade and export code, and the commands.

  \<^bold>\<open>How the parts interact.\<close> A transaction is decoded (\<open>app/legacy_ethtx.go\<close> around the SDK's decoder), passes
  the ante handler (\<open>app/ante\<close>), which marks redelegations in the context, and reaches a message
  server: \<open>x/lockup/keeper\<close>, \<open>x/distro/keeper\<close>, the staking and bank modules, or the EVM, which may
  call the precompile (\<open>precompiles/lockup\<close>) and through it the lockup server. Lockup keeps the locks of
  each address and an expiry queue in one key-value store; it guards delegations by staking hooks
  and balances by a send restriction of the bank.

  \<^bold>\<open>Conventions.\<close> A fallible function returns \<open>go_err + 'a\<close> (\<open>Prelude\<close>): registered errors, \<open>fmt\<close>
  errors, Go panics, \<open>log.Fatal\<close> and \<open>NoReturn\<close> (a loop that never ends) are values of \<open>go_err\<close>, and
  \<open>bnd\<close> is the early return. State is passed explicitly; the world \<open>'w\<close> and every third-party function
  are parameters, grouped in records (\<open>sdk\<close>, \<open>distro_env\<close>, \<open>eth_lib\<close>, \<open>abi_lib\<close>, \<open>ante_lib\<close>, \<open>export_lib\<close>,
  \<open>app_lib\<close>, \<open>upgrade_lib\<close>). What is relied on is the law of a locale: \<open>kv_store\<close>, \<open>int_codec\<close>,
  \<open>foreign_codec\<close>, \<open>json_codec\<close>, \<open>lockup_env\<close>, \<open>staked_env\<close>, \<open>distro_bank\<close>, \<open>ante_chain\<close>, \<open>export_keepers\<close>, \<open>evm_keeper\<close>. Each is interpreted on a
  concrete environment (\<open>Ref_World\<close>, \<open>Ref_Distro\<close> and the property theories) that evaluates, on which
  the witnesses run. Inside the model the locales \<open>pb_message\<close> (the contract of a generated codec), \<open>lock_ledger\<close>, \<open>store_writes\<close>, \<open>view_invariant\<close>,
  \<open>field_decoder\<close>, \<open>safe_decoder\<close> and \<open>reset_store\<close> state what several operations share.

  \<^bold>\<open>Theories and sources.\<close>
  \<^item> \<open>Prelude\<close>, \<open>Go_Time\<close>, \<open>Sdk\<close>: errors, checked 256-bit integers, Go's slices and 64-bit integers;
    \<open>time.Time\<close> as nanoseconds, civil dates, \<open>Parse\<close>; the SDK's interface.
  \<^item> \<open>Proto_Wire\<close>, \<open>Proto_Message\<close>: varints, tags, the field loop of the generated code, and the blocks its
    marshallers are made of, with a rule for each; \<open>Lock_Codec\<close>: the codec of stored locks
    (\<open>x/lockup/types/lock.pb.go\<close>); \<open>Msg_Codec\<close>, \<open>Query_Codec\<close>: those of the lockup messages and queries
    (\<open>tx.pb.go\<close>, \<open>extension.pb.go\<close>, \<open>output.pb.go\<close>, \<open>query.pb.go\<close>); \<open>Distro_Codec\<close>: those of \<open>x/distro/types\<close>.
  \<^item> \<open>Lock_Store\<close>, \<open>Expiry_Queue\<close>: \<open>locks_by_address_store.go\<close>, \<open>locks_by_date_store.go\<close>.
  \<^item> \<open>Lock_Delegation\<close>: \<open>helpers.go\<close>, \<open>hooks.go\<close>, \<open>send_restriction.go\<close>, \<open>app/ante/redelegate.go\<close>.
  \<^item> \<open>Lock_Msgs\<close>: the messages' \<open>ValidateBasic\<close> and the four handlers \<open>msg_server_*.go\<close>.
  \<^item> \<open>Lock_Ledger\<close>, \<open>Lock_Inv\<close>, \<open>Lock_Writes\<close>, \<open>Chain_Safety\<close>: the abstract ledger (a sorted book of locks per
    address, a queue of amounts per date), the handlers as a state machine over it, what they write
    and what they therefore keep, and that machine among staking operations, transfers and blocks.
  \<^item> \<open>Lock_Query\<close>: \<open>query_server.go\<close>; \<open>Cli\<close>: \<open>client/cli/tx.go\<close> and the module's genesis.
  \<^item> \<open>Distro\<close>, \<open>Distro_Schedule\<close>, \<open>Distro_Mint\<close>: \<open>x/distro\<close>, its schedule and its handlers.
  \<^item> \<open>Legacy_Wire\<close>, \<open>Legacy_Tx\<close>, \<open>Legacy_Fields\<close>, \<open>Legacy_Decode\<close>, \<open>Legacy_Codec\<close>, \<open>Legacy_Safe\<close>, \<open>Legacy_End\<close>:
    \<open>app/legacy_ethtx.go\<close>, encoders of the old format as its specification, and round trips.
  \<^item> \<open>Precompile\<close>: \<open>precompiles/lockup/*.go\<close>; \<open>Ante\<close>: \<open>app/ante/*.go\<close> and \<open>setAnteHandler\<close>.
  \<^item> \<open>App_Export\<close>, \<open>Export_Reset\<close>: \<open>app/export.go\<close> and the export command of \<open>cmd/tscd\<close>; \<open>App_Genesis\<close>: \<open>app/genesis.go\<close>, \<open>app/upgrades.go\<close> and the
    accounts of \<open>app/app.go\<close>; \<open>App_Modules\<close>: its modules and their orders, and the genesis functions of
    \<open>x/*/module.go\<close>.
  \<^item> \<open>*_Props\<close>: the properties with their witnesses.

  \<^bold>\<open>What is shown.\<close> Lockup: the store is well typed and book and queue agree in every reachable state; on a chain with the hooks
  installed, precompile calls included, the locked amount stays covered by the delegations as long as no
  expired lock is extended, no one is slashed and no undelegation hides behind a redelegation marker, and from its
  last unlock date on an address is free again; each handler does to the ledger what
  the list specification says and refuses what it must; hooks, send restriction and marker decide
  exactly as specified; stored locks, messages, query answers and the parameters of distro survive encoding; queries report
  the ledger. Distro: mints
  stay within the schedule and the maximum supply and change nothing else; periods tile the calendar,
  the computed limit is the specified sum, bounded and monotone; an exported genesis is valid and
  restores the parameters. Old transactions: decoding inverts
  the old encoding, the converted transaction has the old data and sender, anything else passes
  through, and the decoder returns on every input without oversized varints. Precompile: a call acts
  only for its caller, a read-only call changes nothing. Application: routing in the ante handler, an upgrade that
  ends in the denominations and precompiles of a fresh genesis, and a height-zero export that resets exactly the heights and jails it should.
  The proofs also show where the code fails: an expired lock can be extended without cover; 100
  delegations make the delegated total loop forever; minting panics from period 64 on; an offset beyond
  a list panics a query; the precompile's \<open>extend\<close> never succeeds; a negative length makes the old-format
  decoder loop forever; an export drops all locks.

  \<^bold>\<open>Bounds and fuel.\<close> There is no fuel. Loops that may not end (\<open>delegated_loop\<close>, the field loops of the old
  decoder) are \<open>partial_function\<close>s in the option monad whose \<open>None\<close> becomes \<open>NoReturn\<close>; results are proved as
  results, and the two non-terminating cases as such. Every other loop is a total function; the
  search for the halving period has the code's own bound of 1000. The schedule theorems ask for
  \<open>schedule_ok\<close>: a start at midnight, periods of 1 to 3000 months and a maximum supply below 2 to the 239,
  so that no 256-bit product overflows and no date leaves the 64-bit range; the chain's parameters,
  48 months and 21 million tokens, are far inside. The termination of the old decoder asks for varints
  below 2 to the 62, which every length that occurs is.

  \<^bold>\<open>Not modelled.\<close> The generated protobuf reflection and gRPC code (\<open>api/**/*.pulsar.go\<close>, \<open>*_grpc.pb.go\<close>,
  \<open>*.pb.gw.go\<close>, the stubs and empty types of \<open>*.pb.go\<close>), which the protobuf and gRPC runtimes drive; the
  construction and registration of third-party keepers, stores and routes in \<open>NewChainApp\<close>,
  \<open>depinject.go\<close>, \<open>autocli.go\<close> and \<open>codec.go\<close>; the other commands of \<open>cmd/tscd\<close>; query commands, which only call
  the generated client; logging, telemetry and gas. A nil element of a repeated pointer field, which
  no decoder produces, has no value in the model of the messages. Gas matters where a loop is said not to end: a node stops it when the gas of the transaction
  is used up, where the call is metered.
\<close>

end
